(* ===== verification/Btree_Map.thy ===== *)
theory Btree_Map
  imports Rust_Text "HOL-Library.List_Lexorder" "HOL-Library.Product_Lexorder"
begin

text \<open>
  \<open>BTreeMap\<close> as the strictly ascending association list its iterator yields. Strings compare
  byte by byte in Rust, which on UTF-8 is the lexicographic order on code points used here;
  tuples compare lexicographically. The JSON objects and the metric families are such maps.
\<close>

section \<open>Operations\<close>

definition bt_sorted :: "('k::linorder \<times> 'v) list \<Rightarrow> bool" where
  "bt_sorted m \<longleftrightarrow> sorted_wrt (<) (map fst m)"

fun bt_insert :: "'k::linorder \<Rightarrow> 'v \<Rightarrow> ('k \<times> 'v) list \<Rightarrow> ('k \<times> 'v) list" where
  "bt_insert k v [] = [(k, v)]"
| "bt_insert k v ((k', v') # m) =
     (if k < k' then (k, v) # (k', v') # m
      else if k = k' then (k, v) # m
      else (k', v') # bt_insert k v m)"

definition bt_get :: "('k \<times> 'v) list \<Rightarrow> 'k \<Rightarrow> 'v option" where
  "bt_get m k = map_of m k"

text \<open>\<open>*map.entry(k).or_insert(zero)\<close> with \<open>f\<close> applied to the slot.\<close>

definition bt_entry :: "'v \<Rightarrow> ('v \<Rightarrow> 'v) \<Rightarrow> 'k::linorder \<Rightarrow> ('k \<times> 'v) list \<Rightarrow> ('k \<times> 'v) list" where
  "bt_entry zero f k m = bt_insert k (f (unwrap_or (bt_get m k) zero)) m"

fun bt_of_list :: "('k::linorder \<times> 'v) list \<Rightarrow> ('k \<times> 'v) list" where
  "bt_of_list [] = []"
| "bt_of_list ((k, v) # rest) = (if k \<in> fst ` set rest then bt_of_list rest
                                 else bt_insert k v (bt_of_list rest))"

section \<open>Laws\<close>

lemma set_keys_bt_insert [simp]: "set (map fst (bt_insert k v m)) = insert k (set (map fst m))"
  by (induction k v m rule: bt_insert.induct) auto

lemma keys_bt_insert [simp]: "fst ` set (bt_insert k v m) = insert k (fst ` set m)"
  using set_keys_bt_insert [of k v m] by simp

lemma bt_get_insert [simp]: "bt_sorted m \<Longrightarrow> bt_get (bt_insert k v m) = (bt_get m)(k \<mapsto> v)"
proof (induction k v m rule: bt_insert.induct)
  case (1 k v)
  then show ?case by (auto simp: bt_get_def)
next
  case (2 k v k' v' m)
  then have "bt_get (bt_insert k v m) = (bt_get m)(k \<mapsto> v)" if "k' < k"
    using that by (auto simp: bt_sorted_def)
  then show ?case by (auto simp: bt_get_def fun_eq_iff)
qed

lemma bt_sorted_Nil [simp]: "bt_sorted []"
  by (simp add: bt_sorted_def)

lemma bt_sorted_insert [simp]: "bt_sorted m \<Longrightarrow> bt_sorted (bt_insert k v m)"
proof (induction k v m rule: bt_insert.induct)
  case (1 k v)
  then show ?case by (simp add: bt_sorted_def)
next
  case (2 k v k' v' m)
  then have m: "sorted_wrt (<) (map fst m)" "\<forall>x \<in> fst ` set m. k' < x"
    by (auto simp: bt_sorted_def)
  consider "k < k'" | "k = k'" | "k' < k" by fastforce
  then show ?case
  proof cases
    case 3
    with 2 m have "sorted_wrt (<) (map fst (bt_insert k v m))" by (simp add: bt_sorted_def)
    moreover have "\<forall>x \<in> fst ` set (bt_insert k v m). k' < x" using m 3 by auto
    ultimately show ?thesis using 3 by (auto simp: bt_sorted_def)
  qed (use m in \<open>auto simp: bt_sorted_def\<close>)
qed

lemma bt_get_Nil [simp]: "bt_get [] k = None"
  by (simp add: bt_get_def)

lemma dom_bt_get: "dom (bt_get m) = fst ` set m"
  by (simp add: bt_get_def [abs_def] dom_map_of_conv_image_fst)

lemma bt_sorted_distinct: "bt_sorted m \<Longrightarrow> distinct (map fst m)"
  by (simp add: bt_sorted_def strict_sorted_iff)

lemma bt_sorted_entry [simp]: "bt_sorted m \<Longrightarrow> bt_sorted (bt_entry z f k m)"
  by (simp add: bt_entry_def)

lemma bt_get_entry [simp]:
  "bt_sorted m \<Longrightarrow> bt_get (bt_entry z f k m) = (bt_get m)(k \<mapsto> f (unwrap_or (bt_get m k) z))"
  by (simp add: bt_entry_def)

lemma keys_bt_entry [simp]: "fst ` set (bt_entry z f k m) = insert k (fst ` set m)"
  by (simp add: bt_entry_def)

lemma bt_sorted_of_list [simp]: "bt_sorted (bt_of_list xs)"
  by (induction xs rule: bt_of_list.induct) auto

lemma bt_get_of_list:
  "distinct (map fst xs) \<Longrightarrow> bt_get (bt_of_list xs) = map_of xs"
  by (induction xs rule: bt_of_list.induct) auto

lemma keys_bt_of_list: "fst ` set (bt_of_list xs) = fst ` set xs"
  by (induction xs rule: bt_of_list.induct) (auto simp: insert_absorb)

section \<open>The interface the components use\<close>

text \<open>
  A keyed store: lookups after an update, and an invariant every update keeps. Counting
  clients only need these laws.
\<close>

locale keyed_store =
  fixes lookup :: "'m \<Rightarrow> 'k \<Rightarrow> 'v option"
    and adjust :: "('v \<Rightarrow> 'v) \<Rightarrow> 'k \<Rightarrow> 'm \<Rightarrow> 'm"
    and zero :: 'v
    and invar :: "'m \<Rightarrow> bool"
  assumes adjust_lookup:
      "invar m \<Longrightarrow> lookup (adjust f k m) = (lookup m)(k \<mapsto> f (unwrap_or (lookup m k) zero))"
    and adjust_invar: "invar m \<Longrightarrow> invar (adjust f k m)"
begin

definition count :: "'m \<Rightarrow> 'k \<Rightarrow> 'v" where
  "count m k = unwrap_or (lookup m k) zero"

lemma count_adjust: "invar m \<Longrightarrow> count (adjust f k m) k' = (if k' = k then f (count m k) else count m k')"
  by (simp add: count_def adjust_lookup)

lemma dom_adjust: "invar m \<Longrightarrow> dom (lookup (adjust f k m)) = insert k (dom (lookup m))"
  by (simp add: adjust_lookup)

lemma invar_foldr: "invar m \<Longrightarrow> invar (foldr (adjust f) ks m)"
  by (induction ks) (simp_all add: adjust_invar)

end

interpretation bt: keyed_store bt_get "bt_entry z" z bt_sorted for z
  by unfold_locales (simp_all)

end
