(* ===== verification/Json_Value.thy ===== *)
theory Json_Value
  imports Btree_Map
begin

text \<open>
  \<open>serde_json::Value\<close> and the accessors the proxy calls on it. An object is a \<open>BTreeMap\<close>
  (the lock file builds \<open>serde_json\<close> without \<open>preserve_order\<close>), so its fields are kept in
  ascending key order. A number is what \<open>serde_json\<close> keeps: an unsigned integer, a negative
  integer, or a float, the last represented by its printed form.
\<close>

section \<open>Values\<close>

datatype jnum = PosInt u64 | NegInt int | Float rstr

datatype json =
    JNull
  | JBool bool
  | JNumber jnum
  | JString rstr
  | JArray "json list"
  | JObject "(rstr \<times> json) list"

text \<open>The \<open>json!\<close> macro inserts the named fields one after the other.\<close>

definition json_object :: "(rstr \<times> json) list \<Rightarrow> json" where
  "json_object fields = JObject (bt_of_list fields)"

section \<open>Accessors\<close>

definition get :: "json \<Rightarrow> rstr \<Rightarrow> json option" where
  "get v k = (case v of JObject fields \<Rightarrow> bt_get fields k | _ \<Rightarrow> None)"

definition value_as_str :: "json \<Rightarrow> rstr option" where
  "value_as_str v = (case v of JString s \<Rightarrow> Some s | _ \<Rightarrow> None)"

definition value_as_array :: "json \<Rightarrow> json list option" where
  "value_as_array v = (case v of JArray xs \<Rightarrow> Some xs | _ \<Rightarrow> None)"

definition value_as_bool :: "json \<Rightarrow> bool option" where
  "value_as_bool v = (case v of JBool b \<Rightarrow> Some b | _ \<Rightarrow> None)"

text \<open>\<open>Number::as_i64\<close>, \<open>Number::as_u64\<close> and \<open>Number::to_string\<close>.\<close>

definition num_as_i64 :: "jnum \<Rightarrow> int option" where
  "num_as_i64 n = (case n of
     PosInt w \<Rightarrow> if unat w < 2 ^ 63 then Some (int (unat w)) else None
   | NegInt i \<Rightarrow> Some i
   | Float _ \<Rightarrow> None)"

definition num_as_u64 :: "jnum \<Rightarrow> u64 option" where
  "num_as_u64 n = (case n of PosInt w \<Rightarrow> Some w | _ \<Rightarrow> None)"

definition value_as_u64 :: "json \<Rightarrow> u64 option" where
  "value_as_u64 v = (case v of JNumber n \<Rightarrow> num_as_u64 n | _ \<Rightarrow> None)"

definition num_to_string :: "jnum \<Rightarrow> rstr" where
  "num_to_string n = (case n of
     PosInt w \<Rightarrow> show_nat (unat w)
   | NegInt i \<Rightarrow> show_int i
   | Float s \<Rightarrow> s)"

section \<open>Laws\<close>

lemma get_JObject [simp]: "get (JObject fs) k = bt_get fs k"
  by (simp add: get_def)

lemma get_json_object [simp]:
  "distinct (map fst fs) \<Longrightarrow> get (json_object fs) k = map_of fs k"
  by (simp add: json_object_def bt_get_of_list)

lemma get_non_object [simp]:
  "get JNull k = None" "get (JBool b) k = None" "get (JNumber n) k = None"
  "get (JString s) k = None" "get (JArray xs) k = None"
  by (simp_all add: get_def)

lemma value_as_str_iff [simp]: "value_as_str v = Some s \<longleftrightarrow> v = JString s"
  by (cases v) (auto simp: value_as_str_def)

lemma value_as_array_iff [simp]: "value_as_array v = Some xs \<longleftrightarrow> v = JArray xs"
  by (cases v) (auto simp: value_as_array_def)

lemma value_as_bool_iff [simp]: "value_as_bool v = Some b \<longleftrightarrow> v = JBool b"
  by (cases v) (auto simp: value_as_bool_def)

text \<open>Every number inside a value is one \<open>serde_json\<close> can hold, and objects are maps.\<close>

definition wf_num :: "jnum \<Rightarrow> bool" where
  "wf_num n = (case n of NegInt i \<Rightarrow> - (2 ^ 63) \<le> i \<and> i < 0 | _ \<Rightarrow> True)"

fun wf_json :: "json \<Rightarrow> bool" where
  "wf_json (JNumber n) = wf_num n"
| "wf_json (JArray xs) = list_all wf_json xs"
| "wf_json (JObject fs) = (bt_sorted fs \<and> list_all wf_json (map snd fs))"
| "wf_json _ = True"

lemma num_as_i64_range: "wf_num n \<Longrightarrow> num_as_i64 n = Some i \<Longrightarrow> - (2 ^ 63) \<le> i \<and> i < 2 ^ 63"
  by (auto simp: num_as_i64_def wf_num_def uint_less_numeral_iff
      split: jnum.splits if_splits intro: order_trans [OF _ uint_ge_0])

lemma parse_num_to_string:
  "wf_num n \<Longrightarrow> num_as_i64 n = Some i \<Longrightarrow> parse_i64 (num_to_string n) = Some i"
  by (auto simp: num_as_i64_def wf_num_def num_to_string_def parse_i64_show_nat
      parse_i64_show_int split: jnum.splits if_splits)

lemma wf_json_get: "wf_json v \<Longrightarrow> get v k = Some x \<Longrightarrow> wf_json x"
  by (cases v) (auto simp: get_def bt_get_def list_all_iff dest!: map_of_SomeD)

end
