(* ===== verification/Proxy_Error.thy ===== *)
theory Proxy_Error
  imports Json_Value
begin

text \<open>
  \<open>src/error.rs\<close>: what the proxy refuses or fails with, the status and the machine-readable
  tag of each, and the response a client sees. \<open>src/secret.rs\<close>: the string that never prints
  itself. The operator's own log (the \<open>tracing\<close> lines outside the audit target) is the
  datatype \<open>operator_log\<close>.
\<close>

section \<open>ProxyError\<close>

type_synonym status_code = nat

datatype proxy_error =
    Unauthorized
  | TokenExpired rstr
  | Forbidden rstr
  | BadRequest rstr
  | RateLimited
  | NotAllowed
  | Upstream status_code rstr
  | UpstreamUnreachable rstr
  | Internal anyhow

text \<open>The \<open>#[error("...")]\<close> attributes; 8212 is the em dash of the source.\<close>

fun error_message :: "proxy_error \<Rightarrow> rstr" where
  "error_message Unauthorized = str ''missing or invalid API key''"
| "error_message (TokenExpired d) = str ''this token expired on '' @ d"
| "error_message (Forbidden m) = m"
| "error_message (BadRequest m) = m"
| "error_message RateLimited = str ''rate limit exceeded '' @ [8212] @ str '' slow down''"
| "error_message NotAllowed = str ''this proxy only forwards hotspot voucher operations''"
| "error_message (Upstream s m) = m"
| "error_message (UpstreamUnreachable m) = str ''cannot reach the UniFi controller: '' @ m"
| "error_message (Internal e) = str ''internal proxy error''"

fun status :: "proxy_error \<Rightarrow> status_code" where
  "status Unauthorized = 401"
| "status (TokenExpired d) = 401"
| "status (Forbidden m) = 403"
| "status NotAllowed = 403"
| "status (BadRequest m) = 400"
| "status RateLimited = 429"
| "status (Upstream s m) = s"
| "status (UpstreamUnreachable m) = 502"
| "status (Internal e) = 500"

fun kind :: "proxy_error \<Rightarrow> rstr" where
  "kind Unauthorized = str ''unauthorized''"
| "kind (TokenExpired d) = str ''token_expired''"
| "kind (Forbidden m) = str ''forbidden''"
| "kind NotAllowed = str ''not_allowed''"
| "kind (BadRequest m) = str ''bad_request''"
| "kind RateLimited = str ''rate_limited''"
| "kind (Upstream s m) = str ''upstream_error''"
| "kind (UpstreamUnreachable m) = str ''upstream_unreachable''"
| "kind (Internal e) = str ''internal''"

datatype operator_log =
    InternalError anyhow
  | ControllerError status_code rstr
  | KeyRejected status_code rstr

text \<open>
  \<open>IntoResponse for ProxyError\<close>: the lines written to the operator's log, then the status
  and the JSON body of the response.
\<close>

definition into_response :: "proxy_error \<Rightarrow> operator_log list \<times> status_code \<times> json" where
  "into_response e =
     (let logged = (case e of Internal err \<Rightarrow> [InternalError err] | _ \<Rightarrow> []);
          message = (case e of Internal _ \<Rightarrow> str ''internal proxy error'' | other \<Rightarrow> error_message other)
      in (logged, status e, json_object [(str ''message'', JString message)]))"

section \<open>The contract of an error surface\<close>

text \<open>
  REST and GraphQL each turn a \<open>proxy_error\<close> into what a client reads. Both promise the
  error's own status and message, and nothing of an internal error but that it happened.
\<close>

locale error_surface =
  fixes render :: "proxy_error \<Rightarrow> 'r"
    and shown_status :: "'r \<Rightarrow> status_code"
    and shown_message :: "'r \<Rightarrow> rstr"
  assumes shows_status: "shown_status (render e) = status e"
    and shows_message: "shown_message (render e) = error_message e"
    and opaque_internal: "render (Internal a) = render (Internal b)"
begin

lemma internal_hidden: "shown_message (render (Internal a)) = str ''internal proxy error''"
  by (simp add: shows_message)

end

definition rest_render :: "proxy_error \<Rightarrow> status_code \<times> json" where
  "rest_render e = snd (into_response e)"

definition rest_message :: "status_code \<times> json \<Rightarrow> rstr" where
  "rest_message r = unwrap_or (Option.bind (get (snd r) (str ''message'')) value_as_str) []"

lemma into_response_eq:
  "into_response e = ((case e of Internal err \<Rightarrow> [InternalError err] | _ \<Rightarrow> []), status e,
     json_object [(str ''message'', JString (error_message e))])"
  by (cases e) (simp_all add: into_response_def)

lemma value_as_str_JString [simp]: "value_as_str (JString s) = Some s"
  by simp

interpretation rest: error_surface rest_render fst rest_message
  by unfold_locales (simp_all add: rest_render_def into_response_eq rest_message_def)

section \<open>Properties of the errors\<close>

lemma status_range: "(case e of Upstream s _ \<Rightarrow> 400 \<le> s \<and> s < 600 | _ \<Rightarrow> True) \<Longrightarrow>
    400 \<le> status e \<and> status e < 600"
  by (cases e) auto

lemma kind_injective_on_constructors:
  "kind a = kind b \<Longrightarrow>
     (case a of Unauthorized \<Rightarrow> b = Unauthorized | RateLimited \<Rightarrow> b = RateLimited
      | NotAllowed \<Rightarrow> b = NotAllowed | TokenExpired _ \<Rightarrow> (\<exists>d. b = TokenExpired d)
      | Forbidden _ \<Rightarrow> (\<exists>m. b = Forbidden m) | BadRequest _ \<Rightarrow> (\<exists>m. b = BadRequest m)
      | Upstream _ _ \<Rightarrow> (\<exists>s m. b = Upstream s m)
      | UpstreamUnreachable _ \<Rightarrow> (\<exists>m. b = UpstreamUnreachable m)
      | Internal _ \<Rightarrow> (\<exists>c. b = Internal c))"
  by (cases a; cases b) auto

text \<open>The outcomes an audit record or a metrics label can carry are these nine tags, next to the literals of the handlers.\<close>

definition error_kinds :: "rstr set" where
  "error_kinds = str ` {''unauthorized'', ''token_expired'', ''forbidden'', ''not_allowed'',
     ''bad_request'', ''rate_limited'', ''upstream_error'', ''upstream_unreachable'', ''internal''}"

lemma kind_in_error_kinds [simp]: "kind e \<in> error_kinds"
  by (cases e) (auto simp: error_kinds_def)

lemma finite_error_kinds [simp]: "finite error_kinds"
  by (simp add: error_kinds_def)

section \<open>Secret\<close>

text \<open>
  \<open>Secret(String)\<close>: the wrapped value is reachable through \<open>expose\<close> only; both formatters
  print a constant.
\<close>

datatype secret = Secret rstr

fun expose :: "secret \<Rightarrow> rstr" where
  "expose (Secret s) = s"

fun secret_is_empty :: "secret \<Rightarrow> bool" where
  "secret_is_empty (Secret s) = (s = [])"

definition secret_debug :: "secret \<Rightarrow> rstr" where
  "secret_debug s = str ''Secret(***)''"

definition secret_display :: "secret \<Rightarrow> rstr" where
  "secret_display s = str ''***''"

text \<open>\<open>Deserialize\<close>: only a JSON (TOML) string is a secret.\<close>

definition secret_deserialize :: "json \<Rightarrow> secret option" where
  "secret_deserialize v = map_option Secret (value_as_str v)"

lemma secret_is_empty_iff: "secret_is_empty s \<longleftrightarrow> expose s = []"
  by (cases s) simp

end
