(* ===== verification/Fingerprint.thy ===== *)
theory Fingerprint
  imports Proxy_Error
begin

text \<open>
  \<open>src/tls.rs\<close>, first part: the spellings of a SHA-256 certificate fingerprint and their one
  canonical form, 64 lowercase hexadecimal characters. Configuration loading and certificate
  pinning both rest on it.
\<close>

section \<open>Canonical forms\<close>

text \<open>
  A routine that brings untrusted text to a canonical form: what it returns satisfies the
  form, and a text in that form is returned unchanged. It follows that running it again
  changes nothing, and that its results are exactly the texts of that form.
\<close>

locale canonical_form =
  fixes canon :: "'a \<Rightarrow> 'a option"
    and is_canonical :: "'a \<Rightarrow> bool"
  assumes canon_sound: "canon x = Some y \<Longrightarrow> is_canonical y"
    and canon_fixes: "is_canonical y \<Longrightarrow> canon y = Some y"
begin

lemma canon_idem: "canon x = Some y \<Longrightarrow> canon y = Some y"
  by (blast intro: canon_fixes dest: canon_sound)

lemma canon_range: "(\<exists>x. canon x = Some y) \<longleftrightarrow> is_canonical y"
  by (blast intro: canon_fixes dest: canon_sound)

lemma same_spelling: "is_canonical y \<Longrightarrow> canon x = Some y \<longleftrightarrow> canon x = canon y"
  by (auto simp: canon_fixes)

end

section \<open>normalize\_fingerprint\<close>

definition fp_separator :: "nat \<Rightarrow> bool" where
  "fp_separator c \<longleftrightarrow> c = 58 \<or> c = 32 \<or> c = 45"

definition clean_fingerprint :: "rstr \<Rightarrow> rstr" where
  "clean_fingerprint raw =
     to_ascii_lowercase
       (filter (\<lambda>c. \<not> fp_separator c)
         (trim_start_matches (str ''SHA256:'')
           (trim_start_matches (str ''sha256:'') (trim raw))))"

definition normalize_fingerprint :: "rstr \<Rightarrow> (rstr, anyhow) result" where
  "normalize_fingerprint raw =
     (let cleaned = clean_fingerprint raw in
      if byte_len cleaned \<noteq> 64 \<or> \<not> list_all is_ascii_hexdigit cleaned then
        Err [str ''not a SHA-256 certificate fingerprint (expected 64 hex characters, got ''
             @ show_nat (byte_len cleaned) @ str '')'']
      else Ok cleaned)"

section \<open>Its results\<close>

definition lower_hex :: "nat \<Rightarrow> bool" where
  "lower_hex c \<longleftrightarrow> 48 \<le> c \<and> c \<le> 57 \<or> 97 \<le> c \<and> c \<le> 102"

definition is_fingerprint :: "rstr \<Rightarrow> bool" where
  "is_fingerprint s \<longleftrightarrow> length s = 64 \<and> list_all lower_hex s"

lemma hexdigit_lower: "is_ascii_hexdigit (to_ascii_lower c) \<Longrightarrow> lower_hex (to_ascii_lower c)"
  by (auto simp: ascii_defs to_ascii_lower_def lower_hex_def split: if_splits)

lemma lower_hex_hexdigit: "lower_hex c \<Longrightarrow> is_ascii_hexdigit c"
  by (auto simp: ascii_defs lower_hex_def)

lemma lower_hex_fixed: "lower_hex c \<Longrightarrow> to_ascii_lower c = c"
  by (auto simp: ascii_defs to_ascii_lower_def lower_hex_def)

lemma hexdigit_plain:
  "is_ascii_hexdigit c \<Longrightarrow> \<not> is_whitespace c \<and> \<not> fp_separator c \<and> c < 128 \<and> c \<noteq> 115 \<and> c \<noteq> 83"
  by (auto simp: ascii_defs is_whitespace_def fp_separator_def)

lemma lowercase_hex_list:
  "list_all is_ascii_hexdigit (to_ascii_lowercase s) \<Longrightarrow> list_all lower_hex (to_ascii_lowercase s)"
  by (induction s) (auto simp: to_ascii_lowercase_def dest: hexdigit_lower)

lemma lowercase_fixed: "list_all lower_hex s \<Longrightarrow> to_ascii_lowercase s = s"
  by (induction s) (auto simp: to_ascii_lowercase_def lower_hex_fixed)

lemma hex_lowercase: "list_all is_ascii_hexdigit s \<Longrightarrow> list_all lower_hex (to_ascii_lowercase s)"
  by (induction s) (auto simp: to_ascii_lowercase_def ascii_defs to_ascii_lower_def lower_hex_def)

lemma lower_hex_bytes: "list_all lower_hex s \<Longrightarrow> byte_len s = length s"
  by (rule byte_len_ascii) (auto simp: list_all_iff lower_hex_def)

lemma byte_len_hex: "list_all is_ascii_hexdigit s \<Longrightarrow> byte_len s = length s"
  by (rule byte_len_ascii) (auto simp: list_all_iff ascii_defs)

lemma no_label_prefix: "list_all is_ascii_hexdigit (take 1 s) \<Longrightarrow>
    \<not> prefix (str ''sha256:'') s \<and> \<not> prefix (str ''SHA256:'') s"
  by (cases s) (auto simp: str_def dest!: hexdigit_plain)

lemma clean_hex: "list_all is_ascii_hexdigit s \<Longrightarrow> clean_fingerprint s = to_ascii_lowercase s"
proof -
  assume s: "list_all is_ascii_hexdigit s"
  have "list_all is_ascii_hexdigit (take 1 s)" using s by (cases s) auto
  note plain = no_label_prefix [OF this]
  have "trim s = s" using s by (intro trim_none) (auto simp: list_all_iff dest: hexdigit_plain)
  moreover have "filter (\<lambda>c. \<not> fp_separator c) s = s"
    using s by (auto simp: list_all_iff filter_id_conv dest: hexdigit_plain)
  ultimately show ?thesis using plain by (simp add: clean_fingerprint_def trim_start_matches_stop)
qed

lemma normalize_fingerprint_Ok_iff:
  "normalize_fingerprint raw = Ok f \<longleftrightarrow> f = clean_fingerprint raw \<and> is_fingerprint f"
proof
  assume r: "normalize_fingerprint raw = Ok f"
  then have f: "f = clean_fingerprint raw" and len: "byte_len f = 64"
    and hex: "list_all is_ascii_hexdigit f"
    by (auto simp: normalize_fingerprint_def Let_def split: if_splits)
  have "list_all lower_hex f"
    using hex unfolding f clean_fingerprint_def by (rule lowercase_hex_list)
  with f len show "f = clean_fingerprint raw \<and> is_fingerprint f"
    by (simp add: is_fingerprint_def lower_hex_bytes)
next
  assume f: "f = clean_fingerprint raw \<and> is_fingerprint f"
  then have "byte_len f = 64" "list_all is_ascii_hexdigit f"
    by (auto simp: is_fingerprint_def lower_hex_bytes list_all_iff dest: lower_hex_hexdigit)
  with f show "normalize_fingerprint raw = Ok f"
    by (simp add: normalize_fingerprint_def Let_def)
qed

lemma normalize_fingerprint_fixed: "is_fingerprint f \<Longrightarrow> normalize_fingerprint f = Ok f"
proof -
  assume f: "is_fingerprint f"
  then have "list_all is_ascii_hexdigit f"
    by (auto simp: is_fingerprint_def list_all_iff dest: lower_hex_hexdigit)
  then have "clean_fingerprint f = f"
    using f by (simp add: clean_hex lowercase_fixed is_fingerprint_def)
  with f show ?thesis by (simp add: normalize_fingerprint_Ok_iff)
qed

definition fp_option :: "rstr \<Rightarrow> rstr option" where
  "fp_option raw = (case normalize_fingerprint raw of Inl e \<Rightarrow> None | Inr f \<Rightarrow> Some f)"

lemma fp_option_Some_iff: "fp_option raw = Some f \<longleftrightarrow> normalize_fingerprint raw = Ok f"
  by (auto simp: fp_option_def split: sum.splits)

interpretation fp: canonical_form fp_option is_fingerprint
  by unfold_locales
    (auto simp: fp_option_Some_iff normalize_fingerprint_Ok_iff
          intro: normalize_fingerprint_fixed [unfolded normalize_fingerprint_Ok_iff, THEN conjunct1])

section \<open>The spellings people paste\<close>

text \<open>The colon form printed by \<open>openssl x509 -fingerprint\<close>: a colon after every second digit.\<close>

fun colonize :: "rstr \<Rightarrow> rstr" where
  "colonize (a # b # c # s) = a # b # 58 # colonize (c # s)"
| "colonize s = s"

lemma filter_colonize:
  "list_all is_ascii_hexdigit s \<Longrightarrow> filter (\<lambda>c. \<not> fp_separator c) (colonize s) = s"
  by (induction s rule: colonize.induct) (auto dest: hexdigit_plain simp: fp_separator_def)

lemma colonize_plain:
  "list_all is_ascii_hexdigit s \<Longrightarrow> list_all (\<lambda>c. \<not> is_whitespace c) (colonize s)"
  by (induction s rule: colonize.induct)
     (auto dest: hexdigit_plain simp: is_whitespace_def [of 58])

lemma take_colonize: "take 1 (colonize s) = take 1 s"
  by (induction s rule: colonize.induct) auto

lemma clean_colonize:
  "list_all is_ascii_hexdigit s \<Longrightarrow> clean_fingerprint (colonize s) = to_ascii_lowercase s"
proof -
  assume s: "list_all is_ascii_hexdigit s"
  then have "list_all is_ascii_hexdigit (take 1 (colonize s))"
    unfolding take_colonize by (cases s) auto
  note plain = no_label_prefix [OF this]
  from s show ?thesis
    by (simp add: clean_fingerprint_def trim_none colonize_plain trim_start_matches_stop plain
        filter_colonize)
qed

lemma trim_labelled:
  assumes "list_all is_ascii_hexdigit s"
  shows "trim (str ''sha256:'' @ s) = str ''sha256:'' @ s"
    and "trim (str ''SHA256:'' @ s) = str ''SHA256:'' @ s"
proof -
  have "list_all (\<lambda>c. \<not> is_whitespace c) s"
    using assms by (auto simp: list_all_iff dest: hexdigit_plain)
  then show "trim (str ''sha256:'' @ s) = str ''sha256:'' @ s"
    and "trim (str ''SHA256:'' @ s) = str ''SHA256:'' @ s"
    by (simp_all add: trim_none str_def is_whitespace_def)
qed

lemma clean_labelled:
  assumes s: "list_all is_ascii_hexdigit s"
  shows "clean_fingerprint (str ''sha256:'' @ s) = to_ascii_lowercase s"
    and "clean_fingerprint (str ''SHA256:'' @ s) = to_ascii_lowercase s"
proof -
  have "list_all is_ascii_hexdigit (take 1 s)" using s by (cases s) auto
  note plain = no_label_prefix [OF this]
  have id: "filter (\<lambda>c. \<not> fp_separator c) s = s"
    using s by (auto simp: list_all_iff filter_id_conv dest: hexdigit_plain)
  show "clean_fingerprint (str ''sha256:'' @ s) = to_ascii_lowercase s"
    by (simp add: clean_fingerprint_def trim_labelled s trim_start_matches_step
        trim_start_matches_stop plain id)
  have "\<not> prefix (str ''sha256:'') (str ''SHA256:'' @ s)" by (simp add: str_def)
  then show "clean_fingerprint (str ''SHA256:'' @ s) = to_ascii_lowercase s"
    by (simp add: clean_fingerprint_def trim_labelled s trim_start_matches_step
        trim_start_matches_stop plain id)
qed

section \<open>Properties\<close>

lemma normalize_hex:
  "list_all is_ascii_hexdigit h \<Longrightarrow> length h = 64 \<Longrightarrow> clean_fingerprint r = to_ascii_lowercase h \<Longrightarrow>
     normalize_fingerprint r = Ok (to_ascii_lowercase h)"
  by (simp add: normalize_fingerprint_Ok_iff is_fingerprint_def hex_lowercase)

lemma hex_uppercase_variant:
  assumes "list_all is_ascii_hexdigit h"
    and "to_ascii_lowercase h' = to_ascii_lowercase h"
  shows "list_all is_ascii_hexdigit h'"
proof -
  have "list_all lower_hex (to_ascii_lowercase h')"
    using assms by (simp add: hex_lowercase)
  then show ?thesis
    by (induction h')
       (auto simp: to_ascii_lowercase_def to_ascii_lower_def lower_hex_def ascii_defs split: if_splits)
qed

text \<open>
  Whatever spelling of a SHA-256 fingerprint an operator pastes, the pin is the same: for
  64 hexadecimal digits \<open>h\<close> in any case, and for any other casing \<open>h'\<close> of the same digits, the
  plain form, the two labelled forms, the colon-separated form and the recased form all
  normalise to the lowercase digits.
\<close>

theorem spellings_agree:
  assumes hex: "list_all is_ascii_hexdigit h" and len: "length h = 64"
    and recased: "to_ascii_lowercase h' = to_ascii_lowercase h"
  shows "normalize_fingerprint h = Ok (to_ascii_lowercase h) \<and>
    normalize_fingerprint (str ''sha256:'' @ h) = Ok (to_ascii_lowercase h) \<and>
    normalize_fingerprint (str ''SHA256:'' @ h) = Ok (to_ascii_lowercase h) \<and>
    normalize_fingerprint (colonize h) = Ok (to_ascii_lowercase h) \<and>
    normalize_fingerprint h' = Ok (to_ascii_lowercase h)"
proof -
  have "list_all is_ascii_hexdigit h'" using hex recased by (rule hex_uppercase_variant)
  then have "clean_fingerprint h' = to_ascii_lowercase h" by (simp add: clean_hex recased)
  then have "normalize_fingerprint h' = Ok (to_ascii_lowercase h)"
    using hex len by (rule normalize_hex [rotated 2])
  then show ?thesis by (simp add: normalize_hex hex len clean_hex clean_labelled clean_colonize)
qed

text \<open>
  A pin is in canonical form or refused: normalisation succeeds exactly on the texts whose
  cleaned form is 64 hexadecimal digits, and then returns 64 lowercase digits that normalise to
  themselves. So two accepted spellings are the same pin exactly when their cleaned digits agree.
\<close>

theorem pins_are_canonical:
  "(case normalize_fingerprint r of
      Err e \<Rightarrow> \<not> (list_all is_ascii_hexdigit (clean_fingerprint r) \<and> length (clean_fingerprint r) = 64)
    | Ok p \<Rightarrow> p = clean_fingerprint r \<and> length p = 64 \<and> list_all lower_hex p \<and>
              normalize_fingerprint p = Ok p)"
proof (cases "normalize_fingerprint r")
  case (Inl e)
  then show ?thesis
    by (auto simp: normalize_fingerprint_def Let_def clean_fingerprint_def byte_len_hex)
next
  case (Inr p)
  then have p: "p = clean_fingerprint r" "is_fingerprint p" by (auto simp: normalize_fingerprint_Ok_iff)
  from p(2) have "normalize_fingerprint p = Ok p" by (rule normalize_fingerprint_fixed)
  with Inr p show ?thesis by (simp add: is_fingerprint_def)
qed

end
