(* ===== verification/Proxy_Config.thy ===== *)
theory Proxy_Config
  imports Fingerprint
begin

text \<open>
  \<open>src/config.rs\<close>: the configuration as the code holds it, the defaults, what a token grants
  and how its own ceilings combine with the global ones, and \<open>Config::load\<close> with its
  validation. Merging the TOML file with the \<open>UVP_*\<close> environment is the \<open>figment\<close> crate's
  work and is a parameter of \<open>load\<close>. Instants are nanoseconds since the Unix epoch,
  durations nanoseconds.
\<close>

section \<open>Scopes\<close>

datatype scope = SitesRead | VouchersRead | VouchersCreate | VouchersRevoke

fun scope_as_str :: "scope \<Rightarrow> rstr" where
  "scope_as_str SitesRead = str ''sites:read''"
| "scope_as_str VouchersRead = str ''vouchers:read''"
| "scope_as_str VouchersCreate = str ''vouchers:create''"
| "scope_as_str VouchersRevoke = str ''vouchers:revoke''"

text \<open>The \<open>#[serde(rename = "...")]\<close> attributes: the names a config file uses.\<close>

definition scope_of_wire :: "rstr \<Rightarrow> scope option" where
  "scope_of_wire s =
     (if s = str ''sites:read'' then Some SitesRead
      else if s = str ''vouchers:read'' then Some VouchersRead
      else if s = str ''vouchers:create'' then Some VouchersCreate
      else if s = str ''vouchers:revoke'' then Some VouchersRevoke
      else None)"

lemma scope_as_str_inj [simp]: "scope_as_str a = scope_as_str b \<longleftrightarrow> a = b"
  by (cases a; cases b) simp_all

section \<open>The configuration\<close>

datatype ip_addr = V4 "32 word" | V6 "128 word"

type_synonym socket_addr = "ip_addr \<times> u16"

record server_config =
  bind_addr :: socket_addr
  upstream_timeout :: nat
  max_body_bytes :: nat
  metrics_bind :: "socket_addr option"
  graphql_playground :: bool

record tls_config =
  fingerprint_sha256 :: "rstr list option"
  insecure_skip_verify :: bool
  silence_insecure_warning :: bool
  allow_plaintext :: bool

record controller_config =
  host :: rstr
  api_key :: secret
  tls :: tls_config

record limits =
  max_vouchers_per_request :: u32
  max_validity_minutes :: u64
  rate_limit_per_minute :: u32
  rate_limit_per_ip_per_minute :: u32

record token_config =
  tok_name :: rstr
  tok_hash :: rstr
  tok_sites :: "rstr list"
  tok_scopes :: "scope list"
  tok_max_vouchers :: "u32 option"
  tok_max_validity :: "u64 option"
  tok_rate_limit :: "u32 option"
  tok_expires_at :: "int option"

record config =
  cfg_server :: server_config
  cfg_controller :: controller_config
  cfg_limits :: limits
  cfg_tokens :: "token_config list"

text \<open>\<open>one_or_many\<close>: a single string or a list of strings; \<open>None\<close> is a deserialisation error.\<close>

definition one_or_many :: "json \<Rightarrow> rstr list option" where
  "one_or_many v = (case v of
     JString s \<Rightarrow> Some [s]
   | JArray xs \<Rightarrow>
       if list_all (\<lambda>x. value_as_str x \<noteq> None) xs then Some (filter_map value_as_str xs) else None
   | _ \<Rightarrow> None)"

section \<open>Defaults\<close>

definition default_bind :: socket_addr where
  "default_bind = (V4 0, 8080)"

definition default_timeout :: nat where
  "default_timeout = 15 * 10 ^ 9"

definition default_body_limit :: nat where
  "default_body_limit = 64 * 1024"

definition default_max_vouchers :: u32 where
  "default_max_vouchers = 10"

definition default_max_validity :: u64 where
  "default_max_validity = 60 * 24 * 30"

definition default_pre_auth_rate_limit :: u32 where
  "default_pre_auth_rate_limit = 120"

definition default_rate_limit :: u32 where
  "default_rate_limit = 60"

definition default_sites :: "rstr list" where
  "default_sites = [str ''*'']"

definition default_scopes :: "scope list" where
  "default_scopes = [SitesRead, VouchersRead, VouchersCreate, VouchersRevoke]"

definition default_server :: server_config where
  "default_server = \<lparr>bind_addr = default_bind, upstream_timeout = default_timeout,
     max_body_bytes = default_body_limit, metrics_bind = None, graphql_playground = False\<rparr>"

definition default_limits :: limits where
  "default_limits = \<lparr>max_vouchers_per_request = default_max_vouchers,
     max_validity_minutes = default_max_validity, rate_limit_per_minute = default_rate_limit,
     rate_limit_per_ip_per_minute = default_pre_auth_rate_limit\<rparr>"

definition default_tls :: tls_config where
  "default_tls = \<lparr>fingerprint_sha256 = None, insecure_skip_verify = False,
     silence_insecure_warning = False, allow_plaintext = False\<rparr>"

section \<open>What a token grants\<close>

definition allows_site :: "token_config \<Rightarrow> rstr \<Rightarrow> bool" where
  "allows_site t site = list_ex (\<lambda>s. s = str ''*'' \<or> s = site) (tok_sites t)"

definition has_scope :: "token_config \<Rightarrow> scope \<Rightarrow> bool" where
  "has_scope t sc = (sc \<in> set (tok_scopes t))"

definition is_expired_at :: "token_config \<Rightarrow> int \<Rightarrow> bool" where
  "is_expired_at t now = (case tok_expires_at t of None \<Rightarrow> False | Some e \<Rightarrow> now \<ge> e)"

definition expires_in :: "token_config \<Rightarrow> int \<Rightarrow> int option" where
  "expires_in t now = map_option (\<lambda>e. e - now) (tok_expires_at t)"

definition effective_max_vouchers :: "token_config \<Rightarrow> limits \<Rightarrow> u32" where
  "effective_max_vouchers t global =
     (case tok_max_vouchers t of None \<Rightarrow> max_vouchers_per_request global
      | Some v \<Rightarrow> min v (max_vouchers_per_request global))"

definition effective_max_validity :: "token_config \<Rightarrow> limits \<Rightarrow> u64" where
  "effective_max_validity t global =
     (case tok_max_validity t of None \<Rightarrow> max_validity_minutes global
      | Some v \<Rightarrow> min v (max_validity_minutes global))"

definition effective_rate_limit :: "token_config \<Rightarrow> limits \<Rightarrow> u32" where
  "effective_rate_limit t global =
     (case (tok_rate_limit t, rate_limit_per_minute global) of
        (Some v, g) \<Rightarrow> if g = 0 then v else min v g
      | (None, g) \<Rightarrow> g)"

text \<open>
  The contract of a ceiling: a token's own value may only lower the global one.
\<close>

locale ceiling =
  fixes effective :: "token_config \<Rightarrow> limits \<Rightarrow> 'n::linorder"
    and own :: "token_config \<Rightarrow> 'n option"
    and global :: "limits \<Rightarrow> 'n"
  assumes effective_eq:
    "effective t g = (case own t of None \<Rightarrow> global g | Some v \<Rightarrow> min v (global g))"
begin

lemma never_raises: "effective t g \<le> global g"
  by (auto simp: effective_eq split: option.splits)

lemma respects_own: "own t = Some v \<Longrightarrow> effective t g \<le> v"
  by (simp add: effective_eq)

lemma tight: "effective t g = global g \<or> own t = Some (effective t g)"
  by (auto simp: effective_eq min_def split: option.splits)

lemma antitone_global: "global g \<le> global g' \<Longrightarrow> effective t g \<le> effective t g'"
  by (auto simp: effective_eq min_def split: option.splits)

end

interpretation vouchers: ceiling effective_max_vouchers tok_max_vouchers max_vouchers_per_request
  by unfold_locales (simp add: effective_max_vouchers_def)

interpretation validity: ceiling effective_max_validity tok_max_validity max_validity_minutes
  by unfold_locales (simp add: effective_max_validity_def)

lemma effective_rate_limit_bound:
  "rate_limit_per_minute g \<noteq> 0 \<Longrightarrow> effective_rate_limit t g \<le> rate_limit_per_minute g"
  by (auto simp: effective_rate_limit_def split: option.splits)

lemma allows_site_iff:
  "allows_site t site \<longleftrightarrow> str ''*'' \<in> set (tok_sites t) \<or> site \<in> set (tok_sites t)"
  by (auto simp: allows_site_def list_ex_iff)

section \<open>Loading and validation\<close>

definition is_plaintext :: "controller_config \<Rightarrow> bool" where
  "is_plaintext c = starts_with (to_ascii_lowercase (trim (host c))) (str ''http://'')"

definition em_dash :: rstr where
  "em_dash = [8212]"

definition validate_token :: "token_config \<Rightarrow> (unit, anyhow) result" where
  "validate_token t =
     (if trim (tok_name t) = [] then
        Err [str ''every token needs a non-empty name (it is what shows up in the audit log)'']
      else if \<not> starts_with (tok_hash t) (str ''$argon2'') then
        Err [str ''token '' @ [39] @ tok_name t @ [39]
          @ str '' has a hash that is not an Argon2 PHC string '' @ em_dash
          @ str '' store the output of `unifi-voucher-proxy hash-token`, not the token itself'']
      else if tok_scopes t = [] then
        Err [str ''token '' @ [39] @ tok_name t @ [39] @ str '' has no scopes and could do nothing'']
      else Ok ())"

definition validate_pins :: "tls_config \<Rightarrow> (unit, anyhow) result" where
  "validate_pins t = (case fingerprint_sha256 t of
     None \<Rightarrow> Ok ()
   | Some fps \<Rightarrow>
       if fps = [] then
         Err [str ''controller.tls.fingerprint_sha256 is an empty list '' @ em_dash
           @ str '' remove the key to fall back to WebPKI verification, or put a fingerprint in it'']
       else for_each (\<lambda>fp. map_ok (\<lambda>_. ())
              (with_context (str ''controller.tls.fingerprint_sha256 is not usable'')
                (normalize_fingerprint fp))) fps)"

definition validate :: "config \<Rightarrow> (unit, anyhow) result" where
  "validate cfg =
     (let ctl = cfg_controller cfg; tl = tls ctl in
      if secret_is_empty (api_key ctl) then
        Err [str ''controller.api_key is empty '' @ em_dash
          @ str '' set it in the config file or via UVP_CONTROLLER__API_KEY'']
      else if cfg_tokens cfg = [] then
        Err [str ''no tokens configured '' @ em_dash
          @ str '' the proxy would reject every request; add at least one ['' @ str ''[tokens'' @ str '']] entry ''
          @ str ''(generate one with `unifi-voucher-proxy hash-token`)'']
      else and_then (for_each validate_token (cfg_tokens cfg)) (\<lambda>_.
        if insecure_skip_verify tl \<and> fingerprint_sha256 tl \<noteq> None then
          Err [str ''controller.tls: set either fingerprint_sha256 or insecure_skip_verify, not both'']
        else if is_plaintext ctl \<and> \<not> allow_plaintext tl then
          Err [str ''controller.host is '' @ trim (host ctl) @ str '' '' @ em_dash
            @ str '' the API key would travel unencrypted. Use https://, or set ''
            @ str ''controller.tls.allow_plaintext = true if a TLS-terminating sidecar ''
            @ str ''on this host is doing the encryption'']
        else validate_pins tl))"

text \<open>
  \<open>Config::load\<close>. \<open>exists_file\<close> is the file system and \<open>extract\<close> figment's merge of the file
  (if there is one) with the environment, without \<open>UVP_LOG\<close> and \<open>UVP_LOG_FORMAT\<close>.
\<close>

definition load :: "(rstr \<Rightarrow> bool) \<Rightarrow> (rstr option \<Rightarrow> (config, anyhow) result) \<Rightarrow> rstr option
    \<Rightarrow> (config, anyhow) result" where
  "load exists_file extract path =
     and_then (case path of
         None \<Rightarrow> Ok ()
       | Some p \<Rightarrow> if \<not> exists_file p then Err [str ''config file not found: '' @ p] else Ok ())
       (\<lambda>_. and_then (with_context (str ''invalid configuration'') (extract path))
         (\<lambda>cfg. and_then (validate cfg) (\<lambda>_. Ok cfg)))"

section \<open>What a configuration that loads guarantees\<close>

definition valid_token :: "token_config \<Rightarrow> bool" where
  "valid_token t \<longleftrightarrow> trim (tok_name t) \<noteq> [] \<and> prefix (str ''$argon2'') (tok_hash t) \<and>
     tok_scopes t \<noteq> []"

definition valid_pins :: "tls_config \<Rightarrow> bool" where
  "valid_pins t \<longleftrightarrow> (case fingerprint_sha256 t of None \<Rightarrow> True
     | Some fps \<Rightarrow> fps \<noteq> [] \<and> (\<forall>fp \<in> set fps. is_ok (normalize_fingerprint fp)))"

definition valid_config :: "config \<Rightarrow> bool" where
  "valid_config cfg \<longleftrightarrow>
     expose (api_key (cfg_controller cfg)) \<noteq> [] \<and>
     cfg_tokens cfg \<noteq> [] \<and> (\<forall>t \<in> set (cfg_tokens cfg). valid_token t) \<and>
     \<not> (insecure_skip_verify (tls (cfg_controller cfg)) \<and>
        fingerprint_sha256 (tls (cfg_controller cfg)) \<noteq> None) \<and>
     (is_plaintext (cfg_controller cfg) \<longrightarrow> allow_plaintext (tls (cfg_controller cfg))) \<and>
     valid_pins (tls (cfg_controller cfg))"

lemma validate_token_Ok_iff: "validate_token t = Ok () \<longleftrightarrow> valid_token t"
  by (simp add: validate_token_def valid_token_def starts_with_def)

lemma validate_pins_Ok_iff: "validate_pins t = Ok () \<longleftrightarrow> valid_pins t"
  by (auto simp: validate_pins_def valid_pins_def for_each_Ok_iff result_simps split: option.splits)

lemma validate_Ok_iff: "validate cfg = Ok () \<longleftrightarrow> valid_config cfg"
  by (auto simp: validate_def valid_config_def Let_def for_each_Ok_iff validate_token_Ok_iff
      validate_pins_Ok_iff secret_is_empty_iff and_then_Ok_iff)

lemma load_Ok_iff:
  "load ex xt path = Ok cfg \<longleftrightarrow>
     (\<forall>p. path = Some p \<longrightarrow> ex p) \<and> xt path = Ok cfg \<and> valid_config cfg"
  by (cases path) (auto simp: load_def and_then_Ok_iff with_context_Ok_iff validate_Ok_iff)

section \<open>Properties\<close>

text \<open>A token with nothing but a name, a hash, its sites and its scopes.\<close>

definition bare_token :: "rstr \<Rightarrow> rstr \<Rightarrow> rstr list \<Rightarrow> scope list \<Rightarrow> token_config" where
  "bare_token n h ss scs = \<lparr>tok_name = n, tok_hash = h, tok_sites = ss, tok_scopes = scs,
     tok_max_vouchers = None, tok_max_validity = None, tok_rate_limit = None,
     tok_expires_at = None\<rparr>"

text \<open>
  C30. A configuration is served exactly when it is valid: \<open>load\<close> succeeds iff the named file
  exists, figment extracts the configuration, the API key is not empty, there is at least one
  token and every token has a name, an Argon2 hash and a scope, pinning and skipping verification
  are not both on, plaintext is only used when allowed, and every pin is a fingerprint.
\<close>

theorem load_exactly_valid:
  "load ex xt path = Ok cfg \<longleftrightarrow>
     (case path of None \<Rightarrow> True | Some p \<Rightarrow> ex p) \<and> xt path = Ok cfg \<and> valid_config cfg"
  by (cases path) (auto simp: load_Ok_iff)

end
