(* ===== verification/Client_Auth.thy ===== *)
theory Client_Auth
  imports Proxy_Config Complex_Main
begin

text \<open>
  \<open>src/auth.rs\<close>: minting and judging client tokens, and the authenticator with its memo of
  successful verifications. Argon2, SHA-256, base64 and the random source are parameters.
  \<open>authenticate\<close> also returns the hashes it ran Argon2 on, in order: the calls are the cost
  the memo and the per-address budget exist to bound.
\<close>

section \<open>Minting and judging keys\<close>

definition TOKEN_PREFIX :: rstr where
  "TOKEN_PREFIX = str ''uvp_''"

text \<open>\<open>hash_password salt token\<close> is Argon2id with default parameters, as a PHC string.\<close>

definition hash_token :: "(rstr \<Rightarrow> rstr \<Rightarrow> (rstr, rstr) result) \<Rightarrow> rstr \<Rightarrow> rstr
    \<Rightarrow> (rstr, anyhow) result" where
  "hash_token hash_password salt token =
     map_err (\<lambda>e. [str ''failed to hash token: '' @ e]) (hash_password salt token)"

definition generate_token :: "(rstr \<Rightarrow> rstr \<Rightarrow> (rstr, rstr) result) \<Rightarrow> (nat list \<Rightarrow> rstr) \<Rightarrow> rstr
    \<Rightarrow> nat list \<Rightarrow> (rstr \<times> rstr, anyhow) result" where
  "generate_token hash_password base64 salt random_bytes =
     (let token = TOKEN_PREFIX @ base64 random_bytes
      in and_then (hash_token hash_password salt token) (\<lambda>hash. Ok (token, hash)))"

definition MIN_ENTROPY_BITS :: nat where
  "MIN_ENTROPY_BITS = 80"

definition char_pool :: "rstr \<Rightarrow> nat" where
  "char_pool token =
     (if list_ex is_ascii_lowercase token then 26 else 0) +
     (if list_ex is_ascii_uppercase token then 26 else 0) +
     (if list_ex is_ascii_digit token then 10 else 0) +
     (if list_ex (\<lambda>c. \<not> is_ascii_alphanumeric c) token then 33 else 0)"

text \<open>
  The estimate is \<open>len * log2 pool\<close>; it is below 80 exactly when \<open>pool ^ len < 2 ^ 80\<close>. No pair
  of a length and one of the eleven pool sizes comes within a twentieth of a bit of the threshold, so
  the rounding of \<open>f64\<close> does not move it. A success returns the pair the estimate is made of;
  \<open>show_bits\<close> prints the rounded estimate.
\<close>

definition assess_strength :: "(nat \<Rightarrow> nat \<Rightarrow> rstr) \<Rightarrow> rstr \<Rightarrow> (nat \<times> nat, rstr) result" where
  "assess_strength show_bits token =
     (let len = length token in
      if len < 16 then
        Err (str ''too short: '' @ show_nat len @ str '' characters, at least 16 are required'')
      else
        (let pool = char_pool token; distinct_chars = card (set token) in
         if distinct_chars < 8 then
           Err (str ''only '' @ show_nat distinct_chars @ str '' distinct characters '' @ em_dash
             @ str '' a repetitive key is weak however long it is'')
         else if pool ^ len < 2 ^ MIN_ENTROPY_BITS then
           Err (str ''roughly '' @ show_bits len pool @ str '' bits of entropy, ''
             @ show_nat MIN_ENTROPY_BITS @ str '' are required '' @ em_dash
             @ str '' make it longer or mix in more character classes'')
         else Ok (len, pool)))"

section \<open>Stored hashes\<close>

text \<open>
  \<open>phc\<close> is \<open>PasswordHash::new\<close> followed by \<open>serialize\<close>; \<open>verify presented hash\<close> is
  \<open>Argon2::verify_password(...).is_ok()\<close>.
\<close>

definition verify_pair :: "(rstr \<Rightarrow> (rstr, rstr) result) \<Rightarrow> (rstr \<Rightarrow> rstr \<Rightarrow> bool) \<Rightarrow> rstr \<Rightarrow> rstr
    \<Rightarrow> (bool, anyhow) result" where
  "verify_pair phc verify token hash =
     and_then (map_err (\<lambda>e. [str ''bad hash: '' @ e]) (phc hash)) (\<lambda>parsed. Ok (verify token parsed))"

definition load_hash_check :: "(rstr \<Rightarrow> (rstr, rstr) result) \<Rightarrow> rstr \<Rightarrow> (unit, anyhow) result" where
  "load_hash_check phc hash =
     with_context (str ''not a valid Argon2 PHC string'')
       (map_err (\<lambda>e. [e]) (map_ok (\<lambda>_. ()) (phc hash)))"

section \<open>The authenticator\<close>

type_synonym digest = "nat list"

record authenticator =
  auth_tokens :: "(token_config \<times> rstr) list"
  auth_cache :: "digest \<rightharpoonup> nat"

definition authenticator_new :: "(rstr \<Rightarrow> (rstr, rstr) result) \<Rightarrow> token_config list
    \<Rightarrow> (authenticator, anyhow) result" where
  "authenticator_new phc tokens =
     and_then
       (try_collect (\<lambda>t.
          and_then
            (map_err (\<lambda>e. [str ''token '' @ [39] @ tok_name t @ [39]
                 @ str '' has an unparsable hash: '' @ e]) (phc (tok_hash t)))
            (\<lambda>hash. Ok (t, hash))) tokens)
       (\<lambda>parsed. Ok \<lparr>auth_tokens = parsed, auth_cache = Map.empty\<rparr>)"

text \<open>
  The loop without early exit: the first match wins, every candidate is verified. The second
  component lists the hashes Argon2 ran on.
\<close>

fun scan_tokens :: "(rstr \<Rightarrow> rstr \<Rightarrow> bool) \<Rightarrow> rstr \<Rightarrow> nat \<Rightarrow> nat option
    \<Rightarrow> (token_config \<times> rstr) list \<Rightarrow> nat option \<times> rstr list" where
  "scan_tokens verify presented idx found [] = (found, [])"
| "scan_tokens verify presented idx found ((t, hash) # rest) =
     (let matched = verify presented hash;
          (found', calls) =
            scan_tokens verify presented (Suc idx)
              (if matched \<and> found = None then Some idx else found) rest
      in (found', hash # calls))"

definition authenticate :: "(rstr \<Rightarrow> digest) \<Rightarrow> (rstr \<Rightarrow> rstr \<Rightarrow> bool) \<Rightarrow> authenticator \<Rightarrow> rstr
    \<Rightarrow> token_config option \<times> authenticator \<times> rstr list" where
  "authenticate sha256 verify a presented =
     (if presented = [] then (None, a, [])
      else
        (let key = sha256 presented in
         case auth_cache a key of
           Some idx \<Rightarrow> (map_option fst (nth_opt (auth_tokens a) idx), a, [])
         | None \<Rightarrow>
             (let (found, calls) = scan_tokens verify presented 0 None (auth_tokens a) in
              case found of
                None \<Rightarrow> (None, a, calls)
              | Some idx \<Rightarrow>
                  (map_option fst (nth_opt (auth_tokens a) idx),
                   a\<lparr>auth_cache := (auth_cache a)(key \<mapsto> idx)\<rparr>, calls))))"

definition authenticator_debug :: "authenticator \<Rightarrow> rstr" where
  "authenticator_debug a =
     str ''Authenticator { tokens: '' @ show_nat (length (auth_tokens a)) @ str '', .. }''"

section \<open>Reading the token from the headers\<close>

text \<open>
  A header map as its entries, names in lower case; \<open>get\<close> is the first entry of a name, and
  \<open>to_str\<close> fails on anything but visible ASCII.
\<close>

type_synonym headers = "(rstr \<times> rstr) list"

definition header_to_str :: "rstr \<Rightarrow> rstr option" where
  "header_to_str v = (if list_all (\<lambda>c. 32 \<le> c \<and> c < 127 \<or> c = 9) v then Some v else None)"

definition bearer_token :: "headers \<Rightarrow> rstr option" where
  "bearer_token hs =
     (case Option.bind (Option.bind (map_of hs (str ''authorization'')) header_to_str)
        (\<lambda>v. strip_prefix v (str ''Bearer '')) of
        Some v \<Rightarrow> if v \<noteq> [] then Some v else None
      | None \<Rightarrow> None)"

definition token_from_headers :: "headers \<Rightarrow> rstr option" where
  "token_from_headers hs =
     (case Option.bind (map_of hs (str ''x-api-key'')) header_to_str of
        Some v \<Rightarrow> if v \<noteq> [] then Some v else bearer_token hs
      | None \<Rightarrow> bearer_token hs)"

section \<open>The uncached reference\<close>

fun first_index :: "('a \<Rightarrow> bool) \<Rightarrow> nat \<Rightarrow> 'a list \<Rightarrow> nat option" where
  "first_index P idx [] = None"
| "first_index P idx (x # xs) = (if P x then Some idx else first_index P (Suc idx) xs)"

definition reference_auth :: "(rstr \<Rightarrow> rstr \<Rightarrow> bool) \<Rightarrow> (token_config \<times> rstr) list \<Rightarrow> rstr
    \<Rightarrow> token_config option" where
  "reference_auth verify tokens presented =
     (if presented = [] then None
      else map_option fst (find (\<lambda>(t, hash). verify presented hash) tokens))"

lemma first_index_find:
  "first_index P idx xs = Some i \<Longrightarrow> idx \<le> i \<and> i - idx < length xs \<and> find P xs = Some (xs ! (i - idx))"
proof (induction P idx xs rule: first_index.induct)
  case (2 P idx x xs)
  show ?case
  proof (cases "P x")
    case False
    with "2.prems" have "Suc idx \<le> i \<and> i - Suc idx < length xs \<and> find P xs = Some (xs ! (i - Suc idx))"
      by (intro "2.IH") auto
    with False show ?thesis by (auto simp: Suc_diff_Suc [symmetric] less_eq_Suc_le)
  qed (use "2.prems" in auto)
qed simp

lemma first_index_None_iff: "first_index P idx xs = None \<longleftrightarrow> find P xs = None"
  by (induction P idx xs rule: first_index.induct) auto

lemma scan_tokens_eq:
  "scan_tokens verify p idx found ts =
     (or_else found (first_index (\<lambda>(t, hash). verify p hash) idx ts), map snd ts)"
  by (induction verify p idx found ts rule: scan_tokens.induct) (auto simp: Let_def)

lemma nth_opt_first_index:
  "first_index P 0 ts = Some i \<Longrightarrow> nth_opt ts i = find P ts"
  using first_index_find [of P 0 ts i] by (simp add: nth_opt_def)

section \<open>The invariant of the memo\<close>

text \<open>
  Every entry of the memo was made by a non-empty key that verifies, at the first token it
  verifies for. \<open>S\<close> is the set of keys presented so far.
\<close>

definition memo_inv :: "(rstr \<Rightarrow> digest) \<Rightarrow> (rstr \<Rightarrow> rstr \<Rightarrow> bool) \<Rightarrow> rstr set \<Rightarrow> authenticator \<Rightarrow> bool" where
  "memo_inv sha256 verify S a \<longleftrightarrow>
     (\<forall>key idx. auth_cache a key = Some idx \<longrightarrow>
        (\<exists>p \<in> S. p \<noteq> [] \<and> sha256 p = key \<and>
           first_index (\<lambda>(t, hash). verify p hash) 0 (auth_tokens a) = Some idx))"

lemma memo_inv_new: "auth_cache a = Map.empty \<Longrightarrow> memo_inv sha verify S a"
  by (simp add: memo_inv_def)

lemma authenticate_tokens [simp]: "auth_tokens (fst (snd (authenticate sha verify a p))) = auth_tokens a"
  by (auto simp: authenticate_def Let_def split: option.splits prod.splits)

lemma authenticate_unfold:
  "authenticate sha verify a p =
     (if p = [] then (None, a, [])
      else (case auth_cache a (sha p) of
          Some idx \<Rightarrow> (map_option fst (nth_opt (auth_tokens a) idx), a, [])
        | None \<Rightarrow> (case first_index (\<lambda>(t, hash). verify p hash) 0 (auth_tokens a) of
              None \<Rightarrow> (None, a, map snd (auth_tokens a))
            | Some idx \<Rightarrow> (map_option fst (nth_opt (auth_tokens a) idx),
                a\<lparr>auth_cache := (auth_cache a)(sha p \<mapsto> idx)\<rparr>, map snd (auth_tokens a)))))"
  by (simp add: authenticate_def Let_def scan_tokens_eq split: option.split)

lemma memo_inv_authenticate:
  "memo_inv sha verify S a \<Longrightarrow> memo_inv sha verify (insert p S) (fst (snd (authenticate sha verify a p)))"
  by (auto simp: authenticate_unfold memo_inv_def split: option.splits if_splits)

lemma authenticate_reference:
  assumes inv: "memo_inv sha verify S a" and inj: "inj_on sha (insert p S)"
  shows "fst (authenticate sha verify a p) = reference_auth verify (auth_tokens a) p"
proof (cases "auth_cache a (sha p)")
  case (Some idx)
  with inv obtain q where q: "q \<in> S" "sha q = sha p"
    and fi: "first_index (\<lambda>(t, hash). verify q hash) 0 (auth_tokens a) = Some idx"
    by (auto simp: memo_inv_def)
  have "q = p" by (rule inj_onD [OF inj q(2)]) (simp_all add: q)
  with fi Some show ?thesis
    by (simp add: authenticate_unfold reference_auth_def nth_opt_first_index)
next
  case None
  show ?thesis
  proof (cases "first_index (\<lambda>(t, hash). verify p hash) 0 (auth_tokens a)")
    case fi: None
    then have "find (\<lambda>(t, hash). verify p hash) (auth_tokens a) = None"
      by (simp only: first_index_None_iff)
    with None fi show ?thesis by (simp add: authenticate_unfold reference_auth_def)
  next
    case (Some i)
    with None show ?thesis
      by (simp add: authenticate_unfold reference_auth_def nth_opt_first_index)
  qed
qed

text \<open>A refusal changes nothing: failures are never cached.\<close>

lemma authenticate_refused:
  assumes "memo_inv sha verify S a" and "fst (authenticate sha verify a p) = None"
  shows "fst (snd (authenticate sha verify a p)) = a"
  using assms
  by (auto simp: authenticate_unfold nth_opt_first_index first_index_None_iff
      dest!: first_index_find split: option.splits if_splits)

section \<open>A run of presented keys\<close>

fun auth_run :: "(rstr \<Rightarrow> digest) \<Rightarrow> (rstr \<Rightarrow> rstr \<Rightarrow> bool) \<Rightarrow> authenticator \<Rightarrow> rstr list
    \<Rightarrow> token_config option list \<times> authenticator" where
  "auth_run sha verify a [] = ([], a)"
| "auth_run sha verify a (p # ps) =
     (let (r, a', calls) = authenticate sha verify a p; (rs, a'') = auth_run sha verify a' ps
      in (r # rs, a''))"

lemma auth_run_Cons:
  "auth_run sha verify a (p # ps) =
     (fst (authenticate sha verify a p)
        # fst (auth_run sha verify (fst (snd (authenticate sha verify a p))) ps),
      snd (auth_run sha verify (fst (snd (authenticate sha verify a p))) ps))"
  by (simp add: Let_def split: prod.splits)

lemma auth_run_tokens [simp]: "auth_tokens (snd (auth_run sha verify a ps)) = auth_tokens a"
  by (induction ps arbitrary: a) (simp_all add: auth_run_Cons del: auth_run.simps(2))

lemma auth_run_reference:
  "memo_inv sha verify S a \<Longrightarrow> inj_on sha (set ps \<union> S) \<Longrightarrow>
     fst (auth_run sha verify a ps) = map (reference_auth verify (auth_tokens a)) ps"
proof (induction ps arbitrary: a S)
  case Nil
  then show ?case by simp
next
  case (Cons p ps)
  let ?a = "fst (snd (authenticate sha verify a p))"
  have "inj_on sha (insert p S)" using Cons.prems(2) by (rule inj_on_subset) auto
  then have hd: "fst (authenticate sha verify a p) = reference_auth verify (auth_tokens a) p"
    by (rule authenticate_reference [OF Cons.prems(1)])
  have "inj_on sha (set ps \<union> insert p S)" using Cons.prems(2) by (simp add: insert_commute)
  then have "fst (auth_run sha verify ?a ps) = map (reference_auth verify (auth_tokens ?a)) ps"
    by (rule Cons.IH [OF memo_inv_authenticate [OF Cons.prems(1)]])
  with hd show ?case by (simp add: auth_run_Cons del: auth_run.simps(2))
qed

section \<open>The interface the request path uses\<close>

text \<open>
  What resolving a caller needs of an authenticator: it only ever hands out configured tokens
  the presented key was accepted for, keeps its invariant and its token list, and learns
  nothing from a refusal.
\<close>

locale authentication =
  fixes auth :: "'a \<Rightarrow> rstr \<Rightarrow> token_config option \<times> 'a \<times> rstr list"
    and configured :: "'a \<Rightarrow> (token_config \<times> rstr) list"
    and accepted :: "rstr \<Rightarrow> rstr \<Rightarrow> bool"
    and invar :: "'a \<Rightarrow> bool"
  assumes grants: "invar a \<Longrightarrow> auth a p = (Some t, a', calls) \<Longrightarrow>
        p \<noteq> [] \<and> (\<exists>hash. (t, hash) \<in> set (configured a) \<and> accepted p hash)"
    and keeps_invar: "invar a \<Longrightarrow> invar (fst (snd (auth a p)))"
    and keeps_tokens: "configured (fst (snd (auth a p))) = configured a"
    and forgets_refusals: "invar a \<Longrightarrow> fst (auth a p) = None \<Longrightarrow> fst (snd (auth a p)) = a"
    and bounded_work: "length (snd (snd (auth a p))) \<le> length (configured a)"
begin

fun attempts :: "'a \<Rightarrow> rstr list \<Rightarrow> 'a" where
  "attempts a [] = a"
| "attempts a (p # ps) = attempts (fst (snd (auth a p))) ps"

lemma empty_key_refused: "invar a \<Longrightarrow> fst (auth a []) = None"
  using grants [of a "[]"] by (cases "auth a []"; cases "fst (auth a [])") auto

lemma granted_token_configured:
  "invar a \<Longrightarrow> fst (auth a p) = Some t \<Longrightarrow> t \<in> fst ` set (configured a)"
  using grants [of a p t] by (cases "auth a p") (force simp: image_iff)

end

definition digest_accepts :: "(rstr \<Rightarrow> digest) \<Rightarrow> (rstr \<Rightarrow> rstr \<Rightarrow> bool) \<Rightarrow> rstr \<Rightarrow> rstr \<Rightarrow> bool" where
  "digest_accepts sha256 verify p hash \<longleftrightarrow> (\<exists>q. q \<noteq> [] \<and> sha256 q = sha256 p \<and> verify q hash)"

lemma authenticate_grants:
  assumes inv: "memo_inv sha verify UNIV a" and r: "fst (authenticate sha verify a p) = Some t"
  shows "p \<noteq> [] \<and> (\<exists>hash. (t, hash) \<in> set (auth_tokens a) \<and> digest_accepts sha verify p hash)"
proof -
  from r have ne: "p \<noteq> []" by (auto simp: authenticate_unfold split: if_splits)
  obtain q idx where q: "q \<noteq> []" "sha q = sha p"
    and fi: "first_index (\<lambda>(t, hash). verify q hash) 0 (auth_tokens a) = Some idx"
    and t: "map_option fst (nth_opt (auth_tokens a) idx) = Some t"
  proof (cases "auth_cache a (sha p)")
    case (Some i)
    with inv obtain q where "q \<noteq> []" "sha q = sha p"
      "first_index (\<lambda>(t, hash). verify q hash) 0 (auth_tokens a) = Some i"
      by (auto simp: memo_inv_def)
    then show thesis using that r ne Some by (auto simp: authenticate_unfold)
  next
    case None
    then show thesis using that r ne by (auto simp: authenticate_unfold split: option.splits)
  qed
  from t obtain x where "find (\<lambda>(t, hash). verify q hash) (auth_tokens a) = Some x" "fst x = t"
    unfolding nth_opt_first_index [OF fi] by auto
  then obtain hash where "(t, hash) \<in> set (auth_tokens a)" "verify q hash"
    by (cases x) (auto dest!: find_SomeD)
  with ne q show ?thesis by (auto simp: digest_accepts_def)
qed

interpretation memo: authentication "authenticate sha verify" auth_tokens "digest_accepts sha verify"
    "memo_inv sha verify UNIV" for sha verify
proof (unfold_locales, goal_cases)
  case (1 a p t a' calls)
  then show ?case using authenticate_grants [of sha verify a p t] by simp
next
  case (2 a p)
  then show ?case using memo_inv_authenticate [of sha verify UNIV a p] by simp
next
  case (3 a p)
  show ?case by simp
next
  case (4 a p)
  then show ?case by (rule authenticate_refused)
next
  case (5 a p)
  show ?case by (auto simp: authenticate_unfold split: option.splits)
qed

section \<open>Properties\<close>

text \<open>
  C16. The memo is invisible: starting from an authenticator that has cached nothing, a run of
  presented keys is answered exactly as if every key were verified against every configured hash
  each time, as long as SHA-256 does not collide on the keys presented.
\<close>

theorem memo_equals_reference:
  assumes "auth_cache a = Map.empty" and "inj_on sha256 (set ps)"
  shows "fst (auth_run sha256 verify a ps) = map (reference_auth verify (auth_tokens a)) ps"
  using auth_run_reference [OF memo_inv_new [OF assms(1)], of sha256 ps "{}" verify] assms(2) by simp

theorem memo_equals_reference_witness:
  "fst (auth_run (\<lambda>p. p) (=)
      \<lparr>auth_tokens = [(bare_token [65] [] [] [], [1]), (bare_token [66] [] [] [], [2])],
       auth_cache = Map.empty\<rparr> [[2], [1], [3], [2], []]) =
   [Some (bare_token [66] [] [] []), Some (bare_token [65] [] [] []), None,
    Some (bare_token [66] [] [] []), None]"
  by (subst memo_equals_reference) (simp_all add: reference_auth_def)

text \<open>
  What a presented key costs and what it leaves behind. A key the memo knows, and the empty
  key, cost no Argon2 run. Any other key is verified against every configured hash, also after a
  match; only a match is remembered, under the key's digest, as the first token that matched.
\<close>

theorem verification_cost_and_trace:
  "snd (snd (authenticate sha256 verify a p)) =
     (if p = [] \<or> sha256 p \<in> dom (auth_cache a) then [] else map snd (auth_tokens a)) \<and>
   auth_cache (fst (snd (authenticate sha256 verify a p))) =
     (if p = [] \<or> sha256 p \<in> dom (auth_cache a) then auth_cache a
      else (case first_index (\<lambda>(t, hash). verify p hash) 0 (auth_tokens a) of
          None \<Rightarrow> auth_cache a
        | Some i \<Rightarrow> (auth_cache a)(sha256 p \<mapsto> i)))"
  by (auto simp: authenticate_unfold domIff split: option.split)

text \<open>
  The key a request presents is the value of \<open>x-api-key\<close> when that is a non-empty visible
  string, otherwise what follows \<open>Bearer \<close> in \<open>authorization\<close>; an empty key is never
  presented, and no other header is looked at.
\<close>

theorem presented_key_sources:
  "(token_from_headers hs = Some k \<longleftrightarrow> k \<noteq> [] \<and>
      (let x = Option.bind (map_of hs (str ''x-api-key'')) header_to_str in
       if x = None \<or> x = Some [] then
         Option.bind (map_of hs (str ''authorization'')) header_to_str = Some (str ''Bearer '' @ k)
       else x = Some k)) \<and>
   token_from_headers (filter (\<lambda>(n, v). n = str ''x-api-key'' \<or> n = str ''authorization'') hs) =
     token_from_headers hs"
proof -
  have same: "map_of (filter (\<lambda>(n, v). n = str ''x-api-key'' \<or> n = str ''authorization'') hs) n = map_of hs n"
    if "n = str ''x-api-key'' \<or> n = str ''authorization''" for n
    using that by (induction hs) auto
  have pre: "strip_prefix v p = Some k \<longleftrightarrow> v = p @ k" for v p k
    by (auto simp: strip_prefix_def prefix_def split: if_splits)
  have b: "bearer_token hs = Some k \<longleftrightarrow> k \<noteq> [] \<and>
      Option.bind (map_of hs (str ''authorization'')) header_to_str = Some (str ''Bearer '' @ k)" for k
    by (auto simp: bearer_token_def pre split: option.splits if_splits bind_splits)
  have "token_from_headers hs = Some k \<longleftrightarrow> k \<noteq> [] \<and>
      (let x = Option.bind (map_of hs (str ''x-api-key'')) header_to_str in
       if x = None \<or> x = Some [] then
         Option.bind (map_of hs (str ''authorization'')) header_to_str = Some (str ''Bearer '' @ k)
       else x = Some k)"
    by (cases "Option.bind (map_of hs (str ''x-api-key'')) header_to_str")
       (auto simp: token_from_headers_def b Let_def)
  moreover have "bearer_token (filter (\<lambda>(n, v). n = str ''x-api-key'' \<or> n = str ''authorization'') hs)
      = bearer_token hs"
    by (simp add: bearer_token_def same)
  then have "token_from_headers (filter (\<lambda>(n, v). n = str ''x-api-key'' \<or> n = str ''authorization'') hs)
      = token_from_headers hs"
    by (simp add: token_from_headers_def same split: option.split)
  ultimately show ?thesis by simp
qed

lemma char_pool_mono: "set s \<subseteq> set t \<Longrightarrow> char_pool s \<le> char_pool t"
  by (auto simp: char_pool_def list_ex_iff)

lemma assess_Ok_iff:
  "assess_strength sb t = Ok r \<longleftrightarrow> r = (length t, char_pool t) \<and> 16 \<le> length t \<and>
     8 \<le> card (set t) \<and> 2 ^ MIN_ENTROPY_BITS \<le> char_pool t ^ length t"
  by (auto simp: assess_strength_def Let_def)

text \<open>
  The strength check is monotone: a key is accepted exactly when it has at least 16
  characters, 8 distinct ones, and at least 80 bits by the pool estimate, and extending an
  accepted key at either end never makes it weaker.
\<close>

theorem strength_monotone:
  assumes "is_ok (assess_strength sb t)"
  shows "is_ok (assess_strength sb (u @ t @ v)) \<and> 16 \<le> length t \<and> 8 \<le> card (set t)"
proof -
  from assms have t: "16 \<le> length t" "8 \<le> card (set t)" "2 ^ MIN_ENTROPY_BITS \<le> char_pool t ^ length t"
    by (auto simp: is_ok_iff assess_Ok_iff)
  have sub: "set t \<subseteq> set (u @ t @ v)" by auto
  have "card (set t) \<le> card (set (u @ t @ v))" by (rule card_mono) (use sub in auto)
  moreover have "char_pool t ^ length t \<le> char_pool (u @ t @ v) ^ length (u @ t @ v)"
  proof -
    have "char_pool t > 0"
    proof (rule ccontr)
      assume "\<not> 0 < char_pool t"
      with t(1,3) show False by (cases "length t") (simp_all add: MIN_ENTROPY_BITS_def)
    qed
    then have "char_pool t ^ length t \<le> char_pool (u @ t @ v) ^ length t"
      using char_pool_mono [OF sub] by (simp add: power_mono)
    also have "\<dots> \<le> char_pool (u @ t @ v) ^ length (u @ t @ v)"
      by (rule power_increasing) (use \<open>0 < char_pool t\<close> char_pool_mono [OF sub] in auto)
    finally show ?thesis .
  qed
  ultimately show ?thesis using t by (auto simp: is_ok_iff assess_Ok_iff)
qed

theorem strength_monotone_witness:
  "is_ok (assess_strength (\<lambda>n p. []) ([] @ str ''Abcdefgh12345678'' @ str ''!''))"
proof -
  have "is_ok (assess_strength (\<lambda>n p. []) (str ''Abcdefgh12345678''))"
    by (simp add: assess_strength_def str_def char_pool_def ascii_defs MIN_ENTROPY_BITS_def)
  from strength_monotone [OF this, of "[]" "str ''!''"] show ?thesis by simp
qed

end
