(* ===== verification/Rate_Limits.thy ===== *)
theory Rate_Limits
  imports Proxy_Config
begin

text \<open>
  \<open>src/ratelimit.rs\<close>: one budget per token and one per source address. The limiter itself is
  the \<open>governor\<close> crate: its constructors and checks are the fields of \<open>governor\<close>, with the
  monotonic clock (milliseconds) as an argument. What is modelled is which budget a request
  is counted against, what a zero means, and when the per-address store is swept.
\<close>

section \<open>The crate\<close>

record ('l, 'k) governor =
  gov_direct :: "u32 \<Rightarrow> nat \<Rightarrow> 'l"
  gov_check :: "'l \<Rightarrow> nat \<Rightarrow> bool \<times> 'l"
  gov_keyed :: "u32 \<Rightarrow> nat \<Rightarrow> 'k"
  gov_check_key :: "'k \<Rightarrow> ip_addr \<Rightarrow> nat \<Rightarrow> bool \<times> 'k"
  gov_retain_recent :: "'k \<Rightarrow> nat \<Rightarrow> 'k"

definition SWEEP_EVERY :: u32 where
  "SWEEP_EVERY = 1024"

section \<open>RateLimits\<close>

record ('l, 'k) rate_limits =
  limiters :: "rstr \<rightharpoonup> 'l"
  per_ip :: "'k option"
  sweep :: u32

text \<open>\<open>NonZeroU32::new(n).map(...)\<close>\<close>

definition non_zero :: "u32 \<Rightarrow> u32 option" where
  "non_zero n = (if n = 0 then None else Some n)"

fun insert_limiters :: "('l, 'k) governor \<Rightarrow> nat \<Rightarrow> limits \<Rightarrow> token_config list
    \<Rightarrow> (rstr \<rightharpoonup> 'l) \<Rightarrow> (rstr \<rightharpoonup> 'l)" where
  "insert_limiters gov now lim [] m = m"
| "insert_limiters gov now lim (t # ts) m =
     insert_limiters gov now lim ts
       (case non_zero (effective_rate_limit t lim) of
          None \<Rightarrow> m
        | Some n \<Rightarrow> m(tok_name t \<mapsto> gov_direct gov n now))"

definition rates_from_config :: "('l, 'k) governor \<Rightarrow> nat \<Rightarrow> config \<Rightarrow> ('l, 'k) rate_limits" where
  "rates_from_config gov now cfg =
     \<lparr>limiters = insert_limiters gov now (cfg_limits cfg) (cfg_tokens cfg) Map.empty,
      per_ip = map_option (\<lambda>n. gov_keyed gov n now)
                 (non_zero (rate_limit_per_ip_per_minute (cfg_limits cfg))),
      sweep = 0\<rparr>"

definition check_ip :: "('l, 'k) governor \<Rightarrow> nat \<Rightarrow> ip_addr \<Rightarrow> ('l, 'k) rate_limits
    \<Rightarrow> bool \<times> ('l, 'k) rate_limits" where
  "check_ip gov now ip r =
     (case per_ip r of
        None \<Rightarrow> (True, r)
      | Some limiter \<Rightarrow>
          (let swept = (if sweep r mod SWEEP_EVERY = SWEEP_EVERY - 1
                        then gov_retain_recent gov limiter now else limiter);
               (admitted, limiter') = gov_check_key gov swept ip now
           in (admitted, r\<lparr>per_ip := Some limiter', sweep := sweep r + 1\<rparr>)))"

definition check :: "('l, 'k) governor \<Rightarrow> nat \<Rightarrow> rstr \<Rightarrow> ('l, 'k) rate_limits
    \<Rightarrow> bool \<times> ('l, 'k) rate_limits" where
  "check gov now name r =
     (case limiters r name of
        Some limiter \<Rightarrow>
          (let (admitted, limiter') = gov_check gov limiter now
           in (admitted, r\<lparr>limiters := (limiters r)(name \<mapsto> limiter')\<rparr>))
      | None \<Rightarrow> (True, r))"

section \<open>The contract of a family of budgets\<close>

text \<open>
  What the request path relies on: a check reads and spends the budget of its own key only,
  and a key without a budget is never refused. From that, interleaved traffic of other keys
  cannot change what a key is answered.
\<close>

locale budgets =
  fixes spend :: "nat \<Rightarrow> 'k \<Rightarrow> 's \<Rightarrow> bool \<times> 's"
    and budget :: "'s \<Rightarrow> 'k \<Rightarrow> 'b option"
  assumes own_budget: "budget s k = budget s' k \<Longrightarrow>
        fst (spend now k s) = fst (spend now k s') \<and>
        budget (snd (spend now k s)) k = budget (snd (spend now k s')) k"
    and other_budgets: "j \<noteq> k \<Longrightarrow> budget (snd (spend now k s)) j = budget s j"
    and no_budget: "budget s k = None \<Longrightarrow> spend now k s = (True, s)"
begin

fun spend_all :: "(nat \<times> 'k) list \<Rightarrow> 's \<Rightarrow> (('k \<times> bool) list \<times> 's)" where
  "spend_all [] s = ([], s)"
| "spend_all ((now, k) # xs) s =
     (let (b, s') = spend now k s; (bs, s'') = spend_all xs s' in ((k, b) # bs, s''))"

lemma spend_all_Cons:
  "spend_all ((now, k) # xs) s =
     ((k, fst (spend now k s)) # fst (spend_all xs (snd (spend now k s))),
      snd (spend_all xs (snd (spend now k s))))"
  by (simp add: Let_def split: prod.splits)

lemma own_traffic_gen:
  "budget s k = budget s' k \<Longrightarrow>
     filter (\<lambda>(j, _). j = k) (fst (spend_all xs s)) =
     fst (spend_all (filter (\<lambda>(_, j). j = k) xs) s')"
proof (induction xs arbitrary: s s')
  case Nil
  then show ?case by simp
next
  case (Cons x xs)
  obtain now j where x: "x = (now, j)" by (cases x)
  show ?case
  proof (cases "j = k")
    case True
    with own_budget [OF Cons.prems, of now] Cons.IH [of "snd (spend now k s)" "snd (spend now k s')"]
    show ?thesis by (simp add: x spend_all_Cons del: spend_all.simps(2))
  next
    case False
    then have "budget (snd (spend now j s)) k = budget s' k" using Cons.prems by (simp add: other_budgets)
    with False Cons.IH show ?thesis by (simp add: x spend_all_Cons del: spend_all.simps(2))
  qed
qed

lemma own_traffic:
  "filter (\<lambda>(j, _). j = k) (fst (spend_all xs s)) =
     fst (spend_all (filter (\<lambda>(_, j). j = k) xs) s)"
  by (rule own_traffic_gen) simp

end

interpretation quota: budgets "\<lambda>now name. check gov now name" limiters for gov
  by unfold_locales (auto simp: check_def split: option.splits prod.splits)

text \<open>A run of \<open>RateLimits::check\<close> calls, each at its time and for its token.\<close>

fun check_all :: "('l, 'k) governor \<Rightarrow> (nat \<times> rstr) list \<Rightarrow> ('l, 'k) rate_limits
    \<Rightarrow> (rstr \<times> bool) list \<times> ('l, 'k) rate_limits" where
  "check_all gov [] r = ([], r)"
| "check_all gov ((now, n) # xs) r =
     (let (b, r') = check gov now n r; (bs, r'') = check_all gov xs r' in ((n, b) # bs, r''))"

lemma check_all_eq: "check_all gov xs r = quota.spend_all gov xs r"
  by (induction gov xs r rule: check_all.induct) (auto split: prod.split)

section \<open>Which budgets exist\<close>

lemma insert_limiters_other:
  "n \<notin> tok_name ` set ts \<Longrightarrow> insert_limiters gov now lim ts m n = m n"
  by (induction gov now lim ts m rule: insert_limiters.induct) (auto split: option.splits)

lemma insert_limiters_token:
  "t \<in> set ts \<Longrightarrow> distinct (map tok_name ts) \<Longrightarrow>
     insert_limiters gov now lim ts m (tok_name t) =
       (case non_zero (effective_rate_limit t lim) of None \<Rightarrow> m (tok_name t)
        | Some n \<Rightarrow> Some (gov_direct gov n now))"
proof (induction gov now lim ts m rule: insert_limiters.induct)
  case (1 gov now lim m)
  then show ?case by simp
next
  case (2 gov now lim u ts m)
  show ?case
  proof (cases "t = u")
    case True
    with "2.prems" have "tok_name t \<notin> tok_name ` set ts" by auto
    with True show ?thesis by (simp add: insert_limiters_other split: option.splits)
  next
    case False
    with "2.prems" have "t \<in> set ts" "distinct (map tok_name ts)" "tok_name t \<noteq> tok_name u"
      by (auto dest: sym)
    with "2.IH" show ?thesis by (auto split: option.splits)
  qed
qed

lemma limiters_of_token:
  assumes "t \<in> set (cfg_tokens cfg)" and "distinct (map tok_name (cfg_tokens cfg))"
  shows "limiters (rates_from_config gov now cfg) (tok_name t) =
      (if effective_rate_limit t (cfg_limits cfg) = 0 then None
       else Some (gov_direct gov (effective_rate_limit t (cfg_limits cfg)) now))"
  using insert_limiters_token [OF assms, of gov now "cfg_limits cfg" Map.empty]
  by (auto simp: rates_from_config_def non_zero_def split: if_splits)

lemma no_limiter_if_unknown:
  "n \<notin> tok_name ` set (cfg_tokens cfg) \<Longrightarrow> limiters (rates_from_config gov now cfg) n = None"
  by (simp add: rates_from_config_def insert_limiters_other)

section \<open>The burst of a fresh limiter\<close>

text \<open>
  The documented behaviour of \<open>Quota::per_minute(n)\<close> the code relies on: a fresh limiter
  admits exactly \<open>n\<close> calls made at the same instant.
\<close>

fun drain :: "('l, 'k) governor \<Rightarrow> nat \<Rightarrow> nat \<Rightarrow> 'l \<Rightarrow> bool list" where
  "drain gov now 0 l = []"
| "drain gov now (Suc i) l = fst (gov_check gov l now) # drain gov now i (snd (gov_check gov l now))"

definition burst_law :: "('l, 'k) governor \<Rightarrow> bool" where
  "burst_law gov \<longleftrightarrow>
     (\<forall>n now i. n \<noteq> 0 \<longrightarrow> drain gov now (unat n + i) (gov_direct gov n now) =
        replicate (unat n) True @ replicate i False)"

text \<open>The answers to \<open>i\<close> calls of one token at one instant.\<close>

fun checks :: "('l, 'k) governor \<Rightarrow> nat \<Rightarrow> rstr \<Rightarrow> nat \<Rightarrow> ('l, 'k) rate_limits \<Rightarrow> bool list" where
  "checks gov now name 0 r = []"
| "checks gov now name (Suc i) r =
     fst (check gov now name r) # checks gov now name i (snd (check gov now name r))"

lemma checks_limited:
  "limiters r name = Some l \<Longrightarrow> checks gov now name i r = drain gov now i l"
  by (induction i arbitrary: r l) (simp_all add: check_def split: prod.splits)

lemma checks_unlimited:
  "limiters r name = None \<Longrightarrow> checks gov now name i r = replicate i True"
  by (induction i arbitrary: r) (simp_all add: check_def)

text \<open>
  A governor that never replenishes: the smallest one with the burst law, and a concrete
  instance of the parameter.
\<close>

definition tick_governor :: "(nat, ip_addr \<Rightarrow> nat) governor" where
  "tick_governor =
     \<lparr>gov_direct = (\<lambda>n now. unat n),
      gov_check = (\<lambda>l now. (l \<noteq> 0, l - 1)),
      gov_keyed = (\<lambda>n now ip. unat n),
      gov_check_key = (\<lambda>k ip now. (k ip \<noteq> 0, k(ip := k ip - 1))),
      gov_retain_recent = (\<lambda>k now. k)\<rparr>"

lemma drain_tick: "drain tick_governor now (n + i) n = replicate n True @ replicate i False"
proof (induction n)
  case 0
  show ?case by (induction i) (simp_all add: tick_governor_def)
next
  case (Suc n)
  then show ?case by (simp add: tick_governor_def)
qed

lemma burst_law_tick: "burst_law tick_governor"
  by (simp add: burst_law_def drain_tick tick_governor_def [THEN arg_cong [where f = gov_direct]])

section \<open>Sweeping\<close>

text \<open>The state after a run of \<open>check_ip\<close>.\<close>

fun ip_run :: "('l, 'k) governor \<Rightarrow> (nat \<times> ip_addr) list \<Rightarrow> ('l, 'k) rate_limits
    \<Rightarrow> ('l, 'k) rate_limits" where
  "ip_run gov [] r = r"
| "ip_run gov ((now, ip) # xs) r = ip_run gov xs (snd (check_ip gov now ip r))"

lemma check_ip_sweep:
  "per_ip r \<noteq> None \<Longrightarrow> sweep (snd (check_ip gov now ip r)) = sweep r + 1 \<and>
     per_ip (snd (check_ip gov now ip r)) \<noteq> None"
  by (auto simp: check_ip_def Let_def split: prod.splits)

lemma ip_run_sweep:
  "per_ip r \<noteq> None \<Longrightarrow> sweep (ip_run gov xs r) = sweep r + of_nat (length xs) \<and>
     per_ip (ip_run gov xs r) \<noteq> None"
proof (induction gov xs r rule: ip_run.induct)
  case (2 gov now ip xs r)
  with check_ip_sweep [OF "2.prems", of gov now ip] show ?case by (simp add: algebra_simps)
qed simp

lemma sweep_due_iff:
  "(of_nat n :: u32) mod SWEEP_EVERY = SWEEP_EVERY - 1 \<longleftrightarrow> n mod 1024 = 1023"
proof -
  have "unat ((of_nat n :: u32) mod 1024) = n mod 2 ^ 32 mod 1024"
    by (simp add: unat_mod_distrib unsigned_of_nat take_bit_eq_mod)
  also have "\<dots> = n mod 1024" by (rule mod_mod_cancel) simp
  finally have "unat ((of_nat n :: u32) mod 1024) = n mod 1024" .
  moreover have "(of_nat n :: u32) mod 1024 = 1023 \<longleftrightarrow> unat ((of_nat n :: u32) mod 1024) = unat (1023 :: u32)"
    by (simp only: word_unat_eq_iff)
  ultimately show ?thesis by (simp add: SWEEP_EVERY_def)
qed

section \<open>Properties\<close>

text \<open>
  C26. One token cannot spend another's allowance: in any interleaving of checks, the answers a
  token gets are those it would get if the other tokens made no request at all.
\<close>

theorem token_isolation:
  "filter (\<lambda>(name, b). name = n) (fst (check_all gov xs r)) =
     fst (check_all gov (filter (\<lambda>(now, name). name = n) xs) r)"
  unfolding check_all_eq by (rule quota.own_traffic)

text \<open>
  C27. The budget of a freshly built limiter: given the burst law of \<open>governor\<close> and distinct token
  names, a token whose effective limit is \<open>n > 0\<close> has exactly \<open>n\<close> of its calls at one instant
  admitted and the rest refused, and a token whose effective limit is zero is never refused. The
  last includes a token with \<open>rate_limit_per_minute = 0\<close>, whatever the global limit: although a token may
  only tighten the global limit, its own zero lifts it.
\<close>

theorem fresh_budget:
  assumes "burst_law gov" and "t \<in> set (cfg_tokens cfg)" and "distinct (map tok_name (cfg_tokens cfg))"
  shows "checks gov now (tok_name t) (unat (effective_rate_limit t (cfg_limits cfg)) + i)
      (rates_from_config gov now cfg) =
    replicate (unat (effective_rate_limit t (cfg_limits cfg))) True @
    replicate i (effective_rate_limit t (cfg_limits cfg) = 0) \<and>
    (tok_rate_limit t = Some 0 \<longrightarrow>
      checks gov now (tok_name t) n (rates_from_config gov now cfg) = replicate n True)"
proof (intro conjI impI)
  have unlimited: "checks gov now (tok_name t) k (rates_from_config gov now cfg) = replicate k True"
    if "effective_rate_limit t (cfg_limits cfg) = 0" for k
    using that limiters_of_token [OF assms(2,3), of gov now] by (simp add: checks_unlimited)
  show "checks gov now (tok_name t) (unat (effective_rate_limit t (cfg_limits cfg)) + i)
      (rates_from_config gov now cfg) =
    replicate (unat (effective_rate_limit t (cfg_limits cfg))) True @
    replicate i (effective_rate_limit t (cfg_limits cfg) = 0)"
  proof (cases "effective_rate_limit t (cfg_limits cfg) = 0")
    case True
    then show ?thesis by (simp add: unlimited)
  next
    case False
    with limiters_of_token [OF assms(2,3), of gov now]
    have "checks gov now (tok_name t) (unat (effective_rate_limit t (cfg_limits cfg)) + i)
        (rates_from_config gov now cfg) =
      drain gov now (unat (effective_rate_limit t (cfg_limits cfg)) + i)
        (gov_direct gov (effective_rate_limit t (cfg_limits cfg)) now)"
      by (intro checks_limited) simp
    with assms(1) False show ?thesis by (simp add: burst_law_def)
  qed
  assume "tok_rate_limit t = Some 0"
  then show "checks gov now (tok_name t) n (rates_from_config gov now cfg) = replicate n True"
    by (intro unlimited) (simp add: effective_rate_limit_def)
qed

definition sample_config :: "token_config list \<Rightarrow> limits \<Rightarrow> config" where
  "sample_config ts g = \<lparr>cfg_server = default_server,
     cfg_controller = \<lparr>host = str ''10.0.0.1'', api_key = Secret (str ''k''), tls = default_tls\<rparr>,
     cfg_limits = g, cfg_tokens = ts\<rparr>"

theorem fresh_budget_witness:
  "checks tick_governor 0 (str ''phone'') 3
     (rates_from_config tick_governor 0
       (sample_config [(bare_token (str ''phone'') [] [] [])\<lparr>tok_rate_limit := Some 2\<rparr>] default_limits)) =
   [True, True, False] \<and>
   checks tick_governor 0 (str ''phone'') 100
     (rates_from_config tick_governor 0
       (sample_config [(bare_token (str ''phone'') [] [] [])\<lparr>tok_rate_limit := Some 0\<rparr>]
         (default_limits\<lparr>rate_limit_per_minute := 1\<rparr>))) = replicate 100 True"
proof
  let ?t = "(bare_token (str ''phone'') [] [] [])\<lparr>tok_rate_limit := Some 2\<rparr>"
  have "effective_rate_limit ?t default_limits = 2"
    by (simp add: effective_rate_limit_def default_limits_def default_rate_limit_def bare_token_def
        min_def word_le_nat_alt)
  moreover have "cfg_limits (sample_config [?t] default_limits) = default_limits"
    "cfg_tokens (sample_config [?t] default_limits) = [?t]" "tok_name ?t = str ''phone''"
    by (simp_all add: sample_config_def bare_token_def)
  moreover have "unat (2 :: u32) = 2" by simp
  moreover have "replicate 2 True @ replicate 1 False = [True, True, False]" by (simp add: numeral_2_eq_2)
  ultimately show "checks tick_governor 0 (str ''phone'') 3
      (rates_from_config tick_governor 0 (sample_config [?t] default_limits)) = [True, True, False]"
    using fresh_budget [OF burst_law_tick, of ?t "sample_config [?t] default_limits" 0 1]
    by (simp del: checks.simps)
  let ?z = "(bare_token (str ''phone'') [] [] [])\<lparr>tok_rate_limit := Some 0\<rparr>"
  let ?cfg = "sample_config [?z] (default_limits\<lparr>rate_limit_per_minute := 1\<rparr>)"
  have "?z \<in> set (cfg_tokens ?cfg)" "distinct (map tok_name (cfg_tokens ?cfg))" "tok_rate_limit ?z = Some 0"
    "tok_name ?z = str ''phone''"
    by (simp_all add: sample_config_def bare_token_def)
  then show "checks tick_governor 0 (str ''phone'') 100 (rates_from_config tick_governor 0 ?cfg) = replicate 100 True"
    using fresh_budget [OF burst_law_tick, of ?z ?cfg 0 0 100] by presburger
qed

text \<open>
  The per-address store is swept on every 1024th check and only then, however many checks
  have been made: the counter wraps at \<open>2 ^ 32\<close>, a multiple of 1024, so the period survives the
  wrap. \<open>xs\<close> is any run of earlier checks after start-up.
\<close>

theorem swept_every_1024:
  assumes "rate_limit_per_ip_per_minute (cfg_limits cfg) \<noteq> 0"
    and r: "r = ip_run gov xs (rates_from_config gov t0 cfg)"
  shows "per_ip (snd (check_ip gov now ip r)) = Some (snd (gov_check_key gov
      (if length xs mod 1024 = 1023 then gov_retain_recent gov (the (per_ip r)) now
       else the (per_ip r)) ip now))"
proof -
  have "per_ip (rates_from_config gov t0 cfg) \<noteq> None"
    using assms(1) by (simp add: rates_from_config_def non_zero_def)
  from ip_run_sweep [OF this, of gov xs]
  have s: "sweep r = of_nat (length xs)" and p: "per_ip r \<noteq> None"
    by (simp_all add: r rates_from_config_def)
  from p show ?thesis
    by (auto simp: check_ip_def s sweep_due_iff Let_def split: prod.split)
qed

theorem swept_every_1024_witness:
  "per_ip (snd (check_ip tick_governor 0 (V4 1)
     (ip_run tick_governor [] (rates_from_config tick_governor 0 (sample_config [] default_limits))))) =
   Some ((\<lambda>ip. 120)(V4 1 := 119))"
  by (subst swept_every_1024 [OF _ refl])
     (simp_all add: sample_config_def default_limits_def default_pre_auth_rate_limit_def
       rates_from_config_def non_zero_def tick_governor_def)

end
