(* ===== verification/Metrics_Counters.thy ===== *)
theory Metrics_Counters
  imports Btree_Map
begin

text \<open>
  \<open>src/metrics.rs\<close>: the counters behind \<open>/metrics\<close> and their text format. The atomics are
  64-bit words that wrap. The latency total prints with three decimals of a second; \<open>f64\<close>
  division and formatting give exactly the quotient and the remainder of the milliseconds by
  1000 while the total is below \<open>2 ^ 52\<close> milliseconds, and that is how it is written here.
\<close>

section \<open>The counters\<close>

type_synonym request_key = "rstr \<times> rstr \<times> rstr"

record metrics =
  requests :: "(request_key \<times> u64) list"
  vouchers_created :: "(rstr \<times> u64) list"
  upstream_latency_ms_total :: u64
  upstream_calls :: u64
  reloads :: u64
  reload_failures :: u64

definition metrics_default :: metrics where
  "metrics_default = \<lparr>requests = [], vouchers_created = [], upstream_latency_ms_total = 0,
     upstream_calls = 0, reloads = 0, reload_failures = 0\<rparr>"

definition record_request :: "rstr \<Rightarrow> rstr \<Rightarrow> rstr \<Rightarrow> metrics \<Rightarrow> metrics" where
  "record_request token action outcome m =
     m\<lparr>requests := bt_entry 0 (\<lambda>n. n + 1) (token, action, outcome) (requests m)\<rparr>"

definition record_vouchers_created :: "rstr \<Rightarrow> u32 \<Rightarrow> metrics \<Rightarrow> metrics" where
  "record_vouchers_created token n m =
     m\<lparr>vouchers_created := bt_entry 0 (\<lambda>c. c + ucast n) token (vouchers_created m)\<rparr>"

definition record_upstream :: "u64 \<Rightarrow> metrics \<Rightarrow> metrics" where
  "record_upstream elapsed_ms m =
     m\<lparr>upstream_latency_ms_total := upstream_latency_ms_total m + elapsed_ms,
       upstream_calls := upstream_calls m + 1\<rparr>"

definition record_reload :: "bool \<Rightarrow> metrics \<Rightarrow> metrics" where
  "record_reload succeeded m =
     (if succeeded then m\<lparr>reloads := reloads m + 1\<rparr>
      else m\<lparr>reload_failures := reload_failures m + 1\<rparr>)"

section \<open>The text format\<close>

text \<open>34, 92 and 10 are the quote, the backslash and the newline; 123 and 125 the braces.\<close>

definition escape :: "rstr \<Rightarrow> rstr" where
  "escape v = replace_char 10 [92, 110] (replace_char 34 [92, 34] (replace_char 92 [92, 92] v))"

definition line :: "rstr \<Rightarrow> rstr" where
  "line s = s @ [10]"

definition quoted :: "rstr \<Rightarrow> rstr" where
  "quoted s = [34] @ s @ [34]"

definition family_header :: "rstr \<Rightarrow> rstr \<Rightarrow> rstr \<Rightarrow> rstr" where
  "family_header name help kind =
     line (str ''# HELP '' @ name @ str '' '' @ help) @ line (str ''# TYPE '' @ name @ str '' '' @ kind)"

definition request_sample :: "request_key \<times> u64 \<Rightarrow> rstr" where
  "request_sample s = (case s of ((token, action, outcome), n) \<Rightarrow>
     line (str ''uvp_requests_total'' @ [123] @ str ''token='' @ quoted (escape token)
       @ str '',action='' @ quoted (escape action)
       @ str '',outcome='' @ quoted (escape outcome) @ [125] @ str '' '' @ show_nat (unat n)))"

definition vouchers_sample :: "rstr \<times> u64 \<Rightarrow> rstr" where
  "vouchers_sample s = (case s of (token, n) \<Rightarrow>
     line (str ''uvp_vouchers_created_total'' @ [123] @ str ''token='' @ quoted (escape token)
       @ [125] @ str '' '' @ show_nat (unat n)))"

definition show_seconds :: "u64 \<Rightarrow> rstr" where
  "show_seconds ms = show_nat (unat ms div 1000) @ str ''.'' @ pad_zero 3 (show_nat (unat ms mod 1000))"

definition render :: "rstr \<Rightarrow> nat \<Rightarrow> metrics \<Rightarrow> rstr" where
  "render version tokens_configured m =
     family_header (str ''uvp_build_info'') (str ''Version of the running proxy.'') (str ''gauge'')
     @ line (str ''uvp_build_info'' @ [123] @ str ''version='' @ quoted version @ [125] @ str '' 1'')
     @ family_header (str ''uvp_tokens_configured'')
         (str ''Number of client tokens in the active config.'') (str ''gauge'')
     @ line (str ''uvp_tokens_configured '' @ show_nat tokens_configured)
     @ family_header (str ''uvp_requests_total'') (str ''Requests by token, action and outcome.'')
         (str ''counter'')
     @ concat (map request_sample (requests m))
     @ family_header (str ''uvp_vouchers_created_total'') (str ''Vouchers issued through the proxy.'')
         (str ''counter'')
     @ concat (map vouchers_sample (vouchers_created m))
     @ family_header (str ''uvp_upstream_seconds_total'') (str ''Time spent waiting on the controller.'')
         (str ''counter'')
     @ line (str ''uvp_upstream_seconds_total '' @ show_seconds (upstream_latency_ms_total m))
     @ family_header (str ''uvp_upstream_calls_total'') (str ''Calls made to the controller.'')
         (str ''counter'')
     @ line (str ''uvp_upstream_calls_total '' @ show_nat (unat (upstream_calls m)))
     @ family_header (str ''uvp_config_reloads_total'') (str ''Successful SIGHUP reloads.'')
         (str ''counter'')
     @ line (str ''uvp_config_reloads_total '' @ show_nat (unat (reloads m)))
     @ family_header (str ''uvp_config_reload_failures_total'') (str ''Reloads rejected for a bad config.'')
         (str ''counter'')
     @ line (str ''uvp_config_reload_failures_total '' @ show_nat (unat (reload_failures m)))"

section \<open>Well-formedness and counting\<close>

definition wf_metrics :: "metrics \<Rightarrow> bool" where
  "wf_metrics m \<longleftrightarrow> bt_sorted (requests m) \<and> bt_sorted (vouchers_created m)"

lemma wf_metrics_default [simp]: "wf_metrics metrics_default"
  by (simp add: wf_metrics_def metrics_default_def)

lemma wf_metrics_ops [simp]:
  "wf_metrics m \<Longrightarrow> wf_metrics (record_request t a oc m)"
  "wf_metrics m \<Longrightarrow> wf_metrics (record_vouchers_created t n m)"
  "wf_metrics m \<Longrightarrow> wf_metrics (record_upstream ms m)"
  "wf_metrics m \<Longrightarrow> wf_metrics (record_reload ok m)"
  by (simp_all add: wf_metrics_def record_request_def record_vouchers_created_def
      record_upstream_def record_reload_def)

text \<open>What a scraper reads for one key: its sample, or zero when there is none.\<close>

definition requests_total :: "metrics \<Rightarrow> request_key \<Rightarrow> u64" where
  "requests_total m k = unwrap_or (bt_get (requests m) k) 0"

definition vouchers_total :: "metrics \<Rightarrow> rstr \<Rightarrow> u64" where
  "vouchers_total m t = unwrap_or (bt_get (vouchers_created m) t) 0"

lemma requests_total_record [simp]:
  "wf_metrics m \<Longrightarrow> requests_total (record_request t a oc m) k =
     requests_total m k + (if k = (t, a, oc) then 1 else 0)"
  by (simp add: wf_metrics_def requests_total_def record_request_def)

lemma vouchers_total_record [simp]:
  "wf_metrics m \<Longrightarrow> vouchers_total (record_vouchers_created t n m) u =
     vouchers_total m u + (if u = t then ucast n else 0)"
  by (simp add: wf_metrics_def vouchers_total_def record_vouchers_created_def)

lemma metrics_frames [simp]:
  "requests_total (record_vouchers_created t n m) k = requests_total m k"
  "requests_total (record_upstream ms m) k = requests_total m k"
  "requests_total (record_reload ok m) k = requests_total m k"
  "vouchers_total (record_request t a oc m) u = vouchers_total m u"
  "vouchers_total (record_upstream ms m) u = vouchers_total m u"
  "vouchers_total (record_reload ok m) u = vouchers_total m u"
  "requests (record_vouchers_created t n m) = requests m"
  "requests (record_upstream ms m) = requests m"
  "requests (record_reload ok m) = requests m"
  "upstream_calls (record_request t a oc m) = upstream_calls m"
  "upstream_calls (record_vouchers_created t n m) = upstream_calls m"
  "upstream_calls (record_reload ok m) = upstream_calls m"
  "upstream_calls (record_upstream ms m) = upstream_calls m + 1"
  by (simp_all add: requests_total_def vouchers_total_def record_vouchers_created_def
      record_upstream_def record_reload_def record_request_def)

lemma request_keys_record [simp]:
  "fst ` set (requests (record_request t a oc m)) = insert (t, a, oc) (fst ` set (requests m))"
  by (simp add: record_request_def)

text \<open>The events as the handlers report them, and a run of them.\<close>

datatype metric_event =
    EvRequest rstr rstr rstr
  | EvVouchers rstr u32
  | EvUpstream u64
  | EvReload bool

fun metric_step :: "metric_event \<Rightarrow> metrics \<Rightarrow> metrics" where
  "metric_step (EvRequest t a oc) m = record_request t a oc m"
| "metric_step (EvVouchers t n) m = record_vouchers_created t n m"
| "metric_step (EvUpstream ms) m = record_upstream ms m"
| "metric_step (EvReload ok) m = record_reload ok m"

definition metric_run :: "metric_event list \<Rightarrow> metrics" where
  "metric_run evs = fold metric_step evs metrics_default"

fun vouchers_in :: "rstr \<Rightarrow> metric_event list \<Rightarrow> nat" where
  "vouchers_in t [] = 0"
| "vouchers_in t (EvVouchers u n # evs) = (if u = t then unat n else 0) + vouchers_in t evs"
| "vouchers_in t (_ # evs) = vouchers_in t evs"

fun is_request :: "request_key \<Rightarrow> metric_event \<Rightarrow> bool" where
  "is_request k (EvRequest t a oc) = (k = (t, a, oc))"
| "is_request k _ = False"

lemma wf_metric_step [simp]: "wf_metrics m \<Longrightarrow> wf_metrics (metric_step e m)"
  by (cases e) simp_all

lemma requests_total_fold:
  "wf_metrics m \<Longrightarrow> requests_total (fold metric_step evs m) k =
     requests_total m k + of_nat (length (filter (is_request k) evs))"
proof (induction evs arbitrary: m)
  case Nil
  then show ?case by simp
next
  case (Cons e evs)
  then show ?case by (cases e) (simp_all add: algebra_simps)
qed

lemma vouchers_total_fold:
  "wf_metrics m \<Longrightarrow> vouchers_total (fold metric_step evs m) t =
     vouchers_total m t + of_nat (vouchers_in t evs)"
proof (induction evs arbitrary: m)
  case Nil
  then show ?case by simp
next
  case (Cons e evs)
  then show ?case by (cases e) (simp_all add: algebra_simps)
qed

section \<open>Labels cannot break the format\<close>

text \<open>
  The reader of a label value in the exposition format: from after the opening quote to the
  closing one, undoing the three escapes. \<open>None\<close> is a malformed value.
\<close>

fun read_label :: "rstr \<Rightarrow> (rstr \<times> rstr) option" where
  "read_label [] = None"
| "read_label (c # s) =
     (if c = 34 then Some ([], s)
      else if c = 10 then None
      else if c = 92 then
        (case s of
           [] \<Rightarrow> None
         | d # s' \<Rightarrow>
             (if d = 92 then map_option (apfst ((#) 92)) (read_label s')
              else if d = 34 then map_option (apfst ((#) 34)) (read_label s')
              else if d = 110 then map_option (apfst ((#) 10)) (read_label s')
              else None))
      else map_option (apfst ((#) c)) (read_label s))"

lemma escape_Nil [simp]: "escape [] = []"
  by (simp add: escape_def replace_char_def)

lemma escape_Cons:
  "escape (c # s) =
     (if c = 92 then [92, 92] else if c = 34 then [92, 34] else if c = 10 then [92, 110] else [c])
       @ escape s"
  by (simp add: escape_def replace_char_def)

lemma read_label_escape: "read_label (escape v @ 34 # rest) = Some (v, rest)"
  by (induction v) (simp_all add: escape_Cons)

lemma escape_no_newline: "10 \<notin> set (escape v)"
  by (induction v) (auto simp: escape_Cons)

text \<open>A whole sample line, read back.\<close>

definition read_request_sample :: "rstr \<Rightarrow> (request_key \<times> nat) option" where
  "read_request_sample s =
     Option.bind (strip_prefix s (str ''uvp_requests_total'' @ [123] @ str ''token='' @ [34])) (\<lambda>s.
     Option.bind (read_label s) (\<lambda>(token, s).
     Option.bind (strip_prefix s (str '',action='' @ [34])) (\<lambda>s.
     Option.bind (read_label s) (\<lambda>(action, s).
     Option.bind (strip_prefix s (str '',outcome='' @ [34])) (\<lambda>s.
     Option.bind (read_label s) (\<lambda>(outcome, s).
     Option.bind (strip_prefix s ([125] @ str '' '')) (\<lambda>s.
     Option.bind (if s = [] then None else read_digits 0 (butlast s)) (\<lambda>n.
       if last s = 10 then Some ((token, action, outcome), n) else None))))))))"

lemma strip_prefix_append2 [simp]: "strip_prefix (p @ q @ s) (p @ q) = Some s"
  using strip_prefix_append [of "p @ q" s] by simp

lemma request_sample_shape:
  "request_sample ((t, a, oc), n) =
     (str ''uvp_requests_total'' @ [123] @ str ''token='' @ [34])
       @ escape t @ 34 # ((str '',action='' @ [34])
       @ escape a @ 34 # ((str '',outcome='' @ [34])
       @ escape oc @ 34 # (([125] @ str '' '') @ show_nat (unat n) @ [10])))"
  by (simp add: request_sample_def line_def quoted_def)

lemma read_request_sample_line:
  "read_request_sample (request_sample (k, n)) = Some (k, unat n)"
proof -
  obtain t a oc where k: "k = (t, a, oc)" by (cases k)
  show ?thesis
    unfolding k request_sample_shape read_request_sample_def
    by (simp only: strip_prefix_append read_label_escape Option.bind.simps case_prod_conv) simp
qed

lemma request_sample_one_line: "10 \<notin> set (butlast (request_sample (k, n)))"
proof -
  obtain t a oc where k: "k = (t, a, oc)" by (cases k)
  have "list_all is_ascii_digit (show_nat (unat n))" by (rule show_nat_digits)
  then have "10 \<notin> set (show_nat (unat n))" by (auto simp: list_all_iff is_ascii_digit_def)
  then show ?thesis
    unfolding k request_sample_def line_def quoted_def
    by (simp add: butlast_append escape_no_newline str_def)
qed

section \<open>Properties\<close>

text \<open>
  A label cannot break the exposition format: whatever characters a token name, an action or
  an outcome holds, its sample is one line, and a reader of the format gets back exactly that
  token, action, outcome and count. So two different label sets never share a sample line.
\<close>

theorem samples_read_back:
  "read_request_sample (request_sample (k, n)) = Some (k, unat n) \<and>
   10 \<notin> set (butlast (request_sample (k, n))) \<and> last (request_sample (k, n)) = 10"
proof -
  have "last (request_sample (k, n)) = 10" by (cases k) (simp add: request_sample_def line_def)
  then show ?thesis by (simp add: read_request_sample_line request_sample_one_line)
qed

text \<open>
  The counters are sums: after any sequence of events, a request counter is the number of
  events with its token, action and outcome, and a voucher counter is the number of vouchers
  issued to its token, modulo the width of the counter.
\<close>

theorem counters_are_sums:
  "requests_total (metric_run evs) k = of_nat (length (filter (is_request k) evs)) \<and>
   vouchers_total (metric_run evs) t = of_nat (vouchers_in t evs)"
proof -
  have "requests_total metrics_default k = 0" "vouchers_total metrics_default t = 0"
    by (simp_all add: requests_total_def vouchers_total_def metrics_default_def)
  then show ?thesis
    using requests_total_fold [of metrics_default evs k] vouchers_total_fold [of metrics_default evs t]
    by (simp add: metric_run_def)
qed

end
