(* ===== verification/Audit_Log.thy ===== *)
theory Audit_Log
  imports Prelude Rust_Text
begin

text \<open>
  \<open>src/audit.rs\<close>: the two shapes of an audit line. The log is a list of lines in the order they
  were emitted; writing them out is the \<open>tracing\<close> crate's work. Durations are milliseconds, the
  resolution of \<open>elapsed_ms\<close>.
\<close>

record audit_record =
  au_token :: rstr
  au_action :: rstr
  au_site :: "rstr option"
  au_target :: "rstr option"
  au_count :: "u32 option"
  au_status :: nat
  au_outcome :: rstr
  au_elapsed :: nat

text \<open>A line as it is written: token, action, site, target, count, status, outcome, elapsed.\<close>

datatype audit_line =
    RequestLine (line_token: rstr) (line_action: rstr) rstr rstr u32 (line_status: nat)
      (line_outcome: rstr) u64
  | RejectedLine (line_token: rstr) (line_action: rstr) (line_outcome: rstr) (line_status: nat)

definition emit :: "audit_record \<Rightarrow> audit_line" where
  "emit r = RequestLine (au_token r) (au_action r) (unwrap_or (au_site r) (str ''-''))
     (unwrap_or (au_target r) (str ''-'')) (unwrap_or (au_count r) 0) (au_status r) (au_outcome r)
     (of_nat (au_elapsed r))"

definition rejected :: "rstr \<Rightarrow> rstr \<Rightarrow> nat \<Rightarrow> audit_line" where
  "rejected action reason st = RejectedLine (str ''-'') action reason st"

lemma emit_fields [simp]:
  "line_token (emit r) = au_token r" "line_action (emit r) = au_action r"
  "line_status (emit r) = au_status r" "line_outcome (emit r) = au_outcome r"
  by (simp_all add: emit_def)

lemma rejected_fields [simp]:
  "line_token (rejected a oc st) = str ''-''" "line_action (rejected a oc st) = a"
  "line_status (rejected a oc st) = st" "line_outcome (rejected a oc st) = oc"
  by (simp_all add: rejected_def)

end
