(* ===== verification/Voucher_Policy.thy ===== *)
theory Voucher_Policy
  imports Proxy_Config
begin

text \<open>
  \<open>src/policy.rs\<close>: the voucher-creation body as a closed set of fields, and the ceilings it is
  held to. Converting between JSON and the struct is \<open>serde_json\<close>'s work: \<open>parse\<close> and
  \<open>to_upstream_body\<close> take \<open>from_value\<close> and \<open>to_value\<close> as parameters. What the attributes of the
  struct (\<open>deny_unknown_fields\<close>, \<open>rename_all\<close>, \<open>default\<close>, \<open>skip_serializing_if\<close>) declare is
  spelled out in \<open>deserialize_request\<close> and \<open>serialize_request\<close>, the functions the parameters
  stand for.
\<close>

section \<open>The request\<close>

record create_voucher_request =
  cv_name :: rstr
  cv_count :: u32
  cv_time_limit_minutes :: u64
  cv_authorized_guest_limit :: u32
  cv_data_usage_limit_m_bytes :: "u64 option"
  cv_rx_rate_limit_kbps :: "u64 option"
  cv_tx_rate_limit_kbps :: "u64 option"

record ceilings =
  max_vouchers :: u32
  max_validity :: u64

definition UNIFI_MAX_TIME_LIMIT_MINUTES :: u64 where
  "UNIFI_MAX_TIME_LIMIT_MINUTES = 1000000"

definition one :: u32 where
  "one = 1"

definition parse :: "(json \<Rightarrow> (create_voucher_request, rstr) result) \<Rightarrow> json
    \<Rightarrow> (create_voucher_request, proxy_error) result" where
  "parse from_value body =
     map_err (\<lambda>e. BadRequest (str ''voucher request is not acceptable: '' @ e)) (from_value body)"

definition enforce :: "create_voucher_request \<Rightarrow> ceilings \<Rightarrow> (unit, proxy_error) result" where
  "enforce r c =
     (if trim (cv_name r) = [] then Err (BadRequest (str ''voucher name must not be empty''))
      else if length (cv_name r) > 128 then Err (BadRequest (str ''voucher name is too long''))
      else if cv_count r = 0 then Err (BadRequest (str ''count must be at least 1''))
      else if cv_count r > max_vouchers c then
        Err (Forbidden (str ''this token may create at most '' @ show_nat (unat (max_vouchers c))
          @ str '' voucher(s) per request (asked for '' @ show_nat (unat (cv_count r)) @ str '')''))
      else if cv_time_limit_minutes r = 0 then
        Err (BadRequest (str ''timeLimitMinutes must be at least 1''))
      else
        (let ceiling = min (max_validity c) UNIFI_MAX_TIME_LIMIT_MINUTES in
         if cv_time_limit_minutes r > ceiling then
           Err (Forbidden (str ''this token may issue vouchers valid for at most ''
             @ show_nat (unat ceiling) @ str '' minute(s) (asked for ''
             @ show_nat (unat (cv_time_limit_minutes r)) @ str '')''))
         else if cv_authorized_guest_limit r = 0 \<or> cv_authorized_guest_limit r > 10000 then
           Err (BadRequest (str ''authorizedGuestLimit is out of range''))
         else Ok ()))"

definition to_upstream_body :: "(create_voucher_request \<Rightarrow> (json, rstr) result)
    \<Rightarrow> create_voucher_request \<Rightarrow> (json, proxy_error) result" where
  "to_upstream_body to_value r =
     map_err (\<lambda>e. Internal [str ''failed to re-encode body: '' @ e]) (to_value r)"

section \<open>What the policy admits\<close>

definition admissible :: "ceilings \<Rightarrow> create_voucher_request \<Rightarrow> bool" where
  "admissible c r \<longleftrightarrow>
     trim (cv_name r) \<noteq> [] \<and> length (cv_name r) \<le> 128 \<and>
     0 < cv_count r \<and> cv_count r \<le> max_vouchers c \<and>
     0 < cv_time_limit_minutes r \<and> cv_time_limit_minutes r \<le> max_validity c \<and>
     cv_time_limit_minutes r \<le> UNIFI_MAX_TIME_LIMIT_MINUTES \<and>
     0 < cv_authorized_guest_limit r \<and> cv_authorized_guest_limit r \<le> 10000"

lemma enforce_Ok_iff: "enforce r c = Ok () \<longleftrightarrow> admissible c r"
  by (auto simp: enforce_def admissible_def Let_def not_less word_neq_0_conv min_less_iff_disj)

lemma admissible_mono:
  "admissible c r \<Longrightarrow> max_vouchers c \<le> max_vouchers d \<Longrightarrow> max_validity c \<le> max_validity d \<Longrightarrow>
     admissible d r"
  by (auto simp: admissible_def)

section \<open>The wire format\<close>

text \<open>The field names after \<open>rename_all = "camelCase"\<close>, in declaration order.\<close>

definition request_fields :: "rstr list" where
  "request_fields = map str [''name'', ''count'', ''timeLimitMinutes'', ''authorizedGuestLimit'',
     ''dataUsageLimitMBytes'', ''rxRateLimitKbps'', ''txRateLimitKbps'']"

definition de_u32 :: "json \<Rightarrow> u32 option" where
  "de_u32 v = (case v of
     JNumber (PosInt w) \<Rightarrow> if unat w < 2 ^ 32 then Some (ucast w) else None
   | _ \<Rightarrow> None)"

definition de_u64 :: "json \<Rightarrow> u64 option" where
  "de_u64 v = (case v of JNumber (PosInt w) \<Rightarrow> Some w | _ \<Rightarrow> None)"

definition de_opt_u64 :: "json \<Rightarrow> u64 option option" where
  "de_opt_u64 v = (case v of JNull \<Rightarrow> Some None | _ \<Rightarrow> map_option Some (de_u64 v))"

definition field_or :: "'a option \<Rightarrow> (json \<Rightarrow> 'a option) \<Rightarrow> json option \<Rightarrow> 'a option" where
  "field_or missing de v = (case v of None \<Rightarrow> missing | Some x \<Rightarrow> de x)"

text \<open>One value per field, in declaration order; a missing field is \<open>None\<close>.\<close>

definition decode_fields :: "(rstr \<Rightarrow> json option) \<Rightarrow> create_voucher_request option" where
  "decode_fields f =
     Option.bind (field_or None value_as_str (f (str ''name''))) (\<lambda>n.
     Option.bind (field_or (Some one) de_u32 (f (str ''count''))) (\<lambda>c.
     Option.bind (field_or None de_u64 (f (str ''timeLimitMinutes''))) (\<lambda>t.
     Option.bind (field_or (Some one) de_u32 (f (str ''authorizedGuestLimit''))) (\<lambda>g.
     Option.bind (field_or (Some None) de_opt_u64 (f (str ''dataUsageLimitMBytes''))) (\<lambda>d.
     Option.bind (field_or (Some None) de_opt_u64 (f (str ''rxRateLimitKbps''))) (\<lambda>rx.
     Option.bind (field_or (Some None) de_opt_u64 (f (str ''txRateLimitKbps''))) (\<lambda>tx.
       Some \<lparr>cv_name = n, cv_count = c, cv_time_limit_minutes = t, cv_authorized_guest_limit = g,
         cv_data_usage_limit_m_bytes = d, cv_rx_rate_limit_kbps = rx,
         cv_tx_rate_limit_kbps = tx\<rparr>)))))))"

text \<open>
  \<open>Deserialize\<close>: an object, none of whose keys is unknown; or, as for every derived struct, an
  array with exactly one element per field. The wording of the error is \<open>serde\<close>'s.
\<close>

definition deserialize_request :: "(json \<Rightarrow> rstr) \<Rightarrow> json \<Rightarrow> (create_voucher_request, rstr) result" where
  "deserialize_request why v =
     (case (case v of
         JObject fs \<Rightarrow>
           if list_all (\<lambda>(k, _). k \<in> set request_fields) fs then decode_fields (bt_get fs) else None
       | JArray xs \<Rightarrow>
           if length xs = length request_fields then decode_fields (map_of (zip request_fields xs))
           else None
       | _ \<Rightarrow> None) of
        None \<Rightarrow> Err (why v)
      | Some r \<Rightarrow> Ok r)"

definition ser_u32 :: "u32 \<Rightarrow> json" where
  "ser_u32 w = JNumber (PosInt (ucast w))"

definition ser_u64 :: "u64 \<Rightarrow> json" where
  "ser_u64 w = JNumber (PosInt w)"

definition ser_opt :: "rstr \<Rightarrow> u64 option \<Rightarrow> (rstr \<times> json) list" where
  "ser_opt k v = (case v of None \<Rightarrow> [] | Some w \<Rightarrow> [(k, ser_u64 w)])"

definition request_entries :: "create_voucher_request \<Rightarrow> (rstr \<times> json) list" where
  "request_entries r =
     [(str ''name'', JString (cv_name r)), (str ''count'', ser_u32 (cv_count r)),
      (str ''timeLimitMinutes'', ser_u64 (cv_time_limit_minutes r)),
      (str ''authorizedGuestLimit'', ser_u32 (cv_authorized_guest_limit r))]
     @ ser_opt (str ''dataUsageLimitMBytes'') (cv_data_usage_limit_m_bytes r)
     @ ser_opt (str ''rxRateLimitKbps'') (cv_rx_rate_limit_kbps r)
     @ ser_opt (str ''txRateLimitKbps'') (cv_tx_rate_limit_kbps r)"

definition serialize_request :: "create_voucher_request \<Rightarrow> (json, rstr) result" where
  "serialize_request r = Ok (json_object (request_entries r))"

section \<open>The contract of a wire codec\<close>

text \<open>
  What the proxy relies on when it re-encodes a request instead of forwarding the client's
  bytes: encoding yields an object over a closed set of keys, decoding undoes it, and an
  object with any other key does not decode.
\<close>

locale closed_codec =
  fixes enc :: "'a \<Rightarrow> (json, rstr) result"
    and dec :: "json \<Rightarrow> ('a, rstr) result"
    and known :: "rstr list"
  assumes dec_enc: "enc r = Ok v \<Longrightarrow> dec v = Ok r"
    and enc_closed: "enc r = Ok v \<Longrightarrow> \<exists>fs. v = JObject fs \<and> fst ` set fs \<subseteq> set known"
    and rejects_unknown: "dec (JObject fs) = Ok r \<Longrightarrow> fst ` set fs \<subseteq> set known"
begin

lemma enc_inj: "enc r = Ok v \<Longrightarrow> enc s = Ok v \<Longrightarrow> r = s"
  using dec_enc [of r v] dec_enc [of s v] by simp

lemma forwarded_keys: "enc r = Ok v \<Longrightarrow> get v k = Some x \<Longrightarrow> k \<in> set known"
proof -
  assume e: "enc r = Ok v" and g: "get v k = Some x"
  from enc_closed [OF e] obtain fs where v: "v = JObject fs" and fs: "fst ` set fs \<subseteq> set known"
    by blast
  from g have "k \<in> fst ` set fs" by (auto simp: v bt_get_def dest!: map_of_SomeD intro: rev_image_eqI)
  with fs show ?thesis by blast
qed

lemma smuggled_key: "k \<in> fst ` set fs \<Longrightarrow> k \<notin> set known \<Longrightarrow> \<not> is_ok (dec (JObject fs))"
  using rejects_unknown by (auto simp: is_ok_iff)

end

lemma de_ser_u32 [simp]: "de_u32 (ser_u32 w) = Some w"
proof -
  have b: "unat w < 2 ^ 32" using unsigned_less [of w] by simp
  then have "unat (ucast w :: u64) = unat w"
    by (simp add: unsigned_ucast_eq take_bit_nat_eq_self)
  with b show ?thesis by (simp add: de_u32_def ser_u32_def ucast_up_ucast_id is_up)
qed

lemma de_ser_u64 [simp]: "de_opt_u64 (ser_u64 w) = Some (Some w)" "de_u64 (ser_u64 w) = Some w"
  by (simp_all add: de_opt_u64_def de_u64_def ser_u64_def)

lemma request_entries_distinct: "distinct (map fst (request_entries r))"
  by (simp add: request_entries_def ser_opt_def split: option.splits)

lemma request_entries_known: "fst ` set (request_entries r) \<subseteq> set request_fields"
  by (auto simp: request_entries_def ser_opt_def request_fields_def split: option.splits)

lemma request_entries_lookup:
  "map_of (request_entries r) (str ''name'') = Some (JString (cv_name r))"
  "map_of (request_entries r) (str ''count'') = Some (ser_u32 (cv_count r))"
  "map_of (request_entries r) (str ''timeLimitMinutes'') = Some (ser_u64 (cv_time_limit_minutes r))"
  "map_of (request_entries r) (str ''authorizedGuestLimit'') =
     Some (ser_u32 (cv_authorized_guest_limit r))"
  "map_of (request_entries r) (str ''dataUsageLimitMBytes'') =
     map_option ser_u64 (cv_data_usage_limit_m_bytes r)"
  "map_of (request_entries r) (str ''rxRateLimitKbps'') = map_option ser_u64 (cv_rx_rate_limit_kbps r)"
  "map_of (request_entries r) (str ''txRateLimitKbps'') = map_option ser_u64 (cv_tx_rate_limit_kbps r)"
  by (simp_all add: request_entries_def ser_opt_def split: option.splits)

lemma decode_entries: "decode_fields (map_of (request_entries r)) = Some r"
  by (cases "cv_data_usage_limit_m_bytes r"; cases "cv_rx_rate_limit_kbps r";
      cases "cv_tx_rate_limit_kbps r")
     (simp_all add: decode_fields_def request_entries_lookup field_or_def value_as_str_def)

lemma deserialize_serialize:
  assumes "serialize_request r = Ok v"
  shows "deserialize_request why v = Ok r"
proof -
  have v: "v = JObject (bt_of_list (request_entries r))"
    using assms by (simp add: serialize_request_def json_object_def)
  have "list_all (\<lambda>(k, _). k \<in> set request_fields) (bt_of_list (request_entries r))"
  proof -
    have "k \<in> set request_fields" if "(k, x) \<in> set (bt_of_list (request_entries r))" for k x
    proof -
      from that have "k \<in> fst ` set (bt_of_list (request_entries r))" by (rule image_eqI [rotated]) simp
      then show ?thesis using request_entries_known [of r] by (auto simp: keys_bt_of_list)
    qed
    then show ?thesis by (auto simp: list_all_iff)
  qed
  moreover have "decode_fields (bt_get (bt_of_list (request_entries r))) = Some r"
    by (simp add: bt_get_of_list request_entries_distinct decode_entries)
  ultimately show ?thesis by (simp add: deserialize_request_def v)
qed

lemma deserialize_known:
  "deserialize_request why (JObject fs) = Ok r \<Longrightarrow> fst ` set fs \<subseteq> set request_fields"
  by (auto simp: deserialize_request_def list_all_iff split: option.splits if_splits)

interpretation wire: closed_codec serialize_request "deserialize_request why" request_fields for why
proof (unfold_locales, goal_cases)
  case (1 r v)
  then show ?case by (rule deserialize_serialize)
next
  case (2 r v)
  then show ?case
    using request_entries_known [of r] keys_bt_of_list [of "request_entries r"]
    by (auto simp: serialize_request_def json_object_def)
next
  case (3 fs r)
  then show ?case by (rule deserialize_known)
qed

section \<open>Properties\<close>

text \<open>
  C23. Whatever body a client sends, what goes to the console is the proxy's own encoding of the
  request it understood: an object whose keys are among the seven the struct has, in map order,
  and which reads back as the same request.
\<close>

theorem reencoding_is_closed:
  "(case deserialize_request why v of
      Err e \<Rightarrow> True
    | Ok r \<Rightarrow> (case serialize_request r of
          Err e \<Rightarrow> False
        | Ok out \<Rightarrow> deserialize_request why out = Ok r \<and>
            (case out of JObject fs \<Rightarrow> fst ` set fs \<subseteq> set request_fields \<and> bt_sorted fs | _ \<Rightarrow> False)))"
proof (cases "deserialize_request why v")
  case (Inr r)
  have s: "serialize_request r = Ok (JObject (bt_of_list (request_entries r)))"
    by (simp add: serialize_request_def json_object_def)
  from wire.dec_enc [OF s, of why] wire.enc_closed [OF s] Inr show ?thesis by (simp add: s)
qed simp

text \<open>
  A body with a key the struct does not have is refused, whatever else it holds.
\<close>

theorem smuggled_field_refused:
  assumes "k \<in> fst ` set fs" and "k \<notin> set request_fields"
  shows "\<not> is_ok (parse (deserialize_request why) (JObject fs))"
  using wire.smuggled_key [OF assms, of why] by (simp add: parse_def)

theorem smuggled_field_refused_witness:
  "\<not> is_ok (parse (deserialize_request (\<lambda>v. [])) (JObject [(str ''name'', JString (str ''a'')),
      (str ''note'', JString [])]))"
  by (rule smuggled_field_refused [where k = "str ''note''"]) (simp_all add: request_fields_def)

text \<open>
  C24. The policy is exactly its specification: \<open>enforce\<close> accepts the admissible requests and no
  others, answers a request over a ceiling with 403 when its earlier fields are in order, and
  every other refusal with 400.
\<close>

theorem enforce_decides:
  "(case enforce r c of
      Ok _ \<Rightarrow> admissible c r
    | Err e \<Rightarrow> \<not> admissible c r \<and>
        status e = (if trim (cv_name r) \<noteq> [] \<and> length (cv_name r) \<le> 128 \<and> cv_count r \<noteq> 0 \<and>
                       (max_vouchers c < cv_count r \<or>
                        cv_time_limit_minutes r \<noteq> 0 \<and>
                        min (max_validity c) UNIFI_MAX_TIME_LIMIT_MINUTES < cv_time_limit_minutes r)
                    then 403 else 400))"
proof (cases "enforce r c")
  case (Inl e)
  then have "\<not> admissible c r" by (metis enforce_Ok_iff sum.distinct(1))
  moreover from Inl have "status e = (if trim (cv_name r) \<noteq> [] \<and> length (cv_name r) \<le> 128 \<and>
        cv_count r \<noteq> 0 \<and> (max_vouchers c < cv_count r \<or> cv_time_limit_minutes r \<noteq> 0 \<and>
          min (max_validity c) UNIFI_MAX_TIME_LIMIT_MINUTES < cv_time_limit_minutes r)
      then 403 else 400)"
    unfolding enforce_def Let_def by (auto split: if_splits)
  ultimately show ?thesis by (simp add: Inl)
next
  case (Inr u)
  moreover from this have "admissible c r" by (simp add: enforce_Ok_iff)
  ultimately show ?thesis by simp
qed

end
