(* ===== verification/Pinning.thy ===== *)
theory Pinning
  imports Proxy_Config
begin

text \<open>
  \<open>src/tls.rs\<close>, second part: how the proxy decides whether the certificate a controller
  presents is the controller, and whether the peer holds that certificate's key. The digest of a
  certificate in lowercase hex (\<open>sha2\<close> and \<open>hex\<close>), the signature algorithms and the WebPKI verifier
  (\<open>rustls\<close>) are parameters.
\<close>

type_synonym certificate = "nat list"

section \<open>The verifiers\<close>

text \<open>\<open>fingerprint\<close>: \<open>digest_hex\<close> is \<open>hex::encode(Sha256::digest(...))\<close>.\<close>

definition fingerprint :: "(certificate \<Rightarrow> rstr) \<Rightarrow> certificate \<Rightarrow> rstr" where
  "fingerprint digest_hex cert = digest_hex cert"

record pinned_verifier =
  expected :: "rstr list"

definition pinned_verify_server_cert ::
    "(certificate \<Rightarrow> rstr) \<Rightarrow> pinned_verifier \<Rightarrow> certificate \<Rightarrow> (unit, rstr) result" where
  "pinned_verify_server_cert digest_hex v end_entity =
     (let actual = fingerprint digest_hex end_entity in
      if actual \<in> set (expected v) then Ok ()
      else Err (str ''controller certificate fingerprint mismatch: pinned ''
             @ join (str '' or '') (expected v) @ str '', presented '' @ actual))"

text \<open>
  The provider's \<open>signature_verification_algorithms\<close>, behind the two functions of \<open>rustls\<close> the
  verifiers delegate to: message, certificate and signed struct. A scheme is its code point.
\<close>

record 'd crypto_provider =
  pv_tls12 :: "nat list \<Rightarrow> certificate \<Rightarrow> 'd \<Rightarrow> (unit, rstr) result"
  pv_tls13 :: "nat list \<Rightarrow> certificate \<Rightarrow> 'd \<Rightarrow> (unit, rstr) result"
  pv_schemes :: "nat list"

definition pinned_verify_tls12_signature :: "'d crypto_provider \<Rightarrow> pinned_verifier \<Rightarrow> nat list
    \<Rightarrow> certificate \<Rightarrow> 'd \<Rightarrow> (unit, rstr) result" where
  "pinned_verify_tls12_signature pv v message cert dss = pv_tls12 pv message cert dss"

definition pinned_verify_tls13_signature :: "'d crypto_provider \<Rightarrow> pinned_verifier \<Rightarrow> nat list
    \<Rightarrow> certificate \<Rightarrow> 'd \<Rightarrow> (unit, rstr) result" where
  "pinned_verify_tls13_signature pv v message cert dss = pv_tls13 pv message cert dss"

definition pinned_supported_schemes :: "'d crypto_provider \<Rightarrow> pinned_verifier \<Rightarrow> nat list" where
  "pinned_supported_schemes pv v = pv_schemes pv"

text \<open>\<open>CapturingVerifier\<close>: accepts everything and records what it saw.\<close>

record capturing_verifier =
  seen :: "rstr option"

definition capturing_verify_server_cert ::
    "(certificate \<Rightarrow> rstr) \<Rightarrow> capturing_verifier \<Rightarrow> certificate
      \<Rightarrow> (unit, rstr) result \<times> capturing_verifier" where
  "capturing_verify_server_cert digest_hex v end_entity =
     (Ok (), v\<lparr>seen := Some (fingerprint digest_hex end_entity)\<rparr>)"

definition capturing_verify_tls12_signature :: "'d crypto_provider \<Rightarrow> capturing_verifier \<Rightarrow> nat list
    \<Rightarrow> certificate \<Rightarrow> 'd \<Rightarrow> (unit, rstr) result" where
  "capturing_verify_tls12_signature pv v message cert dss = pv_tls12 pv message cert dss"

definition capturing_verify_tls13_signature :: "'d crypto_provider \<Rightarrow> capturing_verifier \<Rightarrow> nat list
    \<Rightarrow> certificate \<Rightarrow> 'd \<Rightarrow> (unit, rstr) result" where
  "capturing_verify_tls13_signature pv v message cert dss = pv_tls13 pv message cert dss"

definition capturing_supported_schemes :: "'d crypto_provider \<Rightarrow> capturing_verifier \<Rightarrow> nat list" where
  "capturing_supported_schemes pv v = pv_schemes pv"

section \<open>client\_config\<close>

text \<open>The three ways of verifying, and how the configuration chooses one.\<close>

datatype tls_mode = Pinned pinned_verifier | AcceptAny capturing_verifier | WebPki

definition client_config :: "tls_config \<Rightarrow> (tls_mode, anyhow) result" where
  "client_config cfg =
     (case fingerprint_sha256 cfg of
        Some raw \<Rightarrow>
          and_then (try_collect (\<lambda>r.
              with_context (str ''controller.tls.fingerprint_sha256 is not usable'')
                (normalize_fingerprint r)) raw)
            (\<lambda>es. Ok (Pinned \<lparr>expected = es\<rparr>))
      | None \<Rightarrow>
          if insecure_skip_verify cfg then Ok (AcceptAny \<lparr>seen = None\<rparr>)
          else Ok WebPki)"

text \<open>
  Whether a handshake under a mode accepts the presented leaf. \<open>webpki\<close> is rustls' ordinary
  verification against the bundled roots.
\<close>

definition accepts_cert :: "(certificate \<Rightarrow> rstr) \<Rightarrow> (certificate \<Rightarrow> bool) \<Rightarrow> tls_mode
    \<Rightarrow> certificate \<Rightarrow> bool" where
  "accepts_cert digest_hex webpki mode cert = (case mode of
     Pinned v \<Rightarrow> is_ok (pinned_verify_server_cert digest_hex v cert)
   | AcceptAny v \<Rightarrow> is_ok (fst (capturing_verify_server_cert digest_hex v cert))
   | WebPki \<Rightarrow> webpki cert)"

text \<open>
  A handshake as the client sees it: the negotiated version, the leaf, the signed message and its
  signature. \<open>rustls\<close> completes it when the verifier accepts the certificate and then the signature;
  without a custom verifier it checks the signature with the same provider.
\<close>

datatype tls_version = TLS12 | TLS13

record 'd handshake =
  hs_version :: tls_version
  hs_leaf :: certificate
  hs_message :: "nat list"
  hs_dss :: 'd

definition verify_signature :: "'d crypto_provider \<Rightarrow> tls_mode \<Rightarrow> 'd handshake \<Rightarrow> (unit, rstr) result" where
  "verify_signature pv mode h = (case (mode, hs_version h) of
     (Pinned v, TLS12) \<Rightarrow> pinned_verify_tls12_signature pv v (hs_message h) (hs_leaf h) (hs_dss h)
   | (Pinned v, TLS13) \<Rightarrow> pinned_verify_tls13_signature pv v (hs_message h) (hs_leaf h) (hs_dss h)
   | (AcceptAny v, TLS12) \<Rightarrow> capturing_verify_tls12_signature pv v (hs_message h) (hs_leaf h) (hs_dss h)
   | (AcceptAny v, TLS13) \<Rightarrow> capturing_verify_tls13_signature pv v (hs_message h) (hs_leaf h) (hs_dss h)
   | (WebPki, TLS12) \<Rightarrow> pv_tls12 pv (hs_message h) (hs_leaf h) (hs_dss h)
   | (WebPki, TLS13) \<Rightarrow> pv_tls13 pv (hs_message h) (hs_leaf h) (hs_dss h))"

definition completes :: "(certificate \<Rightarrow> rstr) \<Rightarrow> (certificate \<Rightarrow> bool) \<Rightarrow> 'd crypto_provider
    \<Rightarrow> tls_mode \<Rightarrow> 'd handshake \<Rightarrow> bool" where
  "completes digest_hex webpki pv mode h \<longleftrightarrow>
     accepts_cert digest_hex webpki mode (hs_leaf h) \<and> is_ok (verify_signature pv mode h)"

text \<open>The peer proved that it holds the key of the certificate it showed.\<close>

definition proves_key :: "'d crypto_provider \<Rightarrow> 'd handshake \<Rightarrow> bool" where
  "proves_key pv h \<longleftrightarrow> (case hs_version h of
     TLS12 \<Rightarrow> is_ok (pv_tls12 pv (hs_message h) (hs_leaf h) (hs_dss h))
   | TLS13 \<Rightarrow> is_ok (pv_tls13 pv (hs_message h) (hs_leaf h) (hs_dss h)))"

text \<open>
  \<open>probe_fingerprint\<close>: one throwaway request under the capturing verifier. \<open>presented\<close> is the
  leaf the handshake showed, if one was, and \<open>sent_ok\<close> whether the request got a response.
\<close>

definition probe_fingerprint :: "(certificate \<Rightarrow> rstr) \<Rightarrow> rstr \<Rightarrow> certificate option
    \<Rightarrow> (unit, anyhow) result \<Rightarrow> (rstr, anyhow) result" where
  "probe_fingerprint digest_hex url presented sent_ok =
     (let v0 = \<lparr>seen = None\<rparr>;
          v1 = (case presented of None \<Rightarrow> v0
                | Some c \<Rightarrow> snd (capturing_verify_server_cert digest_hex v0 c))
      in and_then (with_context (str ''could not open a TLS connection to '' @ url) sent_ok)
           (\<lambda>_. case seen v1 of
              None \<Rightarrow> Err [str ''connection succeeded but no certificate was presented'']
            | Some fp \<Rightarrow> Ok fp))"

section \<open>Which certificates pass\<close>

lemma pinned_verify_Ok_iff:
  "is_ok (pinned_verify_server_cert dh v c) \<longleftrightarrow> dh c \<in> set (expected v)"
  by (simp add: pinned_verify_server_cert_def fingerprint_def Let_def)

lemma client_config_modes:
  "client_config cfg = Ok mode \<longleftrightarrow>
     (case fingerprint_sha256 cfg of
        Some raw \<Rightarrow> \<exists>es. mode = Pinned \<lparr>expected = es\<rparr> \<and>
                         list_all2 (\<lambda>r e. normalize_fingerprint r = Ok e) raw es
      | None \<Rightarrow> mode = (if insecure_skip_verify cfg then AcceptAny \<lparr>seen = None\<rparr> else WebPki))"
  by (auto simp: client_config_def and_then_Ok_iff try_collect_Ok_iff with_context_Ok_iff
      split: option.splits)

lemma list_all2_set_iff:
  "list_all2 (\<lambda>r e. f r = Inr e) xs ys \<Longrightarrow> y \<in> set ys \<longleftrightarrow> (\<exists>x \<in> set xs. f x = Inr y)"
  by (induction rule: list_all2_induct) auto

lemma accepts_pinned:
  assumes "client_config cfg = Ok mode" and "fingerprint_sha256 cfg = Some raw"
  shows "accepts_cert dh web mode c \<longleftrightarrow> (\<exists>r \<in> set raw. normalize_fingerprint r = Ok (dh c))"
proof -
  from assms obtain es where mode: "mode = Pinned \<lparr>expected = es\<rparr>"
    and es: "list_all2 (\<lambda>r e. normalize_fingerprint r = Ok e) raw es"
    by (auto simp: client_config_modes)
  show ?thesis
    using list_all2_set_iff [OF es, of "dh c"]
    by (simp add: accepts_cert_def mode pinned_verify_Ok_iff)
qed

lemma valid_pins_client_config:
  assumes "valid_pins cfg"
  shows "is_ok (client_config cfg)"
proof (cases "fingerprint_sha256 cfg")
  case None
  then show ?thesis by (simp add: client_config_def)
next
  case (Some raw)
  then have "list_all (\<lambda>r. is_ok (normalize_fingerprint r)) raw"
    using assms by (simp add: valid_pins_def list_all_iff)
  then have "is_ok (try_collect (\<lambda>r.
      with_context (str ''controller.tls.fingerprint_sha256 is not usable'')
        (normalize_fingerprint r)) raw)"
    by (simp add: is_ok_try_collect with_context_def)
  then show ?thesis by (auto simp: client_config_def Some is_ok_iff)
qed

lemma verify_signature_iff: "is_ok (verify_signature pv mode h) \<longleftrightarrow> proves_key pv h"
  by (cases mode; cases "hs_version h")
     (simp_all add: verify_signature_def proves_key_def pinned_verify_tls12_signature_def
        pinned_verify_tls13_signature_def capturing_verify_tls12_signature_def
        capturing_verify_tls13_signature_def)

section \<open>Properties\<close>

text \<open>
  C29. Which handshakes a configured connection completes. In every mode, also when verification is
  skipped, the peer must prove that it holds the key of the certificate it shows, so replaying a
  pinned certificate is not enough; and the certificate must be, with pins, one whose digest is one
  of the pins after normalisation, and without pins any at all when verification is skipped and
  otherwise one that WebPKI accepts.
\<close>

theorem accepted_handshakes:
  assumes "client_config cfg = Ok mode"
  shows "completes digest_hex webpki pv mode h \<longleftrightarrow> proves_key pv h \<and>
     (case fingerprint_sha256 cfg of
        Some pins \<Rightarrow> (\<exists>r \<in> set pins. normalize_fingerprint r = Ok (digest_hex (hs_leaf h)))
      | None \<Rightarrow> insecure_skip_verify cfg \<or> webpki (hs_leaf h))"
proof (cases "fingerprint_sha256 cfg")
  case None
  with assms show ?thesis
    by (auto simp: completes_def verify_signature_iff client_config_modes accepts_cert_def
        capturing_verify_server_cert_def)
next
  case (Some raw)
  then show ?thesis
    using accepts_pinned [OF assms Some] by (auto simp: completes_def verify_signature_iff)
qed

text \<open>A provider that accepts the signature 1 under TLS 1.3 only.\<close>

definition toy_provider :: "nat crypto_provider" where
  "toy_provider = \<lparr>pv_tls12 = \<lambda>m c d. Err [], pv_tls13 = \<lambda>m c d. if d = 1 then Ok () else Err [],
     pv_schemes = [2055]\<rparr>"

theorem accepted_handshakes_witness:
  "\<forall>d. completes (\<lambda>c. c) (\<lambda>c. False) toy_provider (Pinned \<lparr>expected = [replicate 64 97]\<rparr>)
     \<lparr>hs_version = TLS13, hs_leaf = replicate 64 97, hs_message = [], hs_dss = d\<rparr> = (d = 1)"
proof -
  have f: "is_fingerprint (replicate 64 97)" by (simp add: is_fingerprint_def list_all_iff lower_hex_def)
  then have "client_config (default_tls\<lparr>fingerprint_sha256 := Some [replicate 64 97]\<rparr>) =
      Ok (Pinned \<lparr>expected = [replicate 64 97]\<rparr>)"
    by (simp add: client_config_def normalize_fingerprint_fixed with_context_def)
  from accepted_handshakes [OF this, where pv = toy_provider] f show ?thesis
    by (simp add: normalize_fingerprint_fixed default_tls_def proves_key_def toy_provider_def)
qed

end
