(* ===== verification/Controller_Client.thy ===== *)
theory Controller_Client
  imports Pinning
begin

text \<open>
  \<open>src/upstream.rs\<close>: the client that holds the real API key. Every call it can make is one of
  four named operations; each validates the ids it puts into the path and goes through \<open>send\<close>.
  The HTTP client (\<open>reqwest\<close>) and the JSON parser are parameters; the state threaded through
  is the part of the world a call can see: the controller itself, the requests sent to it so
  far, the operator's log and the monotonic clock in milliseconds.
\<close>

section \<open>Requests, responses, the outside\<close>

datatype http_method = GET | HEAD | POST | PUT | DELETE | PATCH | OPTIONS | OtherMethod rstr

record http_request =
  req_method :: http_method
  req_url :: rstr
  req_headers :: "(rstr \<times> rstr) list"
  req_body :: "json option"

text \<open>What \<open>reqwest\<close> reports when no response arrived: its message and those of its sources.\<close>

record reqwest_error =
  err_chain :: "rstr list"
  err_is_timeout :: bool
  err_is_connect :: bool

datatype redirect_policy = RedirectNone | RedirectDefault

record http_client =
  client_tls :: tls_mode
  client_timeout :: nat
  client_connect_timeout :: nat
  client_redirects :: redirect_policy

text \<open>
  One exchange: the status and the body text (\<open>None\<close> when reading it failed), or an error;
  how long it took; and the controller afterwards.
\<close>

type_synonym 'c transport =
  "http_client \<Rightarrow> http_request \<Rightarrow> 'c \<Rightarrow>
     ((status_code \<times> rstr option, reqwest_error) result \<times> nat) \<times> 'c"

record 'c net =
  console :: 'c
  sent :: "http_request list"
  oplog :: "operator_log list"
  mono :: nat

record upstream =
  up_client :: http_client
  up_base :: rstr
  up_api_key :: secret

definition VOUCHER_PAGE_LIMIT :: nat where
  "VOUCHER_PAGE_LIMIT = 1000"

section \<open>Text from the controller and for the controller\<close>

definition clamp :: "rstr \<Rightarrow> rstr" where
  "clamp raw =
     (let cleaned = map (\<lambda>c. if is_control c then 32 else c) raw;
          trimmed = trim cleaned
      in if 200 < length trimmed then take 200 trimmed @ [8230] else trimmed)"

definition normalize_host :: "rstr \<Rightarrow> rstr" where
  "normalize_host raw =
     (let h = trim_end_matches (\<lambda>c. c = 47) (trim raw) in
      if starts_with h (str ''http://'') \<or> starts_with h (str ''https://'') then h
      else str ''https://'' @ h)"

definition id_char :: "nat \<Rightarrow> bool" where
  "id_char c \<longleftrightarrow> is_ascii_alphanumeric c \<or> c = 45 \<or> c = 95"

definition validate_id :: "rstr \<Rightarrow> rstr \<Rightarrow> (rstr, proxy_error) result" where
  "validate_id value what =
     (if value = [] \<or> byte_len value > 128 then
        Err (BadRequest (what @ str '' has an implausible length''))
      else if \<not> list_all id_char value then
        Err (BadRequest (what @ str '' contains characters that are not allowed''))
      else Ok value)"

definition short_reqwest_error :: "reqwest_error \<Rightarrow> rstr" where
  "short_reqwest_error e =
     (let full = join (str '': '') (err_chain e) in
      if contains full (str ''fingerprint mismatch'') then
        str ''certificate fingerprint mismatch '' @ em_dash
          @ str '' the controller is not the one this proxy is pinned to''
      else if err_is_timeout e then str ''timed out''
      else if contains full (str ''invalid peer certificate'') \<or>
              contains full (str ''UnknownIssuer'') then
        str ''the controller'' @ [39] @ str ''s certificate is not trusted '' @ em_dash
          @ str '' pin its fingerprint with `fetch-fingerprint`''
      else if err_is_connect e then str ''connection refused or host unreachable''
      else str ''request failed'')"

section \<open>send\<close>

definition status_from_u16 :: "nat \<Rightarrow> status_code option" where
  "status_from_u16 n = (if 100 \<le> n \<and> n < 1000 then Some n else None)"

definition is_success :: "status_code \<Rightarrow> bool" where
  "is_success s \<longleftrightarrow> 200 \<le> s \<and> s < 300"

definition is_server_error :: "status_code \<Rightarrow> bool" where
  "is_server_error s \<longleftrightarrow> 500 \<le> s \<and> s < 600"

text \<open>The message a failed exchange is reported with, and the line the operator gets.\<close>

definition failure_message :: "status_code \<Rightarrow> rstr \<Rightarrow> json \<Rightarrow> rstr \<times> operator_log list" where
  "failure_message code text body =
     (if is_server_error code then
        (str ''the controller reported an error (HTTP '' @ show_nat code @ str '')'',
         [ControllerError code (clamp text)])
      else if code = 401 \<or> code = 403 then
        (str ''the controller rejected the proxy'' @ [39] @ str ''s API key'',
         [KeyRejected code (clamp text)])
      else
        (unwrap_or (map_option clamp (Option.bind (get body (str ''message'')) value_as_str))
           (str ''controller request failed (HTTP '' @ show_nat code @ str '')''), []))"

definition build_request :: "upstream \<Rightarrow> http_method \<Rightarrow> rstr \<Rightarrow> json option \<Rightarrow> http_request" where
  "build_request up method path body =
     \<lparr>req_method = method, req_url = up_base up @ path,
      req_headers = [(str ''X-API-KEY'', expose (up_api_key up)),
                     (str ''Accept'', str ''application/json'')],
      req_body = body\<rparr>"

definition send :: "'c transport \<Rightarrow> (rstr \<Rightarrow> json option) \<Rightarrow> upstream \<Rightarrow> http_method \<Rightarrow> rstr
    \<Rightarrow> json option \<Rightarrow> ('c, 'z) net_scheme \<Rightarrow> (json, proxy_error) result \<times> ('c, 'z) net_scheme" where
  "send transport parse_json up method path body w =
     (let req = build_request up method path body;
          ((res, ms), c') = transport (up_client up) req (console w);
          w1 = w\<lparr>console := c', sent := sent w @ [req], mono := mono w + ms\<rparr>
      in case res of
           Inl e \<Rightarrow> (Err (UpstreamUnreachable (short_reqwest_error e)), w1)
         | Inr (code, body_text) \<Rightarrow>
             (let text = unwrap_or body_text [];
                  json = (if trim text = [] then JNull else unwrap_or (parse_json text) JNull)
              in if is_success code then (Ok json, w1)
                 else (let (message, lines) = failure_message code text json in
                   (Err (Upstream (unwrap_or (status_from_u16 code) 502) message),
                    w1\<lparr>oplog := oplog w1 @ lines\<rparr>))))"

section \<open>The four operations\<close>

definition list_sites_call :: "'c transport \<Rightarrow> (rstr \<Rightarrow> json option) \<Rightarrow> upstream
    \<Rightarrow> ('c, 'z) net_scheme \<Rightarrow> (json, proxy_error) result \<times> ('c, 'z) net_scheme" where
  "list_sites_call tr pj up w = send tr pj up GET (str ''/sites'') None w"

definition list_vouchers_call :: "'c transport \<Rightarrow> (rstr \<Rightarrow> json option) \<Rightarrow> upstream \<Rightarrow> rstr
    \<Rightarrow> ('c, 'z) net_scheme \<Rightarrow> (json, proxy_error) result \<times> ('c, 'z) net_scheme" where
  "list_vouchers_call tr pj up site w =
     (case validate_id site (str ''site id'') of
        Inl e \<Rightarrow> (Err e, w)
      | Inr site \<Rightarrow>
          send tr pj up GET
            (str ''/sites/'' @ site @ str ''/hotspot/vouchers?limit='' @ show_nat VOUCHER_PAGE_LIMIT)
            None w)"

definition create_vouchers_call :: "'c transport \<Rightarrow> (rstr \<Rightarrow> json option) \<Rightarrow> upstream \<Rightarrow> rstr
    \<Rightarrow> json \<Rightarrow> ('c, 'z) net_scheme \<Rightarrow> (json, proxy_error) result \<times> ('c, 'z) net_scheme" where
  "create_vouchers_call tr pj up site body w =
     (case validate_id site (str ''site id'') of
        Inl e \<Rightarrow> (Err e, w)
      | Inr site \<Rightarrow>
          send tr pj up POST (str ''/sites/'' @ site @ str ''/hotspot/vouchers'') (Some body) w)"

definition delete_voucher_call :: "'c transport \<Rightarrow> (rstr \<Rightarrow> json option) \<Rightarrow> upstream \<Rightarrow> rstr
    \<Rightarrow> rstr \<Rightarrow> ('c, 'z) net_scheme \<Rightarrow> (json, proxy_error) result \<times> ('c, 'z) net_scheme" where
  "delete_voucher_call tr pj up site voucher w =
     (case validate_id site (str ''site id'') of
        Inl e \<Rightarrow> (Err e, w)
      | Inr site \<Rightarrow>
          (case validate_id voucher (str ''voucher id'') of
             Inl e \<Rightarrow> (Err e, w)
           | Inr voucher \<Rightarrow>
               send tr pj up DELETE
                 (str ''/sites/'' @ site @ str ''/hotspot/vouchers/'' @ voucher) None w))"

section \<open>Upstream::new\<close>

text \<open>\<open>builds\<close> is the HTTP client builder: \<open>None\<close> on success, the error otherwise.\<close>

definition upstream_new :: "(http_client \<Rightarrow> anyhow option) \<Rightarrow> controller_config \<Rightarrow> nat
    \<Rightarrow> (upstream, anyhow) result" where
  "upstream_new builds cfg timeout =
     and_then (client_config (tls cfg)) (\<lambda>mode.
       let client = \<lparr>client_tls = mode, client_timeout = timeout,
             client_connect_timeout = 10 * 10 ^ 9, client_redirects = RedirectNone\<rparr>
       in and_then
            (with_context (str ''failed to build the upstream HTTP client'')
              (case builds client of None \<Rightarrow> Ok () | Some e \<Rightarrow> Err e))
            (\<lambda>_. Ok \<lparr>up_client = client,
                  up_base = normalize_host (host cfg) @ str ''/proxy/network/integration/v1'',
                  up_api_key = api_key cfg\<rparr>))"

section \<open>Ids\<close>

definition valid_id :: "rstr \<Rightarrow> bool" where
  "valid_id v \<longleftrightarrow> v \<noteq> [] \<and> length v \<le> 128 \<and> list_all id_char v"

lemma id_char_ascii: "id_char c \<Longrightarrow> c < 128"
  by (auto simp: id_char_def ascii_defs)

lemma id_char_plain: "id_char c \<Longrightarrow> c \<noteq> 47 \<and> c \<noteq> 63 \<and> c \<noteq> 46 \<and> c \<noteq> 37 \<and> c \<noteq> 35"
  by (auto simp: id_char_def ascii_defs)

lemma id_bytes: "list_all id_char v \<Longrightarrow> byte_len v = length v"
  by (rule byte_len_ascii) (auto simp: list_all_iff dest: id_char_ascii)

lemma validate_id_Ok_iff [simp]: "validate_id v what = Ok u \<longleftrightarrow> u = v \<and> valid_id v"
  by (auto simp: validate_id_def valid_id_def id_bytes)

lemma validate_id_cases:
  "validate_id v what = (if valid_id v then Ok v else Err (BadRequest (what @
     (if v = [] \<or> byte_len v > 128 then str '' has an implausible length''
      else str '' contains characters that are not allowed''))))"
  by (auto simp: validate_id_def valid_id_def id_bytes)

section \<open>send: what it sends and what it leaves alone\<close>

lemma send_sent [simp]:
  "sent (snd (send tr pj up m p b w)) = sent w @ [build_request up m p b]"
  by (simp add: send_def Let_def split: prod.splits sum.splits)

lemma send_more [simp]: "net.more (snd (send tr pj up m p b w)) = net.more w"
  by (simp add: send_def Let_def split: prod.splits sum.splits)

section \<open>The operations as one specification\<close>

text \<open>
  What an operation is allowed to be, independently of how it is coded: which ids it needs,
  and the one request it stands for.
\<close>

datatype upstream_op =
    OpListSites
  | OpListVouchers rstr
  | OpCreateVouchers rstr json
  | OpDeleteVoucher rstr rstr

fun op_valid :: "upstream_op \<Rightarrow> bool" where
  "op_valid OpListSites = True"
| "op_valid (OpListVouchers s) = valid_id s"
| "op_valid (OpCreateVouchers s b) = valid_id s"
| "op_valid (OpDeleteVoucher s v) = (valid_id s \<and> valid_id v)"

fun op_method :: "upstream_op \<Rightarrow> http_method" where
  "op_method OpListSites = GET"
| "op_method (OpListVouchers s) = GET"
| "op_method (OpCreateVouchers s b) = POST"
| "op_method (OpDeleteVoucher s v) = DELETE"

text \<open>The path as its segments, and the query.\<close>

fun op_segments :: "upstream_op \<Rightarrow> rstr list" where
  "op_segments OpListSites = [str ''sites'']"
| "op_segments (OpListVouchers s) = [str ''sites'', s, str ''hotspot'', str ''vouchers'']"
| "op_segments (OpCreateVouchers s b) = [str ''sites'', s, str ''hotspot'', str ''vouchers'']"
| "op_segments (OpDeleteVoucher s v) = [str ''sites'', s, str ''hotspot'', str ''vouchers'', v]"

fun op_query :: "upstream_op \<Rightarrow> rstr" where
  "op_query (OpListVouchers s) = str ''?limit=1000''"
| "op_query _ = []"

fun op_body :: "upstream_op \<Rightarrow> json option" where
  "op_body (OpCreateVouchers s b) = Some b"
| "op_body _ = None"

definition op_path :: "upstream_op \<Rightarrow> rstr" where
  "op_path op = concat (map (\<lambda>seg. 47 # seg) (op_segments op)) @ op_query op"

definition op_request :: "upstream \<Rightarrow> upstream_op \<Rightarrow> http_request" where
  "op_request up op = build_request up (op_method op) (op_path op) (op_body op)"

text \<open>The coded operation each stands for.\<close>

fun perform :: "'c transport \<Rightarrow> (rstr \<Rightarrow> json option) \<Rightarrow> upstream \<Rightarrow> upstream_op
    \<Rightarrow> ('c, 'z) net_scheme \<Rightarrow> (json, proxy_error) result \<times> ('c, 'z) net_scheme" where
  "perform tr pj up OpListSites w = list_sites_call tr pj up w"
| "perform tr pj up (OpListVouchers s) w = list_vouchers_call tr pj up s w"
| "perform tr pj up (OpCreateVouchers s b) w = create_vouchers_call tr pj up s b w"
| "perform tr pj up (OpDeleteVoucher s v) w = delete_voucher_call tr pj up s v w"

lemma show_page_limit: "show_nat VOUCHER_PAGE_LIMIT = str ''1000''"
  by (simp add: VOUCHER_PAGE_LIMIT_def show_nat.simps str_def)

lemma op_paths:
  "op_path OpListSites = str ''/sites''"
  "op_path (OpListVouchers s) =
     str ''/sites/'' @ s @ str ''/hotspot/vouchers?limit='' @ show_nat VOUCHER_PAGE_LIMIT"
  "op_path (OpCreateVouchers s b) = str ''/sites/'' @ s @ str ''/hotspot/vouchers''"
  "op_path (OpDeleteVoucher s v) = str ''/sites/'' @ s @ str ''/hotspot/vouchers/'' @ v"
  by (simp_all add: op_path_def show_page_limit) (simp_all add: str_def)

lemma perform_valid:
  "op_valid op \<Longrightarrow>
     perform tr pj up op w = send tr pj up (op_method op) (op_path op) (op_body op) w"
  by (cases op)
     (simp_all add: op_paths list_sites_call_def list_vouchers_call_def create_vouchers_call_def
       delete_voucher_call_def validate_id_cases)

lemma perform_invalid:
  "\<not> op_valid op \<Longrightarrow> \<exists>m. perform tr pj up op w = (Err (BadRequest m), w)"
  by (cases op)
     (auto simp: list_vouchers_call_def create_vouchers_call_def delete_voucher_call_def
       validate_id_cases)

lemma perform_sent:
  "sent (snd (perform tr pj up op w)) = sent w @ (if op_valid op then [op_request up op] else [])"
proof (cases "op_valid op")
  case True
  then show ?thesis by (simp add: perform_valid op_request_def)
next
  case False
  then obtain m where "perform tr pj up op w = (Err (BadRequest m), w)"
    using perform_invalid by blast
  with False show ?thesis by simp
qed

lemma perform_more [simp]: "net.more (snd (perform tr pj up op w)) = net.more w"
  by (cases "op_valid op") (use perform_invalid [of op tr pj up w] in \<open>auto simp: perform_valid\<close>)

end
