(* ===== verification/Controller_Laws.thy ===== *)
theory Controller_Laws
  imports Controller_Client
begin

text \<open>
  What the controller client guarantees whatever the caller supplied and whatever the
  controller answered: requests stay inside the voucher namespace and identify the operation
  that made them, error texts are bounded and say nothing of a server error's body, and a
  configuration that does not ask for plaintext never produces a plaintext URL.
\<close>

section \<open>Splitting a path\<close>

fun split_on :: "nat \<Rightarrow> rstr \<Rightarrow> rstr list" where
  "split_on d [] = [[]]"
| "split_on d (c # s) =
     (if c = d then [] # split_on d s
      else (case split_on d s of [] \<Rightarrow> [[c]] | x # xs \<Rightarrow> (c # x) # xs))"

lemma split_on_not_Nil [simp]: "split_on d s \<noteq> []"
  by (induction d s rule: split_on.induct) (auto split: list.splits)

lemma split_on_append: "d \<notin> set a \<Longrightarrow> split_on d (a @ d # s) = a # split_on d s"
  by (induction a) auto

lemma split_on_plain: "d \<notin> set a \<Longrightarrow> split_on d a = [a]"
  by (induction a) auto

lemma split_on_segments:
  "segs \<noteq> [] \<Longrightarrow> list_all (\<lambda>seg. d \<notin> set seg) segs \<Longrightarrow>
     split_on d (concat (map (\<lambda>seg. d # seg) segs)) = [] # segs"
proof (induction segs)
  case Nil
  then show ?case by simp
next
  case (Cons a segs)
  show ?case
  proof (cases segs)
    case Nil
    with Cons.prems show ?thesis by (simp add: split_on_plain)
  next
    case (Cons b rest)
    with Cons.IH Cons.prems have "split_on d (concat (map (\<lambda>seg. d # seg) segs)) = [] # segs"
      by simp
    with Cons Cons.prems show ?thesis by (simp add: split_on_append)
  qed
qed

section \<open>Operations stay inside the namespace\<close>

lemma str_plain_segments:
  "list_all id_char (str ''sites'')" "list_all id_char (str ''hotspot'')"
  "list_all id_char (str ''vouchers'')"
  by (simp_all add: str_def id_char_def ascii_defs)

lemma op_segments_plain: "op_valid op \<Longrightarrow> list_all (\<lambda>seg. seg \<noteq> [] \<and> list_all id_char seg) (op_segments op)"
  by (cases op) (simp_all add: str_plain_segments valid_id_def)

lemma op_segments_not_Nil [simp]: "op_segments op \<noteq> []"
  by (cases op) simp_all

lemma op_query_shape: "op_query op = [] \<or> (\<exists>q. op_query op = 63 # q)"
  by (cases op) (auto simp: str_def)

lemma takeWhile_query:
  "63 \<notin> set p \<Longrightarrow> takeWhile (\<lambda>c. c \<noteq> 63) (p @ op_query op) = p
                 \<and> dropWhile (\<lambda>c. c \<noteq> 63) (p @ op_query op) = op_query op"
  using op_query_shape [of op]
  by (auto simp: takeWhile_append dropWhile_append)

lemma op_path_parses:
  assumes "op_valid op"
  shows "split_on 47 (takeWhile (\<lambda>c. c \<noteq> 63) (op_path op)) = [] # op_segments op"
    and "dropWhile (\<lambda>c. c \<noteq> 63) (op_path op) = op_query op"
proof -
  let ?p = "concat (map (\<lambda>seg. 47 # seg) (op_segments op))"
  have "list_all (list_all id_char) (op_segments op)"
    using op_segments_plain [OF assms] by (auto simp: list_all_iff)
  then have q: "63 \<notin> set ?p" and s: "list_all (\<lambda>seg. 47 \<notin> set seg) (op_segments op)"
    by (auto simp: list_all_iff dest: id_char_plain)
  show "split_on 47 (takeWhile (\<lambda>c. c \<noteq> 63) (op_path op)) = [] # op_segments op"
    using takeWhile_query [OF q, of op] split_on_segments [OF _ s] by (simp add: op_path_def)
  show "dropWhile (\<lambda>c. c \<noteq> 63) (op_path op) = op_query op"
    using takeWhile_query [OF q, of op] by (simp add: op_path_def)
qed

lemma perform_one_request:
  "op_valid op \<Longrightarrow> sent (snd (perform tr pj up op w)) = sent w @ [op_request up op]"
  "\<not> op_valid op \<Longrightarrow> sent (snd (perform tr pj up op w)) = sent w"
  by (simp_all add: perform_sent)

lemma op_request_fields [simp]:
  "req_method (op_request up op) = op_method op" "req_body (op_request up op) = op_body op"
  "req_url (op_request up op) = up_base up @ op_path op"
  by (simp_all add: op_request_def build_request_def)

lemma op_request_inj:
  assumes "op_valid a" and "op_valid b" and "op_request up a = op_request up b"
  shows "a = b"
proof -
  from assms(3) have path: "op_path a = op_path b" and m: "op_method a = op_method b"
    and body: "op_body a = op_body b"
    by (metis append_same_eq op_request_fields(3) same_append_eq, metis op_request_fields(1),
        metis op_request_fields(2))
  from path op_path_parses [OF assms(1)] op_path_parses [OF assms(2)]
  have "op_segments a = op_segments b" by simp
  with m body show ?thesis by (cases a; cases b) auto
qed

section \<open>Texts from the controller\<close>

definition is_clamped :: "rstr \<Rightarrow> bool" where
  "is_clamped s \<longleftrightarrow> list_all (\<lambda>c. \<not> is_control c) s \<and> trim s = s \<and>
     (length s \<le> 200 \<or> length s = 201 \<and> last s = 8230)"

lemma clean_no_control:
  "list_all (\<lambda>c. \<not> is_control c) (map (\<lambda>c. if is_control c then 32 else c) raw)"
  by (auto simp: list_all_iff is_control_def)

lemma clean_id:
  "list_all (\<lambda>c. \<not> is_control c) s \<Longrightarrow> map (\<lambda>c. if is_control c then 32 else c) s = s"
  by (induction s) auto

lemma list_all_trim: "list_all P s \<Longrightarrow> list_all P (trim s)"
  using set_trim [of s] by (auto simp: list_all_iff)

lemma list_all_take: "list_all P s \<Longrightarrow> list_all P (take n s)"
  by (auto simp: list_all_iff dest: in_set_takeD)

lemma trim_cut:
  assumes "trim t = t" and "200 < length t"
  shows "trim (take 200 t @ [8230]) = take 200 t @ [8230]"
proof -
  have "t \<noteq> []" and hd: "hd (take 200 t @ [8230]) = hd t"
    using assms(2) by (auto simp: hd_append)
  then have "\<not> is_whitespace (hd t)" using trim_hd [of t] assms(1) by auto
  then have "trim_start (take 200 t @ [8230]) = take 200 t @ [8230]"
    using hd by (intro trim_start_id) simp
  moreover have "trim_end (take 200 t @ [8230]) = take 200 t @ [8230]"
    by (rule trim_end_id) (simp add: is_whitespace_def)
  ultimately show ?thesis by (simp add: trim_def)
qed

lemma clamp_is_clamped: "is_clamped (clamp raw)"
proof -
  let ?t = "trim (map (\<lambda>c. if is_control c then 32 else c) raw)"
  have nc: "list_all (\<lambda>c. \<not> is_control c) ?t"
    by (rule list_all_trim) (rule clean_no_control)
  show ?thesis
  proof (cases "200 < length ?t")
    case True
    then have "clamp raw = take 200 ?t @ [8230]" by (simp add: clamp_def Let_def)
    moreover have "trim (take 200 ?t @ [8230]) = take 200 ?t @ [8230]"
      by (rule trim_cut) (use True in simp_all)
    ultimately show ?thesis
      using True list_all_take [OF nc, of 200] by (simp add: is_clamped_def is_control_def)
  next
    case False
    then show ?thesis using nc by (simp add: is_clamped_def clamp_def Let_def)
  qed
qed

lemma clamp_fixed: "is_clamped s \<Longrightarrow> clamp s = s"
proof -
  assume s: "is_clamped s"
  then have eq: "trim (map (\<lambda>c. if is_control c then 32 else c) s) = s"
    by (simp add: is_clamped_def clean_id)
  show ?thesis
  proof (cases "length s = 201")
    case True
    then have "length (drop 200 s) = 1" by simp
    then obtain x where x: "drop 200 s = [x]" by (cases "drop 200 s") auto
    have "s = take 200 s @ [x]" using append_take_drop_id [of 200 s] x by simp
    then have "s = take 200 s @ [last s]" by (metis last_snoc)
    with s True show ?thesis by (simp add: clamp_def eq is_clamped_def)
  next
    case False
    with s show ?thesis by (auto simp: clamp_def eq is_clamped_def)
  qed
qed

interpretation clamped: canonical_form "\<lambda>s. Some (clamp s)" is_clamped
  by unfold_locales (auto simp: clamp_is_clamped clamp_fixed)


section \<open>Hosts\<close>

lemma lower_http: "prefix (str ''http://'') s \<Longrightarrow> prefix (str ''http://'') (to_ascii_lowercase s)"
proof -
  assume "prefix (str ''http://'') s"
  then obtain r where "s = str ''http://'' @ r" by (auto simp: prefix_def)
  moreover have "to_ascii_lowercase (str ''http://'') = str ''http://''"
    by (simp add: to_ascii_lowercase_def str_def to_ascii_lower_def is_ascii_uppercase_def)
  ultimately show ?thesis by (simp add: to_ascii_lowercase_def)
qed

lemma normalize_host_https:
  assumes "\<not> is_plaintext c"
  shows "prefix (str ''https://'') (normalize_host (host c))"
proof -
  let ?h = "trim_end_matches (\<lambda>c. c = 47) (trim (host c))"
  have "\<not> prefix (str ''http://'') ?h"
    using assms trim_end_matches_prefix [of "\<lambda>c. c = 47" "trim (host c)"] lower_http
    by (auto simp: is_plaintext_def starts_with_def intro: prefix_order.trans)
  then show ?thesis by (auto simp: normalize_host_def Let_def starts_with_def)
qed

lemma upstream_new_fields:
  assumes "upstream_new bld cfg t = Ok up"
  shows "up_base up = normalize_host (host cfg) @ str ''/proxy/network/integration/v1''"
    and "up_api_key up = api_key cfg"
    and "client_redirects (up_client up) = RedirectNone"
    and "client_config (tls cfg) = Ok (client_tls (up_client up))"
    and "client_timeout (up_client up) = t"
  using assms by (auto simp: upstream_new_def and_then_Ok_iff with_context_Ok_iff Let_def)

section \<open>Properties\<close>

text \<open>
  C12. An operation reaches the controller as one request inside the voucher namespace or not at
  all: with valid ids exactly one request goes out, whose path splits at the slashes into the
  operation's own segments, each non-empty and made of letters, digits, hyphens and underscores,
  followed by the operation's own query; with any other id nothing is sent, the world is
  unchanged and the answer is a 400.
\<close>

theorem operations_are_contained:
  "sent (snd (perform tr pj up op w)) = sent w @ (if op_valid op then [op_request up op] else []) \<and>
   req_url (op_request up op) = up_base up @ op_path op \<and>
   (if op_valid op then
      split_on 47 (takeWhile (\<lambda>c. c \<noteq> 63) (op_path op)) = [] # op_segments op \<and>
      list_all (\<lambda>seg. seg \<noteq> [] \<and> list_all id_char seg) (op_segments op) \<and>
      dropWhile (\<lambda>c. c \<noteq> 63) (op_path op) = op_query op
    else snd (perform tr pj up op w) = w \<and>
      (case fst (perform tr pj up op w) of Err e \<Rightarrow> status e = 400 | Ok v \<Rightarrow> False))"
proof (cases "op_valid op")
  case True
  then show ?thesis using op_path_parses [OF True] op_segments_plain [OF True] by (simp add: perform_sent)
next
  case False
  then obtain m where "perform tr pj up op w = (Err (BadRequest m), w)" using perform_invalid by blast
  with False show ?thesis by simp
qed

text \<open>
  The request on the wire determines the operation: two operations with valid ids that
  produce the same request are the same operation on the same ids with the same body.
\<close>

theorem request_determines_operation:
  assumes "op_valid a" and "op_valid b" and "op_request up a = op_request up b"
  shows "a = b"
  using assms by (rule op_request_inj)

theorem request_determines_operation_witness:
  "OpDeleteVoucher [97] [98] = OpDeleteVoucher [97] [98]"
  by (rule request_determines_operation [where up = "\<lparr>up_client = \<lparr>client_tls = WebPki,
        client_timeout = 0, client_connect_timeout = 0, client_redirects = RedirectNone\<rparr>, up_base = [],
        up_api_key = Secret []\<rparr>"])
     (simp_all add: valid_id_def id_char_def ascii_defs)






lemma normalize_host_scheme:
  "prefix (str ''https://'') (normalize_host raw) \<or> prefix (str ''http://'') (normalize_host raw)"
  by (auto simp: normalize_host_def Let_def starts_with_def)

lemma op_path_in_sites: "prefix (str ''/sites'') (op_path op)"
  by (cases op) (simp_all add: op_paths str_def)

text \<open>
  C13. The controller's key goes where the operator said, and unencrypted only if the operator said so.
  With a client built from a configuration \<open>load\<close> accepted, an operation adds at most one request to
  what was sent; its URL starts with the configured host and the Integration API's sites, its scheme is
  \<open>https\<close> unless the configuration allows plaintext, it carries the configured key and nothing of the
  caller's headers, and the client follows no redirect that could take the key to another host.
\<close>

theorem key_goes_where_configured:
  assumes "load ex xt path = Ok cfg" and "upstream_new builds (cfg_controller cfg) timeout = Ok up"
    and "perform tr pj up op w = (r, w')"
  shows "\<exists>qs. sent w' = sent w @ qs \<and> length qs \<le> 1 \<and>
    list_all (\<lambda>q.
      prefix (normalize_host (host (cfg_controller cfg)) @ str ''/proxy/network/integration/v1/sites'') (req_url q) \<and>
      (prefix (str ''https://'') (req_url q) \<or>
       allow_plaintext (tls (cfg_controller cfg)) \<and> prefix (str ''http://'') (req_url q)) \<and>
      req_headers q = [(str ''X-API-KEY'', expose (api_key (cfg_controller cfg))),
        (str ''Accept'', str ''application/json'')]) qs \<and>
    client_redirects (up_client up) = RedirectNone"
proof -
  let ?h = "normalize_host (host (cfg_controller cfg))" and ?q = "op_request up op"
  note fields = upstream_new_fields [OF assms(2)]
  have url: "req_url ?q = ?h @ str ''/proxy/network/integration/v1'' @ op_path op"
    by (simp add: op_request_def build_request_def fields)
  have api: "str ''/proxy/network/integration/v1/sites'' = str ''/proxy/network/integration/v1'' @ str ''/sites''"
    by (simp add: str_def)
  have root: "prefix (?h @ str ''/proxy/network/integration/v1/sites'') (req_url ?q)"
    using op_path_in_sites [of op] unfolding url api by simp
  have "prefix (str ''https://'') ?h \<or> allow_plaintext (tls (cfg_controller cfg)) \<and> prefix (str ''http://'') ?h"
  proof (cases "is_plaintext (cfg_controller cfg)")
    case True
    then have "allow_plaintext (tls (cfg_controller cfg))"
      using assms(1) by (simp add: load_Ok_iff valid_config_def)
    then show ?thesis using normalize_host_scheme by blast
  next
    case False
    then show ?thesis by (blast intro: normalize_host_https)
  qed
  then have scheme: "prefix (str ''https://'') (req_url ?q) \<or>
      allow_plaintext (tls (cfg_controller cfg)) \<and> prefix (str ''http://'') (req_url ?q)"
    using prefixI [OF url] prefix_order.trans by blast
  have hs: "req_headers ?q = [(str ''X-API-KEY'', expose (api_key (cfg_controller cfg))),
      (str ''Accept'', str ''application/json'')]"
    by (simp add: op_request_def build_request_def fields)
  have "sent w' = sent w @ (if op_valid op then [?q] else [])"
    using perform_sent [of tr pj up op w] assms(3) by simp
  with root scheme hs fields show ?thesis
    by (intro exI [where x = "if op_valid op then [?q] else []"]) simp
qed

text \<open>
  \<open>clamp\<close> is a canonical form: what it returns has no control characters, no space at either
  end, and at most 200 characters and an ellipsis; and a text is left alone exactly when it is
  of that form.
\<close>

theorem clamp_canonical:
  "is_clamped (clamp raw) \<and> (clamp raw = raw \<longleftrightarrow> is_clamped raw) \<and> clamp (clamp raw) = clamp raw"
  using clamp_is_clamped [of raw] clamp_fixed [of raw] clamp_fixed [of "clamp raw"] by metis

end
