(* ===== verification/App_State.thy ===== *)
theory App_State
  imports Client_Auth Rate_Limits Metrics_Counters Audit_Log Voucher_Policy Controller_Laws
begin

text \<open>
  \<open>src/state.rs\<close>: what a reload replaces, the state the requests share, and the extraction of
  an authenticated \<open>Caller\<close>. \<open>ArcSwap<Live>\<close> is a store of every \<open>Live\<close> built so far with the
  index of the current one: a guard taken with \<open>live()\<close> is an index, and keeps naming the same
  \<open>Live\<close> when a reload swaps the current one. The world extends what the controller client sees
  with that store, the counters, the audit log and the wall clock; \<open>charged\<close> and \<open>argon\<close> are
  history variables: the tokens whose quota was spent, and the hashes Argon2 ran on, in order.
\<close>

section \<open>Third-party code\<close>

record ('c, 'l, 'k) lib =
  lib_transport :: "'c transport"
  lib_parse_json :: "rstr \<Rightarrow> json option"
  lib_json_text :: "json \<Rightarrow> rstr"
  lib_from_value :: "json \<Rightarrow> (create_voucher_request, rstr) result"
  lib_to_value :: "create_voucher_request \<Rightarrow> (json, rstr) result"
  lib_governor :: "('l, 'k) governor"
  lib_sha256 :: "rstr \<Rightarrow> digest"
  lib_verify :: "rstr \<Rightarrow> rstr \<Rightarrow> bool"
  lib_phc :: "rstr \<Rightarrow> (rstr, rstr) result"
  lib_builds :: "http_client \<Rightarrow> anyhow option"
  lib_rfc3339 :: "int \<Rightarrow> rstr option"

section \<open>Live and AppState\<close>

record ('l, 'k) live =
  lv_auth :: authenticator
  lv_upstream :: upstream
  lv_limits :: limits
  lv_rate :: "('l, 'k) rate_limits"
  lv_token_count :: nat

definition live_build :: "('c, 'l, 'k) lib \<Rightarrow> nat \<Rightarrow> config \<Rightarrow> (('l, 'k) live, anyhow) result" where
  "live_build lib now cfg =
     and_then (authenticator_new (lib_phc lib) (cfg_tokens cfg)) (\<lambda>auth.
     and_then (upstream_new (lib_builds lib) (cfg_controller cfg)
         (upstream_timeout (cfg_server cfg))) (\<lambda>up.
       Ok \<lparr>lv_auth = auth, lv_upstream = up, lv_limits = cfg_limits cfg,
           lv_rate = rates_from_config (lib_governor lib) now cfg,
           lv_token_count = length (cfg_tokens cfg)\<rparr>))"

record ('c, 'l, 'k) world = "'c net" +
  lives :: "('l, 'k) live list"
  current :: nat
  counters :: metrics
  config_path :: "rstr option"
  audit :: "audit_line list"
  wall :: int
  charged :: "rstr list"
  argon :: "rstr list"

definition live_at :: "('c, 'l, 'k) world \<Rightarrow> nat \<Rightarrow> ('l, 'k) live" where
  "live_at w i = lives w ! i"

definition current_live :: "('c, 'l, 'k) world \<Rightarrow> ('l, 'k) live" where
  "current_live w = live_at w (current w)"

definition update_live :: "nat \<Rightarrow> (('l, 'k) live \<Rightarrow> ('l, 'k) live) \<Rightarrow> ('c, 'l, 'k) world
    \<Rightarrow> ('c, 'l, 'k) world" where
  "update_live i f w = w\<lparr>lives := (lives w)[i := f (lives w ! i)]\<rparr>"

text \<open>\<open>AppState::with_path\<close> in a fresh process: the controller as it is, everything else empty.\<close>

definition with_path :: "('c, 'l, 'k) lib \<Rightarrow> config \<Rightarrow> rstr option \<Rightarrow> 'c \<Rightarrow> nat \<Rightarrow> int
    \<Rightarrow> (('c, 'l, 'k) world, anyhow) result" where
  "with_path lib cfg path c now today =
     and_then (live_build lib now cfg) (\<lambda>lv.
       Ok \<lparr>console = c, sent = [], oplog = [], mono = now, lives = [lv], current = 0,
           counters = metrics_default, config_path = path, audit = [], wall = today,
           charged = [], argon = []\<rparr>)"

text \<open>
  \<open>reload\<close>: \<open>ex\<close> and \<open>xt\<close> are the file system and figment at that moment. Storing the new
  \<open>Live\<close> appends it and makes it current; on any error the world is the one before.
\<close>

definition reload :: "('c, 'l, 'k) lib \<Rightarrow> (rstr \<Rightarrow> bool) \<Rightarrow> (rstr option \<Rightarrow> (config, anyhow) result)
    \<Rightarrow> ('c, 'l, 'k) world \<Rightarrow> (nat, anyhow) result \<times> ('c, 'l, 'k) world" where
  "reload lib ex xt w =
     (case config_path w of
        None \<Rightarrow> (Err [str ''no config file to reload '' @ em_dash
            @ str '' this proxy was configured from the environment''], w)
      | Some path \<Rightarrow>
          (case and_then
              (with_context (str ''reload rejected, keeping the previous config'')
                (load ex xt (Some path)))
              (\<lambda>cfg. with_context (str ''reload rejected, keeping the previous config'')
                (live_build lib (mono w) cfg)) of
             Err e \<Rightarrow> (Err e, w)
           | Ok lv \<Rightarrow> (Ok (lv_token_count lv),
               w\<lparr>lives := lives w @ [lv], current := length (lives w)\<rparr>)))"

section \<open>Caller\<close>

record caller =
  caller_token :: token_config
  caller_ceilings :: ceilings

definition caller_name :: "caller \<Rightarrow> rstr" where
  "caller_name c = tok_name (caller_token c)"

definition require_scope :: "caller \<Rightarrow> scope \<Rightarrow> (unit, proxy_error) result" where
  "require_scope c sc =
     (if has_scope (caller_token c) sc then Ok ()
      else Err (Forbidden (str ''token '' @ [39] @ caller_name c @ [39]
        @ str '' does not carry the '' @ scope_as_str sc @ str '' scope'')))"

definition require_site :: "caller \<Rightarrow> rstr \<Rightarrow> (unit, proxy_error) result" where
  "require_site c s =
     (if allows_site (caller_token c) s then Ok ()
      else Err (Forbidden (str ''token '' @ [39] @ caller_name c @ [39]
        @ str '' is not allowed to use site '' @ [39] @ s @ [39])))"

text \<open>\<open>charge\<close> spends from the budgets of the \<open>Live\<close> the handler holds, index \<open>li\<close>.\<close>

definition charge :: "('c, 'l, 'k) lib \<Rightarrow> nat \<Rightarrow> caller \<Rightarrow> rstr \<Rightarrow> ('c, 'l, 'k) world
    \<Rightarrow> (unit, proxy_error) result \<times> ('c, 'l, 'k) world" where
  "charge lib li c action w =
     (let (admitted, rate) = check (lib_governor lib) (mono w) (caller_name c) (lv_rate (live_at w li));
          w1 = update_live li (\<lambda>lv. lv\<lparr>lv_rate := rate\<rparr>) w
      in if admitted then (Ok (), w1\<lparr>charged := charged w1 @ [caller_name c]\<rparr>)
         else (Err RateLimited, w1\<lparr>audit := audit w1 @ [rejected action (str ''rate_limited'') 429]\<rparr>))"

section \<open>Extraction\<close>

text \<open>The head of a request, with the extensions the server and the router add.\<close>

record parts =
  pt_method :: http_method
  pt_path :: rstr
  pt_headers :: headers
  pt_peer :: "socket_addr option"
  pt_matched :: "rstr option"

definition matched_route :: "parts \<Rightarrow> rstr" where
  "matched_route p = unwrap_or (pt_matched p) (str ''unmatched'')"

text \<open>The three lines every refused extraction writes: audit, metrics, error.\<close>

definition refuse :: "parts \<Rightarrow> rstr \<Rightarrow> rstr \<Rightarrow> nat \<Rightarrow> proxy_error \<Rightarrow> ('c, 'l, 'k) world
    \<Rightarrow> (caller, proxy_error) result \<times> ('c, 'l, 'k) world" where
  "refuse p who reason st e w =
     (Err e, w\<lparr>audit := audit w @ [rejected (pt_path p) reason st],
               counters := record_request who (matched_route p) reason (counters w)\<rparr>)"

definition caller_ceilings_for :: "token_config \<Rightarrow> limits \<Rightarrow> ceilings" where
  "caller_ceilings_for t g =
     \<lparr>max_vouchers = effective_max_vouchers t g, max_validity = effective_max_validity t g\<rparr>"

definition from_request_parts :: "('c, 'l, 'k) lib \<Rightarrow> parts \<Rightarrow> ('c, 'l, 'k) world
    \<Rightarrow> (caller, proxy_error) result \<times> ('c, 'l, 'k) world" where
  "from_request_parts lib p w =
     (let li = current w;
          (ip_ok, w1) = (case pt_peer p of
             None \<Rightarrow> (True, w)
           | Some (ip, port) \<Rightarrow>
               (let (b, rate) = check_ip (lib_governor lib) (mono w) ip (lv_rate (live_at w li))
                in (b, update_live li (\<lambda>lv. lv\<lparr>lv_rate := rate\<rparr>) w)))
      in if \<not> ip_ok then refuse p (str ''-'') (str ''ip_rate_limited'') 429 RateLimited w1
         else (case token_from_headers (pt_headers p) of
            None \<Rightarrow> refuse p (str ''-'') (str ''missing_token'') 401 Unauthorized w1
          | Some presented \<Rightarrow>
              (let (found, auth, calls) = authenticate (lib_sha256 lib) (lib_verify lib)
                     (lv_auth (live_at w1 li)) presented;
                   w2 = (update_live li (\<lambda>lv. lv\<lparr>lv_auth := auth\<rparr>) w1)\<lparr>argon := argon w1 @ calls\<rparr>
               in case found of
                    None \<Rightarrow> refuse p (str ''-'') (str ''unknown_token'') 401 Unauthorized w2
                  | Some t \<Rightarrow>
                      (case (case tok_expires_at t of
                               Some expiry \<Rightarrow> if is_expired_at t (wall w2) then Some expiry else None
                             | None \<Rightarrow> None) of
                         Some expiry \<Rightarrow>
                           refuse p (tok_name t) (str ''token_expired'') 401
                             (TokenExpired (unwrap_or (lib_rfc3339 lib expiry)
                               (str ''an earlier date''))) w2
                       | None \<Rightarrow>
                           (Ok \<lparr>caller_token = t, caller_ceilings =
                               caller_ceilings_for t (lv_limits (live_at w2 li))\<rparr>, w2)))))"

end
