(* ===== verification/State_Laws.thy ===== *)
theory State_Laws
  imports App_State
begin

text \<open>
  What the operations of \<open>App_State\<close> keep: every \<open>Live\<close> ever built stays in the store with its
  tokens, its upstream and its limits; the logs only grow; the memo of each authenticator stays
  sound. And what an extracted caller is entitled to.
\<close>

section \<open>Growth of the world\<close>

definition same_live :: "('l, 'k) live \<Rightarrow> ('l, 'k) live \<Rightarrow> bool" where
  "same_live a b \<longleftrightarrow> auth_tokens (lv_auth b) = auth_tokens (lv_auth a) \<and>
     lv_upstream b = lv_upstream a \<and> lv_limits b = lv_limits a \<and>
     lv_token_count b = lv_token_count a \<and>
     dom (limiters (lv_rate b)) = dom (limiters (lv_rate a))"

definition grows :: "('c, 'l, 'k) world \<Rightarrow> ('c, 'l, 'k) world \<Rightarrow> bool" where
  "grows w w' \<longleftrightarrow> length (lives w) \<le> length (lives w') \<and>
     (\<forall>i < length (lives w). same_live (lives w ! i) (lives w' ! i)) \<and>
     prefix (sent w) (sent w') \<and> prefix (audit w) (audit w') \<and>
     prefix (charged w) (charged w') \<and> config_path w' = config_path w"

definition wf_world :: "('c, 'l, 'k) lib \<Rightarrow> ('c, 'l, 'k) world \<Rightarrow> bool" where
  "wf_world lib w \<longleftrightarrow> current w < length (lives w) \<and> wf_metrics (counters w) \<and>
     (\<forall>lv \<in> set (lives w). memo_inv (lib_sha256 lib) (lib_verify lib) UNIV (lv_auth lv))"

lemma same_live_refl [simp]: "same_live a a"
  by (simp add: same_live_def)

lemma same_live_trans: "same_live a b \<Longrightarrow> same_live b c \<Longrightarrow> same_live a c"
  by (simp add: same_live_def)

lemma grows_refl [simp]: "grows w w"
  by (simp add: grows_def)

lemma grows_trans: "grows u v \<Longrightarrow> grows v w \<Longrightarrow> grows u w"
  unfolding grows_def
  by (auto intro: same_live_trans order_less_le_trans prefix_order.trans)

lemma grows_live: "grows w w' \<Longrightarrow> i < length (lives w) \<Longrightarrow> same_live (live_at w i) (live_at w' i)"
  by (simp add: grows_def live_at_def)

lemma grows_length: "grows w w' \<Longrightarrow> length (lives w) \<le> length (lives w')"
  by (simp add: grows_def)

text \<open>Changing the fields \<open>grows\<close> and \<open>wf_world\<close> do not look at, or appending to a log.\<close>

lemma update_live_fields [simp]:
  "sent (update_live i f w) = sent w" "audit (update_live i f w) = audit w"
  "charged (update_live i f w) = charged w" "argon (update_live i f w) = argon w"
  "counters (update_live i f w) = counters w" "current (update_live i f w) = current w"
  "wall (update_live i f w) = wall w" "mono (update_live i f w) = mono w"
  "oplog (update_live i f w) = oplog w" "console (update_live i f w) = console w"
  "config_path (update_live i f w) = config_path w"
  "length (lives (update_live i f w)) = length (lives w)"
  by (simp_all add: update_live_def)

lemma live_at_update [simp]:
  "i < length (lives w) \<Longrightarrow> live_at (update_live i f w) j = (if j = i then f (live_at w i) else live_at w j)"
  by (simp add: live_at_def update_live_def)

lemma live_at_log [simp]:
  "live_at (w\<lparr>audit := x\<rparr>) i = live_at w i" "live_at (w\<lparr>counters := m\<rparr>) i = live_at w i"
  "live_at (w\<lparr>charged := y\<rparr>) i = live_at w i" "live_at (w\<lparr>argon := z\<rparr>) i = live_at w i"
  by (simp_all add: live_at_def)

lemma grows_update:
  "(i < length (lives w) \<Longrightarrow> same_live (live_at w i) (f (live_at w i))) \<Longrightarrow> grows w (update_live i f w)"
  by (cases "i < length (lives w)")
     (auto simp: grows_def update_live_def live_at_def nth_list_update)

lemma grows_logs [simp]:
  "grows w w' \<Longrightarrow> grows w (w'\<lparr>audit := audit w' @ x\<rparr>)"
  "grows w (w'\<lparr>counters := m\<rparr>) \<longleftrightarrow> grows w w'"
  "grows w (w'\<lparr>argon := z\<rparr>) \<longleftrightarrow> grows w w'"
  "grows w w' \<Longrightarrow> grows w (w'\<lparr>charged := charged w' @ y\<rparr>)"
  by (auto simp: grows_def)

lemma wf_world_logs [simp]:
  "wf_world lib (w\<lparr>audit := x\<rparr>) = wf_world lib w"
  "wf_world lib (w\<lparr>charged := y\<rparr>) = wf_world lib w"
  "wf_world lib (w\<lparr>argon := z\<rparr>) = wf_world lib w"
  by (simp_all add: wf_world_def)

lemma wf_world_counters [simp]:
  "wf_world lib w \<Longrightarrow> wf_metrics m \<Longrightarrow> wf_world lib (w\<lparr>counters := m\<rparr>)"
  by (simp add: wf_world_def)

lemma wf_worldD:
  assumes "wf_world lib w"
  shows "current w < length (lives w)" and "wf_metrics (counters w)"
    and "i < length (lives w) \<Longrightarrow> memo_inv (lib_sha256 lib) (lib_verify lib) UNIV (lv_auth (live_at w i))"
  using assms by (simp_all add: wf_world_def live_at_def)

lemma wf_world_update:
  assumes "wf_world lib w"
    and "i < length (lives w) \<Longrightarrow>
      memo_inv (lib_sha256 lib) (lib_verify lib) UNIV (lv_auth (f (live_at w i)))"
  shows "wf_world lib (update_live i f w)"
proof (cases "i < length (lives w)")
  case True
  with assms(2) have "memo_inv (lib_sha256 lib) (lib_verify lib) UNIV (lv_auth (f (lives w ! i)))"
    by (simp add: live_at_def)
  with assms(1) show ?thesis
    by (auto simp: wf_world_def update_live_def dest!: set_update_subset_insert [THEN subsetD])
next
  case False
  then have "(lives w)[i := f (lives w ! i)] = lives w" by (intro list_update_beyond) simp
  with assms(1) show ?thesis by (simp add: wf_world_def update_live_def)
qed

section \<open>Changes of the budgets and of the memo\<close>

lemma check_dom [simp]: "dom (limiters (snd (check gov now n r))) = dom (limiters r)"
  by (auto simp: check_def split: option.splits prod.splits)

lemma check_ip_limiters [simp]: "limiters (snd (check_ip gov now ip r)) = limiters r"
  by (auto simp: check_ip_def Let_def split: option.splits prod.splits)

lemma grows_rate:
  "dom (limiters rate) = dom (limiters (lv_rate (live_at w i))) \<Longrightarrow>
     grows w (update_live i (\<lambda>lv. lv\<lparr>lv_rate := rate\<rparr>) w)"
  by (rule grows_update) (simp add: same_live_def)

lemma grows_auth:
  "auth_tokens a = auth_tokens (lv_auth (live_at w i)) \<Longrightarrow>
     grows w (update_live i (\<lambda>lv. lv\<lparr>lv_auth := a\<rparr>) w)"
  by (rule grows_update) (simp add: same_live_def)

lemma wf_world_rate:
  "wf_world lib w \<Longrightarrow> wf_world lib (update_live i (\<lambda>lv. lv\<lparr>lv_rate := rate\<rparr>) w)"
  by (rule wf_world_update) (simp_all add: wf_worldD)

lemma wf_world_auth:
  "wf_world lib w \<Longrightarrow> memo_inv (lib_sha256 lib) (lib_verify lib) UNIV a \<Longrightarrow>
     wf_world lib (update_live i (\<lambda>lv. lv\<lparr>lv_auth := a\<rparr>) w)"
  by (rule wf_world_update) simp_all

section \<open>charge\<close>

definition quota_allows :: "('c, 'l, 'k) lib \<Rightarrow> nat \<Rightarrow> caller \<Rightarrow> ('c, 'l, 'k) world \<Rightarrow> bool" where
  "quota_allows lib li c w \<longleftrightarrow>
     fst (check (lib_governor lib) (mono w) (caller_name c) (lv_rate (live_at w li)))"

lemma charge_result:
  "fst (charge lib li c a w) = (if quota_allows lib li c w then Ok () else Err RateLimited)"
  by (simp add: charge_def quota_allows_def Let_def split: prod.splits)

lemma charge_frame [simp]:
  "sent (snd (charge lib li c a w)) = sent w" "current (snd (charge lib li c a w)) = current w"
  "counters (snd (charge lib li c a w)) = counters w" "wall (snd (charge lib li c a w)) = wall w"
  "mono (snd (charge lib li c a w)) = mono w" "argon (snd (charge lib li c a w)) = argon w"
  "oplog (snd (charge lib li c a w)) = oplog w" "console (snd (charge lib li c a w)) = console w"
  "config_path (snd (charge lib li c a w)) = config_path w"
  "length (lives (snd (charge lib li c a w))) = length (lives w)"
  by (simp_all add: charge_def Let_def split: prod.splits)

lemma charge_charged:
  "charged (snd (charge lib li c a w)) =
     charged w @ (if quota_allows lib li c w then [caller_name c] else [])"
  by (simp add: charge_def quota_allows_def Let_def split: prod.splits)

lemma charge_audit:
  "audit (snd (charge lib li c a w)) =
     audit w @ (if quota_allows lib li c w then [] else [rejected a (str ''rate_limited'') 429])"
  by (simp add: charge_def quota_allows_def Let_def split: prod.splits)

lemma charge_grows: "grows w (snd (charge lib li c a w))"
proof -
  let ?ck = "check (lib_governor lib) (mono w) (caller_name c) (lv_rate (live_at w li))"
  have "grows w (update_live li (\<lambda>lv. lv\<lparr>lv_rate := snd ?ck\<rparr>) w)" by (rule grows_rate) simp
  then show ?thesis by (auto simp: charge_def Let_def grows_def split: prod.splits)
qed

lemma charge_wf: "wf_world lib w \<Longrightarrow> wf_world lib (snd (charge lib li c a w))"
  by (simp add: charge_def Let_def wf_world_rate split: prod.splits)

section \<open>Extraction\<close>

text \<open>The caller is one the \<open>Live\<close> at index \<open>i\<close> entitles: its token, its ceilings.\<close>

definition caller_of :: "('c, 'l, 'k) world \<Rightarrow> nat \<Rightarrow> caller \<Rightarrow> bool" where
  "caller_of w i c \<longleftrightarrow> i < length (lives w) \<and>
     caller_token c \<in> fst ` set (auth_tokens (lv_auth (live_at w i))) \<and>
     caller_ceilings c = caller_ceilings_for (caller_token c) (lv_limits (live_at w i))"

lemma caller_of_grows: "caller_of w i c \<Longrightarrow> grows w w' \<Longrightarrow> caller_of w' i c"
  using grows_live [of w w' i] grows_length [of w w']
  by (simp add: caller_of_def same_live_def)

text \<open>The per-address check and the lookup of the key, as the two state changes they are.\<close>

definition ip_step :: "('c, 'l, 'k) lib \<Rightarrow> parts \<Rightarrow> ('c, 'l, 'k) world \<Rightarrow> bool \<times> ('c, 'l, 'k) world" where
  "ip_step lib p w = (case pt_peer p of
     None \<Rightarrow> (True, w)
   | Some (ip, port) \<Rightarrow>
       (let (b, rate) = check_ip (lib_governor lib) (mono w) ip (lv_rate (live_at w (current w)))
        in (b, update_live (current w) (\<lambda>lv. lv\<lparr>lv_rate := rate\<rparr>) w)))"

definition auth_step :: "('c, 'l, 'k) lib \<Rightarrow> rstr \<Rightarrow> ('c, 'l, 'k) world
    \<Rightarrow> token_config option \<times> ('c, 'l, 'k) world" where
  "auth_step lib presented w =
     (let (found, auth, calls) = authenticate (lib_sha256 lib) (lib_verify lib)
            (lv_auth (live_at w (current w))) presented
      in (found, (update_live (current w) (\<lambda>lv. lv\<lparr>lv_auth := auth\<rparr>) w)\<lparr>argon := argon w @ calls\<rparr>))"

lemma ip_step_frame [simp]:
  "sent (snd (ip_step lib p w)) = sent w" "audit (snd (ip_step lib p w)) = audit w"
  "counters (snd (ip_step lib p w)) = counters w" "current (snd (ip_step lib p w)) = current w"
  "charged (snd (ip_step lib p w)) = charged w" "argon (snd (ip_step lib p w)) = argon w"
  "wall (snd (ip_step lib p w)) = wall w" "mono (snd (ip_step lib p w)) = mono w"
  "console (snd (ip_step lib p w)) = console w" "oplog (snd (ip_step lib p w)) = oplog w"
  "config_path (snd (ip_step lib p w)) = config_path w"
  by (simp_all add: ip_step_def Let_def split: option.splits prod.splits)

lemma ip_step_grows: "grows w (snd (ip_step lib p w))"
proof (cases "pt_peer p")
  case (Some peer)
  obtain ip port where peer: "peer = (ip, port)" by (cases peer)
  let ?ck = "check_ip (lib_governor lib) (mono w) ip (lv_rate (live_at w (current w)))"
  have "grows w (update_live (current w) (\<lambda>lv. lv\<lparr>lv_rate := snd ?ck\<rparr>) w)"
    by (rule grows_rate) simp
  then show ?thesis by (auto simp: ip_step_def Some peer Let_def split: prod.splits)
qed (simp add: ip_step_def)

lemma ip_step_wf: "wf_world lib w \<Longrightarrow> wf_world lib (snd (ip_step lib p w))"
  by (auto simp: ip_step_def Let_def wf_world_rate split: option.splits prod.splits)

lemma auth_step_frame [simp]:
  "sent (snd (auth_step lib k w)) = sent w" "audit (snd (auth_step lib k w)) = audit w"
  "counters (snd (auth_step lib k w)) = counters w" "current (snd (auth_step lib k w)) = current w"
  "charged (snd (auth_step lib k w)) = charged w" "wall (snd (auth_step lib k w)) = wall w"
  "mono (snd (auth_step lib k w)) = mono w" "console (snd (auth_step lib k w)) = console w"
  "oplog (snd (auth_step lib k w)) = oplog w"
  "config_path (snd (auth_step lib k w)) = config_path w"
  by (simp_all add: auth_step_def Let_def split: prod.splits)

lemma auth_step_grows: "grows w (snd (auth_step lib k w))"
proof -
  let ?a = "fst (snd (authenticate (lib_sha256 lib) (lib_verify lib) (lv_auth (live_at w (current w))) k))"
  have "grows w (update_live (current w) (\<lambda>lv. lv\<lparr>lv_auth := ?a\<rparr>) w)" by (rule grows_auth) simp
  then show ?thesis by (auto simp: auth_step_def Let_def split: prod.splits)
qed

lemma auth_step_wf:
  assumes "wf_world lib w"
  shows "wf_world lib (snd (auth_step lib k w))"
proof -
  let ?a = "authenticate (lib_sha256 lib) (lib_verify lib) (lv_auth (live_at w (current w))) k"
  have "memo_inv (lib_sha256 lib) (lib_verify lib) UNIV (fst (snd ?a))"
    by (rule memo.keeps_invar) (rule wf_worldD(3) [OF assms wf_worldD(1) [OF assms]])
  from wf_world_auth [OF assms this, of "current w"] show ?thesis
    by (auto simp: auth_step_def Let_def split: prod.splits)
qed

lemma auth_step_token:
  assumes "wf_world lib w" and "fst (auth_step lib k w) = Some t"
  shows "t \<in> fst ` set (auth_tokens (lv_auth (live_at w (current w))))"
proof (rule memo.granted_token_configured)
  show "memo_inv (lib_sha256 lib) (lib_verify lib) UNIV (lv_auth (live_at w (current w)))"
    by (rule wf_worldD(3) [OF assms(1) wf_worldD(1) [OF assms(1)]])
  show "fst (authenticate (lib_sha256 lib) (lib_verify lib) (lv_auth (live_at w (current w))) k) = Some t"
    using assms(2) by (simp add: auth_step_def Let_def split: prod.splits)
qed

definition lapsed :: "token_config \<Rightarrow> int \<Rightarrow> int option" where
  "lapsed t now = (case tok_expires_at t of
     Some expiry \<Rightarrow> if is_expired_at t now then Some expiry else None | None \<Rightarrow> None)"

lemma lapsed_None_iff: "lapsed t now = None \<longleftrightarrow> \<not> is_expired_at t now"
  by (auto simp: lapsed_def is_expired_at_def split: option.split)

lemma from_request_parts_steps:
  "from_request_parts lib p w =
     (let (ip_ok, w1) = ip_step lib p w in
      if \<not> ip_ok then refuse p (str ''-'') (str ''ip_rate_limited'') 429 RateLimited w1
      else (case token_from_headers (pt_headers p) of
         None \<Rightarrow> refuse p (str ''-'') (str ''missing_token'') 401 Unauthorized w1
       | Some k \<Rightarrow>
           (let (found, w2) = auth_step lib k w1 in
            case found of
              None \<Rightarrow> refuse p (str ''-'') (str ''unknown_token'') 401 Unauthorized w2
            | Some t \<Rightarrow>
                (case lapsed t (wall w2) of
                   Some expiry \<Rightarrow> refuse p (tok_name t) (str ''token_expired'') 401
                     (TokenExpired (unwrap_or (lib_rfc3339 lib expiry) (str ''an earlier date''))) w2
                 | None \<Rightarrow> (Ok \<lparr>caller_token = t, caller_ceilings =
                     caller_ceilings_for t (lv_limits (live_at w2 (current w2)))\<rparr>, w2)))))"
proof -
  obtain b w1 where w1: "ip_step lib p w = (b, w1)" by (cases "ip_step lib p w")
  have "current (snd (ip_step lib p w)) = current w" by simp
  with w1 have c: "current w1 = current w" by simp
  have "from_request_parts lib p w =
     (let (ip_ok, w1) = ip_step lib p w in
      if \<not> ip_ok then refuse p (str ''-'') (str ''ip_rate_limited'') 429 RateLimited w1
      else (case token_from_headers (pt_headers p) of
         None \<Rightarrow> refuse p (str ''-'') (str ''missing_token'') 401 Unauthorized w1
       | Some k \<Rightarrow>
           (let (found, auth, calls) = authenticate (lib_sha256 lib) (lib_verify lib)
                  (lv_auth (live_at w1 (current w))) k;
                w2 = (update_live (current w) (\<lambda>lv. lv\<lparr>lv_auth := auth\<rparr>) w1)\<lparr>argon := argon w1 @ calls\<rparr>
            in case found of
              None \<Rightarrow> refuse p (str ''-'') (str ''unknown_token'') 401 Unauthorized w2
            | Some t \<Rightarrow>
                (case lapsed t (wall w2) of
                   Some expiry \<Rightarrow> refuse p (tok_name t) (str ''token_expired'') 401
                     (TokenExpired (unwrap_or (lib_rfc3339 lib expiry) (str ''an earlier date''))) w2
                 | None \<Rightarrow> (Ok \<lparr>caller_token = t, caller_ceilings =
                     caller_ceilings_for t (lv_limits (live_at w2 (current w)))\<rparr>, w2)))))"
    unfolding from_request_parts_def ip_step_def lapsed_def Let_def by (rule refl)
  then show ?thesis
    unfolding w1 by (auto simp: auth_step_def c Let_def split: option.split prod.split)
qed


text \<open>The outcomes of an extraction, one case per exit.\<close>

lemma refuse_fields [simp]:
  "fst (refuse p who r st e w) = Err e"
  "sent (snd (refuse p who r st e w)) = sent w"
  "charged (snd (refuse p who r st e w)) = charged w"
  "argon (snd (refuse p who r st e w)) = argon w"
  "current (snd (refuse p who r st e w)) = current w"
  "wall (snd (refuse p who r st e w)) = wall w" "mono (snd (refuse p who r st e w)) = mono w"
  "console (snd (refuse p who r st e w)) = console w"
  "oplog (snd (refuse p who r st e w)) = oplog w"
  "lives (snd (refuse p who r st e w)) = lives w"
  "audit (snd (refuse p who r st e w)) = audit w @ [rejected (pt_path p) r st]"
  "counters (snd (refuse p who r st e w)) = record_request who (matched_route p) r (counters w)"
  by (simp_all add: refuse_def)

lemma refuse_grows: "grows u w \<Longrightarrow> grows u (snd (refuse p who r st e w))"
  by (auto simp: refuse_def grows_def)

lemma refuse_wf: "wf_world lib w \<Longrightarrow> wf_world lib (snd (refuse p who r st e w))"
  by (simp add: refuse_def wf_worldD)

abbreviation after_ip :: "('c, 'l, 'k) lib \<Rightarrow> parts \<Rightarrow> ('c, 'l, 'k) world \<Rightarrow> ('c, 'l, 'k) world" where
  "after_ip lib p w \<equiv> snd (ip_step lib p w)"

abbreviation after_auth :: "('c, 'l, 'k) lib \<Rightarrow> parts \<Rightarrow> rstr \<Rightarrow> ('c, 'l, 'k) world
    \<Rightarrow> ('c, 'l, 'k) world" where
  "after_auth lib p k w \<equiv> snd (auth_step lib k (after_ip lib p w))"

lemma from_request_parts_cases:
  obtains (ip_limited) "\<not> fst (ip_step lib p w)"
      "from_request_parts lib p w =
         refuse p (str ''-'') (str ''ip_rate_limited'') 429 RateLimited (after_ip lib p w)"
  | (missing) "fst (ip_step lib p w)" "token_from_headers (pt_headers p) = None"
      "from_request_parts lib p w =
         refuse p (str ''-'') (str ''missing_token'') 401 Unauthorized (after_ip lib p w)"
  | (unknown) k where "fst (ip_step lib p w)" "token_from_headers (pt_headers p) = Some k"
      "fst (auth_step lib k (after_ip lib p w)) = None"
      "from_request_parts lib p w =
         refuse p (str ''-'') (str ''unknown_token'') 401 Unauthorized (after_auth lib p k w)"
  | (expired) k t d where "fst (ip_step lib p w)" "token_from_headers (pt_headers p) = Some k"
      "fst (auth_step lib k (after_ip lib p w)) = Some t" "is_expired_at t (wall w)"
      "from_request_parts lib p w =
         refuse p (tok_name t) (str ''token_expired'') 401 (TokenExpired d) (after_auth lib p k w)"
  | (granted) k t where "fst (ip_step lib p w)" "token_from_headers (pt_headers p) = Some k"
      "fst (auth_step lib k (after_ip lib p w)) = Some t" "\<not> is_expired_at t (wall w)"
      "from_request_parts lib p w = (Ok \<lparr>caller_token = t, caller_ceilings =
         caller_ceilings_for t (lv_limits (live_at (after_auth lib p k w) (current w)))\<rparr>,
         after_auth lib p k w)"
proof -
  note steps = from_request_parts_steps [of lib p w, unfolded Let_def case_prod_unfold]
  show thesis
  proof (cases "fst (ip_step lib p w)")
    case False
    with ip_limited show ?thesis by (simp add: steps)
  next
    case ip: True
    show ?thesis
    proof (cases "token_from_headers (pt_headers p)")
      case None
      with ip missing show ?thesis by (simp add: steps)
    next
      case k: (Some k)
      show ?thesis
      proof (cases "fst (auth_step lib k (after_ip lib p w))")
        case None
        with ip k unknown show ?thesis by (simp add: steps)
      next
        case t: (Some t)
        show ?thesis
        proof (cases "lapsed t (wall w)")
          case None
          then have "\<not> is_expired_at t (wall w)" by (simp add: lapsed_None_iff)
          with ip k t None granted show ?thesis by (simp add: steps)
        next
          case l: (Some expiry)
          then have "is_expired_at t (wall w)" by (metis lapsed_None_iff option.distinct(1))
          with ip k t l expired show ?thesis by (simp add: steps)
        qed
      qed
    qed
  qed
qed

lemma extraction_frame [simp]:
  "sent (snd (from_request_parts lib p w)) = sent w"
  "charged (snd (from_request_parts lib p w)) = charged w"
  "current (snd (from_request_parts lib p w)) = current w"
  "wall (snd (from_request_parts lib p w)) = wall w"
  "mono (snd (from_request_parts lib p w)) = mono w"
  "console (snd (from_request_parts lib p w)) = console w"
  "oplog (snd (from_request_parts lib p w)) = oplog w"
  by (cases rule: from_request_parts_cases [where lib = lib and p = p and w = w]; simp)+

lemma after_auth_grows: "grows w (after_auth lib p k w)"
  using ip_step_grows auth_step_grows by (rule grows_trans)

lemma extraction_grows: "grows w (snd (from_request_parts lib p w))"
  by (cases rule: from_request_parts_cases [where lib = lib and p = p and w = w])
     (simp_all add: refuse_grows ip_step_grows after_auth_grows)

lemma extraction_wf: "wf_world lib w \<Longrightarrow> wf_world lib (snd (from_request_parts lib p w))"
  by (cases rule: from_request_parts_cases [where lib = lib and p = p and w = w])
     (simp_all add: refuse_wf ip_step_wf auth_step_wf)

text \<open>The key lookup happens in the \<open>Live\<close> the extraction started with.\<close>

lemma after_ip_same: "wf_world lib w \<Longrightarrow> same_live (current_live w) (live_at (after_ip lib p w) (current w))"
  unfolding current_live_def by (rule grows_live [OF ip_step_grows wf_worldD(1)])

lemma after_auth_same:
  "wf_world lib w \<Longrightarrow> same_live (current_live w) (live_at (after_auth lib p k w) (current w))"
  unfolding current_live_def by (rule grows_live [OF after_auth_grows wf_worldD(1)])

lemma extracted_token:
  assumes wf: "wf_world lib w" and t: "fst (auth_step lib k (after_ip lib p w)) = Some t"
  shows "t \<in> fst ` set (auth_tokens (lv_auth (current_live w)))"
proof -
  have "t \<in> fst ` set (auth_tokens (lv_auth (live_at (after_ip lib p w) (current (after_ip lib p w)))))"
    using ip_step_wf [OF wf] t by (rule auth_step_token)
  with after_ip_same [OF wf, of p] show ?thesis by (simp add: same_live_def)
qed

lemma extraction_Ok:
  assumes wf: "wf_world lib w" and ok: "from_request_parts lib p w = (Ok c, w')"
  shows "caller_of w' (current w) c" and "\<not> is_expired_at (caller_token c) (wall w)"
    and "audit w' = audit w" and "counters w' = counters w"
    and "\<exists>k. token_from_headers (pt_headers p) = Some k \<and> fst (ip_step lib p w)
                  \<and> fst (auth_step lib k (after_ip lib p w)) = Some (caller_token c)"
proof -
  obtain k t where s: "fst (ip_step lib p w)" "token_from_headers (pt_headers p) = Some k"
      "fst (auth_step lib k (after_ip lib p w)) = Some t" "\<not> is_expired_at t (wall w)"
    and w': "w' = after_auth lib p k w"
    and c: "c = \<lparr>caller_token = t, caller_ceilings =
         caller_ceilings_for t (lv_limits (live_at (after_auth lib p k w) (current w)))\<rparr>"
    using ok by (cases rule: from_request_parts_cases [where lib = lib and p = p and w = w])
      (auto simp: refuse_def)
  have "current w < length (lives w')"
    using order_less_le_trans [OF wf_worldD(1) [OF wf] grows_length [OF after_auth_grows]] by (simp add: w')
  then show "caller_of w' (current w) c"
    using extracted_token [OF wf s(3)] after_auth_same [OF wf, where p = p and k = k]
    by (simp add: caller_of_def c w' same_live_def)
  show "\<not> is_expired_at (caller_token c) (wall w)" "audit w' = audit w" "counters w' = counters w"
    using s by (simp_all add: c w')
  show "\<exists>k. token_from_headers (pt_headers p) = Some k \<and> fst (ip_step lib p w)
                  \<and> fst (auth_step lib k (after_ip lib p w)) = Some (caller_token c)"
    using s by (simp add: c)
qed

text \<open>A refused extraction: one audit line and one count, with the status of the error.\<close>

definition extraction_reasons :: "(rstr \<times> proxy_error) set" where
  "extraction_reasons = {(str ''ip_rate_limited'', RateLimited), (str ''missing_token'', Unauthorized),
     (str ''unknown_token'', Unauthorized)} \<union> {str ''token_expired''} \<times> range TokenExpired"

definition refused_as :: "parts \<Rightarrow> rstr \<Rightarrow> rstr \<Rightarrow> proxy_error \<Rightarrow> ('c, 'l, 'k) world
    \<Rightarrow> ('c, 'l, 'k) world \<Rightarrow> bool" where
  "refused_as p who reason e w w' \<longleftrightarrow>
     audit w' = audit w @ [rejected (pt_path p) reason (status e)] \<and>
     counters w' = record_request who (matched_route p) reason (counters w) \<and>
     (reason, e) \<in> extraction_reasons"

lemma refused_as_refuse:
  "refuse p who reason st e' w1 = (Err e, w') \<Longrightarrow> audit w1 = audit w \<Longrightarrow> counters w1 = counters w \<Longrightarrow>
     st = status e' \<Longrightarrow> (reason, e') \<in> extraction_reasons \<Longrightarrow> refused_as p who reason e w w'"
  by (auto simp: refused_as_def refuse_def)

text \<open>Who a refusal is counted for: nobody, or the token that lapsed.\<close>

lemma extraction_Err:
  assumes wf: "wf_world lib w" and r: "from_request_parts lib p w = (Err e, w')"
  shows "\<exists>who reason. refused_as p who reason e w w' \<and>
           (who = str ''-'' \<or> (\<exists>t \<in> fst ` set (auth_tokens (lv_auth (current_live w))). who = tok_name t))"
proof (cases rule: from_request_parts_cases [where lib = lib and p = p and w = w])
  case ip_limited
  then have "refused_as p (str ''-'') (str ''ip_rate_limited'') e w w'"
    by (intro refused_as_refuse [OF r [unfolded ip_limited(2)]]) (simp_all add: extraction_reasons_def)
  then show ?thesis by blast
next
  case missing
  then have "refused_as p (str ''-'') (str ''missing_token'') e w w'"
    by (intro refused_as_refuse [OF r [unfolded missing(3)]]) (simp_all add: extraction_reasons_def)
  then show ?thesis by blast
next
  case (unknown k)
  then have "refused_as p (str ''-'') (str ''unknown_token'') e w w'"
    by (intro refused_as_refuse [OF r [unfolded unknown(4)]]) (simp_all add: extraction_reasons_def)
  then show ?thesis by blast
next
  case (expired k t d)
  then have "refused_as p (tok_name t) (str ''token_expired'') e w w'"
    by (intro refused_as_refuse [OF r [unfolded expired(5)]]) (simp_all add: extraction_reasons_def)
  then show ?thesis using extracted_token [OF wf expired(3)] by blast
next
  case (granted k t)
  with r show ?thesis by simp
qed

section \<open>Building and reloading\<close>

lemma authenticator_new_fields:
  "authenticator_new phc ts = Ok a \<Longrightarrow> auth_cache a = Map.empty \<and> map fst (auth_tokens a) = ts"
proof -
  assume "authenticator_new phc ts = Ok a"
  then obtain ps where a: "a = \<lparr>auth_tokens = ps, auth_cache = Map.empty\<rparr>"
    and "list_all2 (\<lambda>t p. and_then
            (map_err (\<lambda>e. [str ''token '' @ [39] @ tok_name t @ [39]
                 @ str '' has an unparsable hash: '' @ e]) (phc (tok_hash t)))
            (\<lambda>hash. Ok (t, hash)) = Ok p) ts ps"
    unfolding authenticator_new_def by (auto simp: and_then_Ok_iff try_collect_Ok_iff)
  then have "list_all2 (\<lambda>t p. fst p = t) ts ps"
    by (auto simp: and_then_Ok_iff elim!: list_all2_mono)
  then have "map fst ps = ts" by (induction rule: list_all2_induct) auto
  with a show ?thesis by simp
qed

lemma live_build_fields:
  assumes "live_build lib now cfg = Ok lv"
  shows "map fst (auth_tokens (lv_auth lv)) = cfg_tokens cfg"
    and "auth_cache (lv_auth lv) = Map.empty"
    and "lv_limits lv = cfg_limits cfg" and "lv_token_count lv = length (cfg_tokens cfg)"
    and "lv_rate lv = rates_from_config (lib_governor lib) now cfg"
    and "upstream_new (lib_builds lib) (cfg_controller cfg) (upstream_timeout (cfg_server cfg))
           = Ok (lv_upstream lv)"
  using assms authenticator_new_fields [of "lib_phc lib" "cfg_tokens cfg"]
  by (auto simp: live_build_def and_then_Ok_iff)

lemma wf_world_store:
  assumes "wf_world lib w" and "live_build lib now cfg = Ok lv"
  shows "wf_world lib (w\<lparr>lives := lives w @ [lv], current := length (lives w)\<rparr>)"
  using assms live_build_fields(2) [OF assms(2)]
  by (auto simp: wf_world_def memo_inv_new)

lemma grows_store: "grows w (w\<lparr>lives := lives w @ [lv], current := n\<rparr>)"
  by (simp add: grows_def nth_append)

lemma reload_cases:
  obtains (failed) e where "reload lib ex xt w = (Err e, w)"
  | (swapped) path cfg lv where "config_path w = Some path" "load ex xt (Some path) = Ok cfg"
      "live_build lib (mono w) cfg = Ok lv"
      "reload lib ex xt w = (Ok (lv_token_count lv),
         w\<lparr>lives := lives w @ [lv], current := length (lives w)\<rparr>)"
proof (cases "config_path w")
  case None
  with failed show ?thesis by (simp add: reload_def)
next
  case (Some path)
  show ?thesis
  proof (cases "and_then
              (with_context (str ''reload rejected, keeping the previous config'')
                (load ex xt (Some path)))
              (\<lambda>cfg. with_context (str ''reload rejected, keeping the previous config'')
                (live_build lib (mono w) cfg))")
    case (Inl e)
    with Some failed show ?thesis by (simp add: reload_def)
  next
    case (Inr lv)
    then obtain cfg where "load ex xt (Some path) = Ok cfg" "live_build lib (mono w) cfg = Ok lv"
      by (auto simp: and_then_Ok_iff with_context_Ok_iff)
    with Some Inr swapped show ?thesis by (simp add: reload_def)
  qed
qed

lemma reload_grows: "grows w (snd (reload lib ex xt w))"
  by (cases rule: reload_cases [where lib = lib and ex = ex and xt = xt and w = w])
     (simp_all add: grows_store)

lemma reload_wf: "wf_world lib w \<Longrightarrow> wf_world lib (snd (reload lib ex xt w))"
  by (cases rule: reload_cases [where lib = lib and ex = ex and xt = xt and w = w])
     (simp_all add: wf_world_store)

lemma with_path_wf: "with_path lib cfg path c now today = Ok w \<Longrightarrow> wf_world lib w"
  using live_build_fields(2) [of lib now cfg]
  by (auto simp: with_path_def and_then_Ok_iff wf_world_def memo_inv_new)

section \<open>Properties\<close>

lemma auth_step_result: "fst (auth_step lib k w) =
    fst (authenticate (lib_sha256 lib) (lib_verify lib) (lv_auth (live_at w (current w))) k)"
  by (simp add: auth_step_def Let_def split: prod.split)

lemma update_live_auths:
  "(\<And>lv. lv_auth (f lv) = lv_auth lv) \<Longrightarrow> map lv_auth (lives (update_live i f w)) = map lv_auth (lives w)"
  by (cases "i < length (lives w)")
     (simp_all add: update_live_def map_update list_update_same_conv list_update_beyond)

text \<open>
  What it takes to become a caller. An extraction succeeds only for a request whose key, from
  one of the two headers, the current \<open>Live\<close> accepts for a configured token that has not expired;
  the caller then carries that token and the ceilings that token has under the limits of the same
  \<open>Live\<close>. Nothing is sent, charged, logged or counted for it.
\<close>

theorem callers_are_entitled:
  assumes "wf_world lib w" and "from_request_parts lib p w = (Ok c, w')"
  shows "(\<exists>key hash. token_from_headers (pt_headers p) = Some key \<and> key \<noteq> [] \<and>
      (caller_token c, hash) \<in> set (auth_tokens (lv_auth (current_live w))) \<and>
      digest_accepts (lib_sha256 lib) (lib_verify lib) key hash) \<and>
    caller_ceilings c = caller_ceilings_for (caller_token c) (lv_limits (current_live w)) \<and>
    \<not> is_expired_at (caller_token c) (wall w) \<and>
    sent w' = sent w \<and> charged w' = charged w \<and> audit w' = audit w \<and> counters w' = counters w"
proof -
  from extraction_Ok(5) [OF assms] obtain k where k: "token_from_headers (pt_headers p) = Some k"
    and a: "fst (auth_step lib k (after_ip lib p w)) = Some (caller_token c)"
    by blast
  let ?w1 = "after_ip lib p w"
  have wf1: "wf_world lib ?w1" using assms(1) by (rule ip_step_wf)
  have "memo_inv (lib_sha256 lib) (lib_verify lib) UNIV (lv_auth (live_at ?w1 (current ?w1)))"
    by (rule wf_worldD(3) [OF wf1 wf_worldD(1) [OF wf1]])
  then have "k \<noteq> [] \<and> (\<exists>hash. (caller_token c, hash) \<in> set (auth_tokens (lv_auth (live_at ?w1 (current ?w1)))) \<and>
      digest_accepts (lib_sha256 lib) (lib_verify lib) k hash)"
    by (rule authenticate_grants) (use a in \<open>simp only: auth_step_result\<close>)
  moreover have "auth_tokens (lv_auth (live_at ?w1 (current ?w1))) = auth_tokens (lv_auth (current_live w))"
    using after_ip_same [OF assms(1), of p] by (simp add: same_live_def)
  ultimately have key: "\<exists>key hash. token_from_headers (pt_headers p) = Some key \<and> key \<noteq> [] \<and>
      (caller_token c, hash) \<in> set (auth_tokens (lv_auth (current_live w))) \<and>
      digest_accepts (lib_sha256 lib) (lib_verify lib) key hash"
    using k by auto
  have "caller_of w' (current w) c" by (rule extraction_Ok(1) [OF assms])
  moreover have "same_live (live_at w (current w)) (live_at w' (current w))"
    using grows_live [OF extraction_grows [of w lib p] wf_worldD(1) [OF assms(1)]] assms(2) by simp
  ultimately have "caller_ceilings c = caller_ceilings_for (caller_token c) (lv_limits (current_live w))"
    by (simp add: caller_of_def same_live_def current_live_def)
  moreover have "sent w' = sent w" "charged w' = charged w"
    using extraction_frame(1,2) [of lib p w] by (simp_all add: assms(2))
  ultimately show ?thesis using key extraction_Ok(2-4) [OF assms] by simp
qed

text \<open>
  C28. An address over its pre-authentication budget costs nothing: no Argon2 runs, no memo and no
  token list changes, and the refusal is one audit line and one count, under the route's pattern
  and not under the path the client chose.
\<close>

theorem over_budget_address_is_cheap:
  assumes "pt_peer p = Some (ip, port)"
    and "\<not> fst (check_ip (lib_governor lib) (mono w) ip (lv_rate (current_live w)))"
  shows "fst (from_request_parts lib p w) = Err RateLimited \<and>
    argon (snd (from_request_parts lib p w)) = argon w \<and>
    map lv_auth (lives (snd (from_request_parts lib p w))) = map lv_auth (lives w) \<and>
    audit (snd (from_request_parts lib p w)) =
      audit w @ [rejected (pt_path p) (str ''ip_rate_limited'') 429] \<and>
    counters (snd (from_request_parts lib p w)) =
      record_request (str ''-'') (matched_route p) (str ''ip_rate_limited'') (counters w)"
proof -
  have "\<not> fst (ip_step lib p w)"
    using assms by (auto simp: ip_step_def current_live_def Let_def split: prod.splits)
  moreover have "map lv_auth (lives (after_ip lib p w)) = map lv_auth (lives w)"
    by (simp add: ip_step_def Let_def update_live_auths split: option.split prod.split)
  ultimately show ?thesis
    by (cases rule: from_request_parts_cases [where lib = lib and p = p and w = w]) simp_all
qed

text \<open>
  C17. A reload is all or nothing. Any failure, of finding, reading or validating the file or of
  building the new state, leaves the world exactly as it was. A success makes a \<open>Live\<close> current that
  holds precisely the new configuration's tokens, limits and controller, with an empty memo and
  fresh budgets, keeps every older \<open>Live\<close> for the requests that still hold it, and touches nothing
  else.
\<close>

theorem reload_all_or_nothing:
  "(case reload lib ex xt w of
      (Err e, w') \<Rightarrow> w' = w
    | (Ok n, w') \<Rightarrow> (\<exists>path cfg. config_path w = Some path \<and> load ex xt (Some path) = Ok cfg \<and>
        valid_config cfg \<and> n = length (cfg_tokens cfg) \<and>
        map fst (auth_tokens (lv_auth (current_live w'))) = cfg_tokens cfg \<and>
        auth_cache (lv_auth (current_live w')) = Map.empty \<and>
        lv_limits (current_live w') = cfg_limits cfg \<and>
        lv_rate (current_live w') = rates_from_config (lib_governor lib) (mono w) cfg \<and>
        upstream_new (lib_builds lib) (cfg_controller cfg) (upstream_timeout (cfg_server cfg))
          = Ok (lv_upstream (current_live w')) \<and>
        w' = w\<lparr>lives := lives w @ [current_live w'], current := length (lives w)\<rparr>))"
proof (cases rule: reload_cases [where lib = lib and ex = ex and xt = xt and w = w])
  case (failed e)
  then show ?thesis by simp
next
  case (swapped path cfg lv)
  have "valid_config cfg" using swapped(2) by (simp add: load_Ok_iff)
  with live_build_fields [OF swapped(3)] swapped show ?thesis
    by (auto simp: current_live_def live_at_def)
qed

text \<open>
  C25. A token's ceilings never exceed the global ones or its own: whatever a caller's request
  passes the policy with is within the limits of the configuration the caller was extracted under,
  within the token's own limits, and within what the console accepts.
\<close>

theorem ceilings_never_raise:
  assumes "enforce req (caller_ceilings_for t g) = Ok ()"
  shows "cv_count req \<le> max_vouchers_per_request g \<and>
    cv_time_limit_minutes req \<le> max_validity_minutes g \<and>
    cv_time_limit_minutes req \<le> UNIFI_MAX_TIME_LIMIT_MINUTES \<and>
    (case tok_max_vouchers t of None \<Rightarrow> True | Some v \<Rightarrow> cv_count req \<le> v) \<and>
    (case tok_max_validity t of None \<Rightarrow> True | Some v \<Rightarrow> cv_time_limit_minutes req \<le> v)"
proof -
  from assms have a: "cv_count req \<le> effective_max_vouchers t g"
    "cv_time_limit_minutes req \<le> effective_max_validity t g"
    "cv_time_limit_minutes req \<le> UNIFI_MAX_TIME_LIMIT_MINUTES"
    by (simp_all add: enforce_Ok_iff admissible_def caller_ceilings_for_def)
  show ?thesis
    using a order_trans [OF a(1) vouchers.never_raises] order_trans [OF a(2) validity.never_raises]
      order_trans [OF a(1) vouchers.respects_own] order_trans [OF a(2) validity.respects_own]
    by (auto split: option.split)
qed

theorem ceilings_never_raise_witness:
  "(3 :: u32) \<le> max_vouchers_per_request default_limits"
proof -
  let ?r = "\<lparr>cv_name = [97], cv_count = 3, cv_time_limit_minutes = 60, cv_authorized_guest_limit = 1,
     cv_data_usage_limit_m_bytes = None, cv_rx_rate_limit_kbps = None, cv_tx_rate_limit_kbps = None\<rparr>"
  have "enforce ?r (caller_ceilings_for (bare_token [] [] [] []) default_limits) = Ok ()"
    by (simp add: enforce_Ok_iff admissible_def caller_ceilings_for_def effective_max_vouchers_def
        effective_max_validity_def bare_token_def default_limits_def default_max_vouchers_def
        default_max_validity_def UNIFI_MAX_TIME_LIMIT_MINUTES_def trim_none is_whitespace_def
        word_le_nat_alt word_less_nat_alt)
  from ceilings_never_raise [OF this] show ?thesis by simp
qed

end
