(* ===== verification/Guarded_Operation.thy ===== *)
theory Guarded_Operation
  imports State_Laws "HOL-Library.Sublist"
begin

text \<open>
  What every operation on the controller promises, whichever surface it is reached through:
  scope, then site, then one unit of quota, then the caller's data, then at most one request.
  The REST handlers and the GraphQL resolvers are each shown to be an instance of
  \<open>guarded_op\<close>; the locale \<open>guarded_surface\<close> is the contract the request service relies on.
\<close>

section \<open>The specification\<close>

definition upstream_call :: "('c, 'l, 'k) lib \<Rightarrow> nat \<Rightarrow> upstream_op \<Rightarrow> ('c, 'l, 'k) world
    \<Rightarrow> (json, proxy_error) result \<times> ('c, 'l, 'k) world" where
  "upstream_call lib li op w =
     perform (lib_transport lib) (lib_parse_json lib) (lv_upstream (live_at w li)) op w"

definition require_site_opt :: "caller \<Rightarrow> rstr option \<Rightarrow> (unit, proxy_error) result" where
  "require_site_opt c s = (case s of None \<Rightarrow> Ok () | Some x \<Rightarrow> require_site c x)"

definition guarded_op :: "('c, 'l, 'k) lib \<Rightarrow> nat \<Rightarrow> caller \<Rightarrow> scope \<Rightarrow> rstr option \<Rightarrow> rstr
    \<Rightarrow> (upstream_op, proxy_error) result \<Rightarrow> ('c, 'l, 'k) world
    \<Rightarrow> ((json, proxy_error) result \<times> nat) \<times> ('c, 'l, 'k) world" where
  "guarded_op lib li c sc site action prep w =
     (case require_scope c sc of
        Err e \<Rightarrow> ((Err e, 0), w)
      | Ok _ \<Rightarrow>
     (case require_site_opt c site of
        Err e \<Rightarrow> ((Err e, 0), w)
      | Ok _ \<Rightarrow>
     (case charge lib li c action w of
        (Err e, w1) \<Rightarrow> ((Err e, 0), w1)
      | (Ok _, w1) \<Rightarrow>
     (case prep of
        Err e \<Rightarrow> ((Err e, 0), w1)
      | Ok op \<Rightarrow>
          (let (r, w2) = upstream_call lib li op w1 in ((r, mono w2 - mono w1), w2))))))"

text \<open>
  The part before the call, which runs without an await: the operation to call, or the error that
  ends the request. \<open>guarded_op\<close> is this part and then the call.
\<close>

definition guarded_begin :: "('c, 'l, 'k) lib \<Rightarrow> nat \<Rightarrow> caller \<Rightarrow> scope \<Rightarrow> rstr option \<Rightarrow> rstr
    \<Rightarrow> (upstream_op, proxy_error) result \<Rightarrow> ('c, 'l, 'k) world
    \<Rightarrow> (upstream_op, proxy_error) result \<times> ('c, 'l, 'k) world" where
  "guarded_begin lib li c sc site action prep w =
     (case require_scope c sc of
        Err e \<Rightarrow> (Err e, w)
      | Ok _ \<Rightarrow>
     (case require_site_opt c site of
        Err e \<Rightarrow> (Err e, w)
      | Ok _ \<Rightarrow>
     (case charge lib li c action w of
        (Err e, w1) \<Rightarrow> (Err e, w1)
      | (Ok _, w1) \<Rightarrow> (prep, w1))))"

lemma guarded_op_split:
  "guarded_op lib li c sc site a prep w =
     (case guarded_begin lib li c sc site a prep w of
        (Err e, w1) \<Rightarrow> ((Err e, 0), w1)
      | (Ok op, w1) \<Rightarrow> (let (r, w2) = upstream_call lib li op w1 in ((r, mono w2 - mono w1), w2)))"
  by (simp add: guarded_op_def guarded_begin_def split: sum.split prod.split)

text \<open>What an operation needs, by what it is.\<close>

fun op_scope :: "upstream_op \<Rightarrow> scope" where
  "op_scope OpListSites = SitesRead"
| "op_scope (OpListVouchers s) = VouchersRead"
| "op_scope (OpCreateVouchers s b) = VouchersCreate"
| "op_scope (OpDeleteVoucher s v) = VouchersRevoke"

fun op_site :: "upstream_op \<Rightarrow> rstr option" where
  "op_site OpListSites = None"
| "op_site (OpListVouchers s) = Some s"
| "op_site (OpCreateVouchers s b) = Some s"
| "op_site (OpDeleteVoucher s v) = Some s"

definition permitted :: "caller \<Rightarrow> scope \<Rightarrow> rstr option \<Rightarrow> bool" where
  "permitted c sc site \<longleftrightarrow> has_scope (caller_token c) sc \<and>
     (case site of None \<Rightarrow> True | Some s \<Rightarrow> allows_site (caller_token c) s)"

text \<open>A creation body is the encoding of a request within the caller's ceilings.\<close>

definition body_ok :: "('c, 'l, 'k) lib \<Rightarrow> caller \<Rightarrow> upstream_op \<Rightarrow> bool" where
  "body_ok lib c op = (case op of
     OpCreateVouchers s b \<Rightarrow> (\<exists>req. lib_to_value lib req = Ok b \<and> enforce req (caller_ceilings c) = Ok ())
   | _ \<Rightarrow> True)"

text \<open>
  Why a request may have left the proxy: a caller some \<open>Live\<close> entitled, an operation that
  caller may perform, with valid ids and an admissible body, sent with the base and the key of
  some \<open>Live\<close>.
\<close>

definition allowed_op :: "('c, 'l, 'k) lib \<Rightarrow> caller \<Rightarrow> upstream_op \<Rightarrow> bool" where
  "allowed_op lib c op \<longleftrightarrow> op_valid op \<and> permitted c (op_scope op) (op_site op) \<and> body_ok lib c op"

definition justified :: "('c, 'l, 'k) lib \<Rightarrow> ('c, 'l, 'k) world \<Rightarrow> caller \<Rightarrow> http_request \<Rightarrow> bool" where
  "justified lib w c r \<longleftrightarrow> (\<exists>j op. j < length (lives w) \<and> allowed_op lib c op \<and>
     r = op_request (lv_upstream (live_at w j)) op)"

lemma justified_grows:
  assumes "justified lib w c r" and g: "grows w w'"
  shows "justified lib w' c r"
proof -
  from assms(1) obtain j op where j: "j < length (lives w)" and op: "allowed_op lib c op"
    and r: "r = op_request (lv_upstream (live_at w j)) op"
    by (auto simp: justified_def)
  from grows_live [OF g j] have "r = op_request (lv_upstream (live_at w' j)) op"
    by (simp add: r same_live_def)
  with op order_less_le_trans [OF j grows_length [OF g]] show ?thesis
    unfolding justified_def by blast
qed

section \<open>The guards\<close>

lemma require_scope_Ok_iff: "require_scope c sc = Ok u \<longleftrightarrow> has_scope (caller_token c) sc"
  by (simp add: require_scope_def)

lemma require_site_Ok_iff: "require_site c s = Ok u \<longleftrightarrow> allows_site (caller_token c) s"
  by (simp add: require_site_def)

lemma permitted_iff:
  "permitted c sc site \<longleftrightarrow> is_ok (require_scope c sc) \<and> is_ok (require_site_opt c site)"
  by (cases site) (simp_all add: permitted_def require_scope_def require_site_opt_def require_site_def)

lemma guarded_op_refused:
  "\<not> permitted c sc site \<Longrightarrow> \<exists>m. guarded_op lib li c sc site a prep w = ((Err (Forbidden m), 0), w)"
  by (cases site)
     (auto simp: permitted_def guarded_op_def require_scope_def require_site_opt_def require_site_def)

lemma guarded_op_permitted:
  assumes "permitted c sc site"
  shows "guarded_op lib li c sc site a prep w =
     (let w1 = snd (charge lib li c a w) in
      if \<not> quota_allows lib li c w then ((Err RateLimited, 0), w1)
      else (case prep of
          Err e \<Rightarrow> ((Err e, 0), w1)
        | Ok op \<Rightarrow> (let (r, w2) = upstream_call lib li op w1 in ((r, mono w2 - mono w1), w2))))"
proof -
  obtain r w1 where w1: "charge lib li c a w = (r, w1)" by (cases "charge lib li c a w")
  then have r: "r = (if quota_allows lib li c w then Ok () else Err RateLimited)"
    using charge_result [of lib li c a w] by simp
  have "require_scope c sc = Ok ()" "require_site_opt c site = Ok ()"
    using assms by (simp_all add: permitted_iff is_ok_iff)
  then show ?thesis by (simp add: guarded_op_def w1 r)
qed

section \<open>The call\<close>

lemma upstream_call_more [simp]:
  "lives (snd (upstream_call lib li op w)) = lives w"
  "current (snd (upstream_call lib li op w)) = current w"
  "counters (snd (upstream_call lib li op w)) = counters w"
  "config_path (snd (upstream_call lib li op w)) = config_path w"
  "audit (snd (upstream_call lib li op w)) = audit w"
  "wall (snd (upstream_call lib li op w)) = wall w"
  "charged (snd (upstream_call lib li op w)) = charged w"
  "argon (snd (upstream_call lib li op w)) = argon w"
  using perform_more [of "lib_transport lib" "lib_parse_json lib" "lv_upstream (live_at w li)" op w]
  by (cases "snd (upstream_call lib li op w)"; cases w; simp add: upstream_call_def)+

lemma upstream_call_sent:
  "sent (snd (upstream_call lib li op w)) =
     sent w @ (if op_valid op then [op_request (lv_upstream (live_at w li)) op] else [])"
  by (simp add: upstream_call_def perform_sent)

lemma upstream_call_grows: "grows w (snd (upstream_call lib li op w))"
  by (simp add: grows_def upstream_call_sent)

lemma upstream_call_wf: "wf_world lib w \<Longrightarrow> wf_world lib (snd (upstream_call lib li op w))"
  by (simp add: wf_world_def)

section \<open>What a guarded operation does to the world\<close>

definition goes_out :: "('c, 'l, 'k) lib \<Rightarrow> nat \<Rightarrow> caller \<Rightarrow> scope \<Rightarrow> rstr option
    \<Rightarrow> (upstream_op, proxy_error) result \<Rightarrow> ('c, 'l, 'k) world \<Rightarrow> bool" where
  "goes_out lib li c sc site prep w \<longleftrightarrow> permitted c sc site \<and> quota_allows lib li c w \<and>
     (case prep of Err e \<Rightarrow> False | Ok op \<Rightarrow> op_valid op)"

lemma guarded_op_cases:
  obtains (refused) m where "\<not> permitted c sc site"
      "guarded_op lib li c sc site a prep w = ((Err (Forbidden m), 0), w)"
  | (over_quota) "permitted c sc site" "\<not> quota_allows lib li c w"
      "guarded_op lib li c sc site a prep w = ((Err RateLimited, 0), snd (charge lib li c a w))"
  | (rejected_input) e where "permitted c sc site" "quota_allows lib li c w" "prep = Err e"
      "guarded_op lib li c sc site a prep w = ((Err e, 0), snd (charge lib li c a w))"
  | (performed) op r w2 where "permitted c sc site" "quota_allows lib li c w" "prep = Ok op"
      "upstream_call lib li op (snd (charge lib li c a w)) = (r, w2)"
      "guarded_op lib li c sc site a prep w = ((r, mono w2 - mono w), w2)"
proof (cases "permitted c sc site")
  case False
  with guarded_op_refused [OF this, of lib li a prep w] refused show ?thesis by blast
next
  case p: True
  show ?thesis
  proof (cases "quota_allows lib li c w")
    case False
    with p over_quota show ?thesis by (simp add: guarded_op_permitted Let_def)
  next
    case q: True
    show ?thesis
    proof (cases prep)
      case (Inl e)
      with p q rejected_input show ?thesis by (simp add: guarded_op_permitted Let_def)
    next
      case (Inr op)
      obtain r w2 where "upstream_call lib li op (snd (charge lib li c a w)) = (r, w2)"
        by (cases "upstream_call lib li op (snd (charge lib li c a w))")
      with p q Inr performed show ?thesis by (simp add: guarded_op_permitted Let_def)
    qed
  qed
qed

lemma upstream_call_simps:
  assumes "upstream_call lib li op w = (r, w2)"
  shows "lives w2 = lives w" "current w2 = current w" "counters w2 = counters w"
    "config_path w2 = config_path w" "audit w2 = audit w" "wall w2 = wall w"
    "charged w2 = charged w" "argon w2 = argon w"
    "sent w2 = sent w @ (if op_valid op then [op_request (lv_upstream (live_at w li)) op] else [])"
    "grows w w2"
  using upstream_call_more [of lib li op w] upstream_call_sent [of lib li op w]
    upstream_call_grows [of w lib li op] by (simp_all add: assms)

lemma charge_upstream:
  "i < length (lives w) \<Longrightarrow> lv_upstream (live_at (snd (charge lib li c a w)) i) = lv_upstream (live_at w i)"
  using grows_live [OF charge_grows [of w lib li c a]] by (simp add: same_live_def)

lemma guarded_op_sent:
  assumes "li < length (lives w)"
  shows "sent (snd (guarded_op lib li c sc site a prep w)) = sent w @
     (if goes_out lib li c sc site prep w
      then [op_request (lv_upstream (live_at w li)) (projr prep)] else [])"
  by (cases rule: guarded_op_cases [where lib = lib and li = li and c = c and sc = sc
        and site = site and a = a and prep = prep and w = w])
     (auto simp: goes_out_def upstream_call_simps charge_upstream [OF assms])

lemma guarded_op_charged:
  "charged (snd (guarded_op lib li c sc site a prep w)) = charged w @
     (if permitted c sc site \<and> quota_allows lib li c w then [caller_name c] else [])"
  by (cases rule: guarded_op_cases [where lib = lib and li = li and c = c and sc = sc
        and site = site and a = a and prep = prep and w = w])
     (auto simp: upstream_call_simps charge_charged)

lemma guarded_op_audit:
  "audit (snd (guarded_op lib li c sc site a prep w)) = audit w @
     (if permitted c sc site \<and> \<not> quota_allows lib li c w
      then [rejected a (str ''rate_limited'') 429] else [])"
  by (cases rule: guarded_op_cases [where lib = lib and li = li and c = c and sc = sc
        and site = site and a = a and prep = prep and w = w])
     (auto simp: upstream_call_simps charge_audit)

lemma guarded_op_frame [simp]:
  "counters (snd (guarded_op lib li c sc site a prep w)) = counters w"
  "current (snd (guarded_op lib li c sc site a prep w)) = current w"
  "wall (snd (guarded_op lib li c sc site a prep w)) = wall w"
  "argon (snd (guarded_op lib li c sc site a prep w)) = argon w"
  "config_path (snd (guarded_op lib li c sc site a prep w)) = config_path w"
  by (cases rule: guarded_op_cases [where lib = lib and li = li and c = c and sc = sc
        and site = site and a = a and prep = prep and w = w];
      simp add: upstream_call_simps)+

lemma guarded_op_grows: "grows w (snd (guarded_op lib li c sc site a prep w))"
  by (cases rule: guarded_op_cases [where lib = lib and li = li and c = c and sc = sc
        and site = site and a = a and prep = prep and w = w])
     (auto simp: charge_grows intro: grows_trans [OF charge_grows upstream_call_simps(10)])

lemma guarded_op_wf: "wf_world lib w \<Longrightarrow> wf_world lib (snd (guarded_op lib li c sc site a prep w))"
  using charge_wf [of lib w li c a]
  by (cases rule: guarded_op_cases [where lib = lib and li = li and c = c and sc = sc
        and site = site and a = a and prep = prep and w = w])
     (auto simp: wf_world_def upstream_call_simps)


section \<open>What the part before the call does\<close>

lemma guarded_begin_world:
  "snd (guarded_begin lib li c sc site a prep w) = w \<or>
   snd (guarded_begin lib li c sc site a prep w) = snd (charge lib li c a w)"
  by (simp add: guarded_begin_def split: sum.split prod.split)

lemma guarded_begin_frame [simp]:
  "sent (snd (guarded_begin lib li c sc site a prep w)) = sent w"
  "current (snd (guarded_begin lib li c sc site a prep w)) = current w"
  "counters (snd (guarded_begin lib li c sc site a prep w)) = counters w"
  "mono (snd (guarded_begin lib li c sc site a prep w)) = mono w"
  "length (lives (snd (guarded_begin lib li c sc site a prep w))) = length (lives w)"
  using guarded_begin_world [of lib li c sc site a prep w] by auto

lemma guarded_begin_grows: "grows w (snd (guarded_begin lib li c sc site a prep w))"
  using guarded_begin_world [of lib li c sc site a prep w] charge_grows [of w lib li c a] by auto

lemma guarded_begin_wf:
  "wf_world lib w \<Longrightarrow> wf_world lib (snd (guarded_begin lib li c sc site a prep w))"
  using guarded_begin_world [of lib li c sc site a prep w] charge_wf [of lib w li c a] by auto

lemma guarded_begin_charged:
  "\<exists>new. charged (snd (guarded_begin lib li c sc site a prep w)) = charged w @ new"
  using guarded_begin_world [of lib li c sc site a prep w] by (auto simp: charge_charged)

lemma guarded_begin_Ok:
  assumes "guarded_begin lib li c sc site a prep w = (Ok op, w1)"
  shows "permitted c sc site" "quota_allows lib li c w" "prep = Ok op"
    "charged w1 = charged w @ [caller_name c]"
proof -
  obtain u v w2 where g: "require_scope c sc = Ok u" "require_site_opt c site = Ok v"
    "charge lib li c a w = (Ok (), w2)" and pw: "prep = Ok op" "w1 = w2"
    using assms by (auto simp: guarded_begin_def split: sum.splits prod.splits)
  from g(1,2) show "permitted c sc site" by (simp add: permitted_iff is_ok_iff)
  from g(3) charge_result [of lib li c a w] show q: "quota_allows lib li c w" by (simp split: if_splits)
  from g(3) q charge_charged [of lib li c a w] show "charged w1 = charged w @ [caller_name c]"
    by (simp add: pw)
  show "prep = Ok op" by (rule pw)
qed

section \<open>Every request is paid for\<close>

text \<open>\<open>paid_for\<close>: the request was made for some configuration's caller of that name.\<close>

definition paid_for :: "('c, 'l, 'k) lib \<Rightarrow> ('c, 'l, 'k) world \<Rightarrow> rstr \<Rightarrow> http_request \<Rightarrow> bool" where
  "paid_for lib w n r \<longleftrightarrow> (\<exists>i c. caller_of w i c \<and> caller_name c = n \<and> justified lib w c r)"

lemma paid_for_grows: "paid_for lib w n r \<Longrightarrow> grows w w' \<Longrightarrow> paid_for lib w' n r"
  unfolding paid_for_def by (blast intro: caller_of_grows justified_grows)

lemma paid_all_grows:
  "list_all2 (paid_for lib w) owners rs \<Longrightarrow> grows w w' \<Longrightarrow> list_all2 (paid_for lib w') owners rs"
  by (erule list_all2_mono) (rule paid_for_grows)

section \<open>The contract of a surface\<close>

text \<open>
  Several calls of one caller, at most \<open>n\<close>, each chosen by \<open>pick\<close> from what the earlier ones
  returned.
\<close>

fun run_plan :: "('call \<Rightarrow> 'd \<Rightarrow> 'w \<Rightarrow> 'r \<times> 'w) \<Rightarrow> nat \<Rightarrow> (('call \<times> 'r) list \<Rightarrow> 'call option)
    \<Rightarrow> ('call \<times> 'r) list \<Rightarrow> 'd \<Rightarrow> 'w \<Rightarrow> ('call \<times> 'r) list \<times> 'w" where
  "run_plan run 0 pick acc c w = (acc, w)"
| "run_plan run (Suc n) pick acc c w =
     (case pick acc of
        None \<Rightarrow> (acc, w)
      | Some k \<Rightarrow> (let (r, w') = run k c w in run_plan run n pick (acc @ [(k, r)]) c w'))"

locale guarded_surface =
  fixes lib :: "('c, 'l, 'k) lib"
    and run :: "'call \<Rightarrow> caller \<Rightarrow> ('c, 'l, 'k) world \<Rightarrow> 'r \<times> ('c, 'l, 'k) world"
  assumes run_wf: "wf_world lib w \<Longrightarrow> wf_world lib (snd (run k c w))"
    and run_grows: "wf_world lib w \<Longrightarrow> grows w (snd (run k c w))"
    and run_current: "current (snd (run k c w)) = current w"
    and run_sends: "wf_world lib w \<Longrightarrow> sent (snd (run k c w)) = sent w \<or>
        (\<exists>r. sent (snd (run k c w)) = sent w @ [r] \<and> justified lib (snd (run k c w)) c r \<and>
             charged (snd (run k c w)) = charged w @ [caller_name c])"
begin

lemma refused_sends_nothing:
  "wf_world lib w \<Longrightarrow> charged (snd (run k c w)) = charged w \<Longrightarrow> sent (snd (run k c w)) = sent w"
  using run_sends [of w k c] by auto

lemma run_plan_inv:
  assumes "\<And>k w. I w \<Longrightarrow> I (snd (run k c w))"
  shows "I w \<Longrightarrow> I (snd (run_plan run n pick acc c w))"
proof (induction n arbitrary: acc w)
  case 0
  then show ?case by simp
next
  case (Suc n)
  show ?case
  proof (cases "pick acc")
    case None
    then show ?thesis using Suc.prems by simp
  next
    case (Some k)
    from assms [OF Suc.prems, of k] Suc.IH show ?thesis
      by (auto simp: Some split: prod.split)
  qed
qed

lemma run_plan_wf: "wf_world lib w \<Longrightarrow> wf_world lib (snd (run_plan run n pick acc c w))"
  by (rule run_plan_inv [where I = "wf_world lib"]) (rule run_wf)

lemma run_plan_grows: "wf_world lib w \<Longrightarrow> grows w (snd (run_plan run n pick acc c w))"
  using run_plan_inv [where I = "\<lambda>v. wf_world lib v \<and> grows w v" and c = c and w = w and n = n
      and pick = pick and acc = acc]
  by (auto intro: run_wf grows_trans [OF _ run_grows])

lemma run_plan_current: "current (snd (run_plan run n pick acc c w)) = current w"
  using run_plan_inv [where I = "\<lambda>v. current v = current w" and c = c and w = w and n = n
      and pick = pick and acc = acc]
  by (auto simp: run_current)

lemma run_plan_length: "length (fst (run_plan run n pick acc c w)) \<le> length acc + n"
proof (induction n arbitrary: acc w)
  case (Suc n)
  then show ?case
    by (auto split: option.split prod.split intro: order_trans [OF Suc.IH])
qed simp

lemma run_plan_requests:
  assumes "wf_world lib w"
  shows "length (sent (snd (run_plan run n pick acc c w))) \<le> length (sent w) + n"
  using assms
proof (induction n arbitrary: acc w)
  case (Suc n)
  show ?case
  proof (cases "pick acc")
    case (Some k)
    obtain r w' where rw: "run k c w = (r, w')" by (cases "run k c w")
    have "length (sent w') \<le> Suc (length (sent w))"
      using run_sends [OF Suc.prems, of k c] rw by auto
    moreover have "length (sent (snd (run_plan run n pick (acc @ [(k, r)]) c w'))) \<le> length (sent w') + n"
      using Suc.IH run_wf [OF Suc.prems, of k c] rw by simp
    ultimately show ?thesis by (simp add: Some rw)
  qed simp
qed simp

end

end
