(* ===== verification/Voucher_Model.thy ===== *)
theory Voucher_Model
  imports Json_Value
begin

text \<open>
  \<open>src/model.rs\<close>: the typed views over the controller's JSON that GraphQL answers with. Parsing
  is forgiving: an absent or oddly typed optional field becomes \<open>None\<close>, and an entry without an
  id is skipped.
\<close>

section \<open>The views\<close>

record site =
  site_id :: rstr
  site_name :: rstr

record voucher =
  v_id :: rstr
  v_code :: rstr
  v_name :: "rstr option"
  v_time_limit_minutes :: "int option"
  v_authorized_guest_limit :: "int option"
  v_authorized_guest_count :: "int option"
  v_expired :: bool
  v_expires_at :: "rstr option"
  v_created_at :: "rstr option"
  v_data_usage_limit_m_bytes :: "int option"
  v_rx_rate_limit_kbps :: "int option"
  v_tx_rate_limit_kbps :: "int option"

section \<open>Field readers\<close>

definition as_str :: "json option \<Rightarrow> rstr option" where
  "as_str v = (case v of
     Some (JString s) \<Rightarrow> if s \<noteq> [] then Some s else None
   | Some (JNumber n) \<Rightarrow> Some (num_to_string n)
   | _ \<Rightarrow> None)"

definition as_int :: "json option \<Rightarrow> int option" where
  "as_int v = (case v of
     Some (JNumber n) \<Rightarrow> num_as_i64 n
   | Some (JString s) \<Rightarrow> parse_i64 s
   | _ \<Rightarrow> None)"

text \<open>
  \<open>list_field\<close>: the list inside an upstream envelope. The keys are tried in the order of the
  source; after that the first list-valued field in the object's iteration order.
\<close>

definition list_field :: "json \<Rightarrow> json list" where
  "list_field body = (case body of
     JArray items \<Rightarrow> items
   | JObject fs \<Rightarrow>
       (case find_map (\<lambda>key. Option.bind (bt_get fs key) value_as_array)
               [str ''data'', str ''vouchers''] of
          Some items \<Rightarrow> items
        | None \<Rightarrow> unwrap_or (find_map value_as_array (map snd fs)) [])
   | _ \<Rightarrow> [])"

section \<open>from\_json and list\<close>

definition site_from_json :: "json \<Rightarrow> site option" where
  "site_from_json v =
     (case or_else (as_str (get v (str ''id''))) (as_str (get v (str ''_id''))) of
        None \<Rightarrow> None
      | Some i \<Rightarrow> Some \<lparr>site_id = i,
          site_name = unwrap_or
            (or_else (or_else (as_str (get v (str ''name'')))
                              (as_str (get v (str ''internalReference''))))
                     (as_str (get v (str ''desc'')))) i\<rparr>)"

definition site_list :: "json \<Rightarrow> site list" where
  "site_list body = filter_map site_from_json (list_field body)"

definition voucher_from_json :: "json \<Rightarrow> voucher option" where
  "voucher_from_json v =
     (case or_else (as_str (get v (str ''id''))) (as_str (get v (str ''_id''))) of
        None \<Rightarrow> None
      | Some i \<Rightarrow> Some \<lparr>
          v_id = i,
          v_code = unwrap_or (as_str (get v (str ''code''))) [],
          v_name = as_str (get v (str ''name'')),
          v_time_limit_minutes = as_int (get v (str ''timeLimitMinutes'')),
          v_authorized_guest_limit = as_int (get v (str ''authorizedGuestLimit'')),
          v_authorized_guest_count = as_int (get v (str ''authorizedGuestCount'')),
          v_expired = unwrap_or (Option.bind (get v (str ''expired'')) value_as_bool) False,
          v_expires_at = as_str (get v (str ''expiresAt'')),
          v_created_at = as_str (get v (str ''createdAt'')),
          v_data_usage_limit_m_bytes = as_int (get v (str ''dataUsageLimitMBytes'')),
          v_rx_rate_limit_kbps = as_int (get v (str ''rxRateLimitKbps'')),
          v_tx_rate_limit_kbps = as_int (get v (str ''txRateLimitKbps''))\<rparr>)"

definition voucher_list :: "json \<Rightarrow> voucher list" where
  "voucher_list body = filter_map voucher_from_json (list_field body)"

section \<open>Lemmas\<close>

lemma list_field_JArray [simp]: "list_field (JArray xs) = xs"
  by (simp add: list_field_def)

lemma list_field_data:
  "bt_get fs (str ''data'') = Some (JArray xs) \<Longrightarrow> list_field (JObject fs) = xs"
  by (simp add: list_field_def value_as_array_def)

lemma list_field_vouchers:
  "Option.bind (bt_get fs (str ''data'')) value_as_array = None \<Longrightarrow>
   bt_get fs (str ''vouchers'') = Some (JArray xs) \<Longrightarrow> list_field (JObject fs) = xs"
  by (simp add: list_field_def value_as_array_def)

lemma list_field_single [simp]: "list_field (json_object [(k, JArray xs)]) = xs"
  by (simp add: list_field_def json_object_def bt_get_def value_as_array_def)

lemma list_field_no_list:
  "(\<forall>v \<in> set (map snd fs). value_as_array v = None) \<Longrightarrow> list_field (JObject fs) = []"
proof -
  assume n: "\<forall>v \<in> set (map snd fs). value_as_array v = None"
  then have "Option.bind (bt_get fs k) value_as_array = None" for k
    by (cases "bt_get fs k") (auto simp: bt_get_def dest!: map_of_SomeD)
  with n show ?thesis by (simp add: list_field_def find_map_None_iff [THEN iffD2])
qed

lemma as_str_nonempty: "as_str (Some (JString s)) = Some t \<Longrightarrow> t = s \<and> t \<noteq> []"
  by (auto simp: as_str_def split: if_splits)

lemma as_int_range:
  "(case v of Some x \<Rightarrow> wf_json x | None \<Rightarrow> True) \<Longrightarrow> as_int v = Some i \<Longrightarrow>
     - (2 ^ 63) \<le> i \<and> i < 2 ^ 63"
  by (auto simp: as_int_def split: option.splits json.splits
      dest: num_as_i64_range parse_i64_range)

lemma as_int_string_or_number:
  "wf_num n \<Longrightarrow> num_as_i64 n = Some i \<Longrightarrow>
     as_int (Some (JString (num_to_string n))) = as_int (Some (JNumber n))"
  by (simp add: as_int_def parse_num_to_string)

section \<open>Properties\<close>

lemma list_field_both:
  "list_field (json_object [(str ''vouchers'', JArray ys), (str ''data'', JArray xs)]) = xs"
proof -
  have "bt_get (bt_of_list [(str ''vouchers'', JArray ys), (str ''data'', JArray xs)]) (str ''data'')
      = Some (JArray xs)"
    by (subst bt_get_of_list) simp_all
  then show ?thesis unfolding json_object_def by (rule list_field_data)
qed

text \<open>
  The envelope does not matter: a bare array, the \<open>data\<close> envelope of a read, the \<open>vouchers\<close>
  envelope of a creation and any other single field holding the list give the same vouchers and
  the same sites; \<open>data\<close> wins over every other list; and no entry is invented.
\<close>

theorem envelopes_agree:
  "voucher_list (json_object [(k, JArray xs)]) = voucher_list (JArray xs) \<and>
   site_list (json_object [(k, JArray xs)]) = site_list (JArray xs) \<and>
   voucher_list (json_object [(str ''vouchers'', JArray ys), (str ''data'', JArray xs)]) =
     voucher_list (JArray xs) \<and>
   length (voucher_list (JArray xs)) \<le> length xs"
  by (simp add: voucher_list_def site_list_def length_filter_map list_field_both)

text \<open>
  Every integer field of a parsed voucher fits the 64-bit signed integer the schema declares,
  whatever numbers and numeric strings the controller sends.
\<close>

theorem voucher_integers_in_range:
  assumes "wf_json v" and "voucher_from_json v = Some vo"
    and "n \<in> {v_time_limit_minutes vo, v_authorized_guest_limit vo, v_authorized_guest_count vo,
      v_data_usage_limit_m_bytes vo, v_rx_rate_limit_kbps vo, v_tx_rate_limit_kbps vo}"
    and "n = Some i"
  shows "- (2 ^ 63) \<le> i \<and> i < 2 ^ 63"
proof -
  have wf: "(case get v k of Some x \<Rightarrow> wf_json x | None \<Rightarrow> True)" for k
    using wf_json_get [OF assms(1), of k] by (cases "get v k") auto
  have "\<exists>k. n = as_int (get v k)"
    using assms(2,3) by (auto simp: voucher_from_json_def split: option.splits)
  then show ?thesis using as_int_range [OF wf] assms(4) by metis
qed

theorem voucher_integers_in_range_witness:
  "- (2 ^ 63) \<le> (7 :: int) \<and> (7 :: int) < 2 ^ 63"
proof (rule voucher_integers_in_range)
  let ?v = "JObject [(str ''id'', JString [118]), (str ''timeLimitMinutes'', JNumber (PosInt 7))]"
  show "wf_json ?v" by (simp add: bt_sorted_def str_def wf_num_def)
  show "voucher_from_json ?v = Some (the (voucher_from_json ?v))"
    by (simp add: voucher_from_json_def bt_get_def as_str_def)
  show "v_time_limit_minutes (the (voucher_from_json ?v)) \<in>
      {v_time_limit_minutes (the (voucher_from_json ?v)), v_authorized_guest_limit (the (voucher_from_json ?v)),
       v_authorized_guest_count (the (voucher_from_json ?v)), v_data_usage_limit_m_bytes (the (voucher_from_json ?v)),
       v_rx_rate_limit_kbps (the (voucher_from_json ?v)), v_tx_rate_limit_kbps (the (voucher_from_json ?v))}"
    by simp
  show "v_time_limit_minutes (the (voucher_from_json ?v)) = Some 7"
    by (simp add: voucher_from_json_def bt_get_def as_str_def as_int_def num_as_i64_def)
qed

end
