(* ===== verification/Gql_Surface.thy ===== *)
theory Gql_Surface
  imports Guarded_Operation Voucher_Model
begin

text \<open>
  \<open>src/graphql.rs\<close>: the resolvers, the mapping of errors and the audit description of a
  document. The GraphQL engine (\<open>async-graphql\<close>) is a parameter of the HTTP layer: a strategy
  that says which field starts next, given what the earlier ones returned and which are in flight.
  Its complexity limit bounds the number of calls.
\<close>

definition MAX_COMPLEXITY :: nat where
  "MAX_COMPLEXITY = 256"

section \<open>Errors\<close>

record gql_error =
  ge_message :: rstr
  ge_code :: rstr
  ge_status :: int

text \<open>\<open>to_gql\<close>: the operator's lines, and the error with its extensions.\<close>

definition to_gql :: "proxy_error \<Rightarrow> operator_log list \<times> gql_error" where
  "to_gql err =
     (let st = status err; knd = kind err;
          (logged, message) = (case err of
             Internal e \<Rightarrow> ([InternalError e], str ''internal proxy error'')
           | other \<Rightarrow> ([], error_message other))
      in (logged, \<lparr>ge_message = message, ge_code = knd, ge_status = int st\<rparr>))"

lemma to_gql_eq:
  "to_gql e = ((case e of Internal a \<Rightarrow> [InternalError a] | _ \<Rightarrow> []),
     \<lparr>ge_message = error_message e, ge_code = kind e, ge_status = int (status e)\<rparr>)"
  by (cases e) (simp_all add: to_gql_def)

interpretation gqlerr: error_surface "\<lambda>e. snd (to_gql e)" "\<lambda>r. nat (ge_status r)" ge_message
  by unfold_locales (simp_all add: to_gql_eq)

section \<open>Types of the schema\<close>

record token_info =
  ti_name :: rstr
  ti_sites :: "rstr list"
  ti_scopes :: "rstr list"
  ti_max_vouchers_per_request :: int
  ti_max_validity_minutes :: int

record revoke_result =
  rv_id :: rstr
  rv_revoked :: bool

record create_voucher_input =
  ci_name :: rstr
  ci_count :: u32
  ci_time_limit_minutes :: u64
  ci_authorized_guest_limit :: u32
  ci_data_usage_limit_m_bytes :: "u64 option"
  ci_rx_rate_limit_kbps :: "u64 option"
  ci_tx_rate_limit_kbps :: "u64 option"

definition request_of_input :: "create_voucher_input \<Rightarrow> create_voucher_request" where
  "request_of_input i = \<lparr>cv_name = ci_name i, cv_count = ci_count i,
     cv_time_limit_minutes = ci_time_limit_minutes i,
     cv_authorized_guest_limit = ci_authorized_guest_limit i,
     cv_data_usage_limit_m_bytes = ci_data_usage_limit_m_bytes i,
     cv_rx_rate_limit_kbps = ci_rx_rate_limit_kbps i,
     cv_tx_rate_limit_kbps = ci_tx_rate_limit_kbps i\<rparr>"

datatype gql_value =
    InfoOut token_info
  | SitesOut "site list"
  | VouchersOut "voucher list"
  | RevokeOut revoke_result

type_synonym gql_outcome = "(gql_value, gql_error) result"

section \<open>Resolvers\<close>

text \<open>\<open>.map_err(to_gql)?\<close>\<close>

definition fail_gql :: "proxy_error \<Rightarrow> ('c, 'l, 'k) world \<Rightarrow> gql_outcome \<times> ('c, 'l, 'k) world" where
  "fail_gql e w = (let (lines, ge) = to_gql e in (Err ge, w\<lparr>oplog := oplog w @ lines\<rparr>))"

definition resolve_info :: "caller \<Rightarrow> ('c, 'l, 'k) world \<Rightarrow> gql_outcome \<times> ('c, 'l, 'k) world" where
  "resolve_info c w =
     (Ok (InfoOut \<lparr>ti_name = tok_name (caller_token c), ti_sites = tok_sites (caller_token c),
        ti_scopes = map scope_as_str (tok_scopes (caller_token c)),
        ti_max_vouchers_per_request = as_i32 (max_vouchers (caller_ceilings c)),
        ti_max_validity_minutes = as_i64 (max_validity (caller_ceilings c))\<rparr>), w)"

definition resolve_sites :: "('c, 'l, 'k) lib \<Rightarrow> caller \<Rightarrow> ('c, 'l, 'k) world
    \<Rightarrow> gql_outcome \<times> ('c, 'l, 'k) world" where
  "resolve_sites lib c w =
     (let li = current w in
      case require_scope c SitesRead of
        Err e \<Rightarrow> fail_gql e w
      | Ok _ \<Rightarrow>
     (case charge lib li c (str ''graphql:sites'') w of
        (Err e, w1) \<Rightarrow> fail_gql e w1
      | (Ok _, w1) \<Rightarrow>
     (case list_sites_call (lib_transport lib) (lib_parse_json lib) (lv_upstream (live_at w1 li)) w1 of
        (Err e, w2) \<Rightarrow> fail_gql e w2
      | (Ok body, w2) \<Rightarrow>
          (Ok (SitesOut (filter (\<lambda>s. allows_site (caller_token c) (site_id s)) (site_list body))),
           w2\<lparr>counters := record_upstream (of_nat (mono w2 - mono w1)) (counters w2)\<rparr>))))"

definition resolve_vouchers :: "('c, 'l, 'k) lib \<Rightarrow> caller \<Rightarrow> rstr \<Rightarrow> ('c, 'l, 'k) world
    \<Rightarrow> gql_outcome \<times> ('c, 'l, 'k) world" where
  "resolve_vouchers lib c s w =
     (let li = current w in
      case require_scope c VouchersRead of
        Err e \<Rightarrow> fail_gql e w
      | Ok _ \<Rightarrow>
     (case require_site c s of
        Err e \<Rightarrow> fail_gql e w
      | Ok _ \<Rightarrow>
     (case charge lib li c (str ''graphql:vouchers'') w of
        (Err e, w1) \<Rightarrow> fail_gql e w1
      | (Ok _, w1) \<Rightarrow>
     (case list_vouchers_call (lib_transport lib) (lib_parse_json lib) (lv_upstream (live_at w1 li)) s w1 of
        (Err e, w2) \<Rightarrow> fail_gql e w2
      | (Ok body, w2) \<Rightarrow>
          (Ok (VouchersOut (voucher_list body)),
           w2\<lparr>counters := record_upstream (of_nat (mono w2 - mono w1)) (counters w2)\<rparr>)))))"

definition resolve_create_vouchers :: "('c, 'l, 'k) lib \<Rightarrow> caller \<Rightarrow> rstr \<Rightarrow> create_voucher_input
    \<Rightarrow> ('c, 'l, 'k) world \<Rightarrow> gql_outcome \<times> ('c, 'l, 'k) world" where
  "resolve_create_vouchers lib c s input w =
     (let li = current w in
      case require_scope c VouchersCreate of
        Err e \<Rightarrow> fail_gql e w
      | Ok _ \<Rightarrow>
     (case require_site c s of
        Err e \<Rightarrow> fail_gql e w
      | Ok _ \<Rightarrow>
     (case charge lib li c (str ''graphql:createVouchers'') w of
        (Err e, w1) \<Rightarrow> fail_gql e w1
      | (Ok _, w1) \<Rightarrow>
     (let request = request_of_input input in
      case enforce request (caller_ceilings c) of
        Err e \<Rightarrow> fail_gql e w1
      | Ok _ \<Rightarrow>
     (case to_upstream_body (lib_to_value lib) request of
        Err e \<Rightarrow> fail_gql e w1
      | Ok out \<Rightarrow>
     (case create_vouchers_call (lib_transport lib) (lib_parse_json lib) (lv_upstream (live_at w1 li))
             s out w1 of
        (Err e, w2) \<Rightarrow> fail_gql e w2
      | (Ok body, w2) \<Rightarrow>
          (Ok (VouchersOut (voucher_list body)),
           w2\<lparr>counters := record_vouchers_created (caller_name c) (cv_count request)
               (record_upstream (of_nat (mono w2 - mono w1)) (counters w2))\<rparr>)))))))"

definition resolve_revoke_voucher :: "('c, 'l, 'k) lib \<Rightarrow> caller \<Rightarrow> rstr \<Rightarrow> rstr \<Rightarrow> ('c, 'l, 'k) world
    \<Rightarrow> gql_outcome \<times> ('c, 'l, 'k) world" where
  "resolve_revoke_voucher lib c s v w =
     (let li = current w in
      case require_scope c VouchersRevoke of
        Err e \<Rightarrow> fail_gql e w
      | Ok _ \<Rightarrow>
     (case require_site c s of
        Err e \<Rightarrow> fail_gql e w
      | Ok _ \<Rightarrow>
     (case charge lib li c (str ''graphql:revokeVoucher'') w of
        (Err e, w1) \<Rightarrow> fail_gql e w1
      | (Ok _, w1) \<Rightarrow>
     (case delete_voucher_call (lib_transport lib) (lib_parse_json lib) (lv_upstream (live_at w1 li))
             s v w1 of
        (Err e, w2) \<Rightarrow> fail_gql e w2
      | (Ok body, w2) \<Rightarrow>
          (Ok (RevokeOut \<lparr>rv_id = v, rv_revoked = True\<rparr>),
           w2\<lparr>counters := record_upstream (of_nat (mono w2 - mono w1)) (counters w2)\<rparr>)))))"

text \<open>The fields of \<open>Query\<close> and \<open>Mutation\<close> with their arguments, and the resolver of each.\<close>

datatype gql_call =
    GqlInfo
  | GqlSites
  | GqlVouchers rstr
  | GqlCreateVouchers rstr create_voucher_input
  | GqlRevokeVoucher rstr rstr

fun resolve :: "('c, 'l, 'k) lib \<Rightarrow> gql_call \<Rightarrow> caller \<Rightarrow> ('c, 'l, 'k) world
    \<Rightarrow> gql_outcome \<times> ('c, 'l, 'k) world" where
  "resolve lib GqlInfo c w = resolve_info c w"
| "resolve lib GqlSites c w = resolve_sites lib c w"
| "resolve lib (GqlVouchers s) c w = resolve_vouchers lib c s w"
| "resolve lib (GqlCreateVouchers s i) c w = resolve_create_vouchers lib c s i w"
| "resolve lib (GqlRevokeVoucher s v) c w = resolve_revoke_voucher lib c s v w"

section \<open>describe\<close>

definition describe :: "(json \<Rightarrow> rstr) \<Rightarrow> rstr \<Rightarrow> rstr" where
  "describe json_text query =
     (let knd = (if starts_with (trim_start query) (str ''mutation'') then str ''mutation''
                 else str ''query'')
      in json_text (json_object [(str ''kind'', JString knd),
           (str ''bytes'', JNumber (PosInt (of_nat (byte_len query))))]))"

end
