(* ===== verification/Gql_Laws.thy ===== *)
theory Gql_Laws
  imports Gql_Surface
begin

text \<open>
  Each resolver is the guarded operation of its field, with the error mapped, the result viewed
  and the counters of a success recorded. From that the resolvers meet the contract of a
  surface.
\<close>

section \<open>What a field stands for\<close>

fun gql_scope :: "gql_call \<Rightarrow> scope" where
  "gql_scope (GqlVouchers s) = VouchersRead"
| "gql_scope (GqlCreateVouchers s i) = VouchersCreate"
| "gql_scope (GqlRevokeVoucher s v) = VouchersRevoke"
| "gql_scope _ = SitesRead"

fun gql_site :: "gql_call \<Rightarrow> rstr option" where
  "gql_site (GqlVouchers s) = Some s"
| "gql_site (GqlCreateVouchers s i) = Some s"
| "gql_site (GqlRevokeVoucher s v) = Some s"
| "gql_site _ = None"

fun gql_action :: "gql_call \<Rightarrow> rstr" where
  "gql_action (GqlVouchers s) = str ''graphql:vouchers''"
| "gql_action (GqlCreateVouchers s i) = str ''graphql:createVouchers''"
| "gql_action (GqlRevokeVoucher s v) = str ''graphql:revokeVoucher''"
| "gql_action _ = str ''graphql:sites''"

definition create_prep :: "('c, 'l, 'k) lib \<Rightarrow> caller \<Rightarrow> rstr \<Rightarrow> create_voucher_request
    \<Rightarrow> (upstream_op, proxy_error) result" where
  "create_prep lib c s req =
     and_then (enforce req (caller_ceilings c)) (\<lambda>_.
       map_ok (OpCreateVouchers s) (to_upstream_body (lib_to_value lib) req))"

fun gql_prep :: "('c, 'l, 'k) lib \<Rightarrow> caller \<Rightarrow> gql_call \<Rightarrow> (upstream_op, proxy_error) result" where
  "gql_prep lib c (GqlVouchers s) = Ok (OpListVouchers s)"
| "gql_prep lib c (GqlCreateVouchers s i) = create_prep lib c s (request_of_input i)"
| "gql_prep lib c (GqlRevokeVoucher s v) = Ok (OpDeleteVoucher s v)"
| "gql_prep lib c _ = Ok OpListSites"

fun gql_view :: "caller \<Rightarrow> gql_call \<Rightarrow> json \<Rightarrow> gql_value" where
  "gql_view c GqlSites body =
     SitesOut (filter (\<lambda>s. allows_site (caller_token c) (site_id s)) (site_list body))"
| "gql_view c (GqlRevokeVoucher s v) body = RevokeOut \<lparr>rv_id = v, rv_revoked = True\<rparr>"
| "gql_view c _ body = VouchersOut (voucher_list body)"

fun gql_count :: "caller \<Rightarrow> gql_call \<Rightarrow> metrics \<Rightarrow> metrics" where
  "gql_count c (GqlCreateVouchers s i) m = record_vouchers_created (caller_name c) (ci_count i) m"
| "gql_count c _ m = m"

definition gql_shape :: "caller \<Rightarrow> gql_call
    \<Rightarrow> ((json, proxy_error) result \<times> nat) \<times> ('c, 'l, 'k) world
    \<Rightarrow> gql_outcome \<times> ('c, 'l, 'k) world" where
  "gql_shape c k res = (case res of ((r, ms), w) \<Rightarrow>
     (case r of
        Err e \<Rightarrow> fail_gql e w
      | Ok body \<Rightarrow> (Ok (gql_view c k body),
          w\<lparr>counters := gql_count c k (record_upstream (of_nat ms) (counters w))\<rparr>)))"

definition gql_guarded :: "('c, 'l, 'k) lib \<Rightarrow> gql_call \<Rightarrow> caller \<Rightarrow> ('c, 'l, 'k) world
    \<Rightarrow> ((json, proxy_error) result \<times> nat) \<times> ('c, 'l, 'k) world" where
  "gql_guarded lib k c w = guarded_op lib (current w) c (gql_scope k) (gql_site k) (gql_action k)
     (gql_prep lib c k) w"

section \<open>The refinement\<close>

lemma resolve_sites_refines:
  "resolve_sites lib c w = gql_shape c GqlSites (gql_guarded lib GqlSites c w)"
  by (simp add: resolve_sites_def gql_shape_def gql_guarded_def guarded_op_def require_site_opt_def
      upstream_call_def Let_def split: sum.split prod.split)

lemma resolve_vouchers_refines:
  "resolve_vouchers lib c s w = gql_shape c (GqlVouchers s) (gql_guarded lib (GqlVouchers s) c w)"
  by (simp add: resolve_vouchers_def gql_shape_def gql_guarded_def guarded_op_def require_site_opt_def
      upstream_call_def Let_def split: sum.split prod.split)

lemma resolve_revoke_refines:
  "resolve_revoke_voucher lib c s v w =
     gql_shape c (GqlRevokeVoucher s v) (gql_guarded lib (GqlRevokeVoucher s v) c w)"
  by (simp add: resolve_revoke_voucher_def gql_shape_def gql_guarded_def guarded_op_def
      require_site_opt_def upstream_call_def Let_def split: sum.split prod.split)

lemma cv_count_of_input [simp]: "cv_count (request_of_input i) = ci_count i"
  by (simp add: request_of_input_def)

lemma resolve_create_refines:
  "resolve_create_vouchers lib c s i w =
     gql_shape c (GqlCreateVouchers s i) (gql_guarded lib (GqlCreateVouchers s i) c w)"
proof (cases "enforce (request_of_input i) (caller_ceilings c)")
  case (Inl e)
  then show ?thesis
    by (simp add: resolve_create_vouchers_def gql_shape_def gql_guarded_def guarded_op_def
        require_site_opt_def create_prep_def Let_def split: sum.split prod.split)
next
  case e: (Inr u)
  show ?thesis
  proof (cases "to_upstream_body (lib_to_value lib) (request_of_input i)")
    case (Inl x)
    with e show ?thesis
      by (simp add: resolve_create_vouchers_def gql_shape_def gql_guarded_def guarded_op_def
          require_site_opt_def create_prep_def Let_def split: sum.split prod.split)
  next
    case (Inr b)
    with e show ?thesis
      by (simp add: resolve_create_vouchers_def gql_shape_def gql_guarded_def guarded_op_def
          require_site_opt_def create_prep_def upstream_call_def Let_def split: sum.split prod.split)
  qed
qed

lemma resolve_refines:
  "k \<noteq> GqlInfo \<Longrightarrow> resolve lib k c w = gql_shape c k (gql_guarded lib k c w)"
  by (cases k) (simp_all add: resolve_sites_refines resolve_vouchers_refines
      resolve_create_refines resolve_revoke_refines)

section \<open>The contract\<close>

lemma fail_gql_frame [simp]:
  "sent (snd (fail_gql e w)) = sent w" "charged (snd (fail_gql e w)) = charged w"
  "audit (snd (fail_gql e w)) = audit w" "current (snd (fail_gql e w)) = current w"
  "counters (snd (fail_gql e w)) = counters w" "lives (snd (fail_gql e w)) = lives w"
  "config_path (snd (fail_gql e w)) = config_path w"
  by (simp_all add: fail_gql_def Let_def split: prod.split)

lemma gql_shape_frame [simp]:
  "sent (snd (gql_shape c k x)) = sent (snd x)" "charged (snd (gql_shape c k x)) = charged (snd x)"
  "audit (snd (gql_shape c k x)) = audit (snd x)" "current (snd (gql_shape c k x)) = current (snd x)"
  "lives (snd (gql_shape c k x)) = lives (snd x)"
  "config_path (snd (gql_shape c k x)) = config_path (snd x)"
  by (simp_all add: gql_shape_def split: prod.split sum.split)

lemma wf_gql_count [simp]: "wf_metrics m \<Longrightarrow> wf_metrics (gql_count c k m)"
  by (cases k) simp_all

lemma gql_shape_metrics: "wf_metrics (counters (snd x)) \<Longrightarrow> wf_metrics (counters (snd (gql_shape c k x)))"
  by (auto simp: gql_shape_def split: prod.split sum.split)

lemma wf_world_same:
  "wf_world lib w \<Longrightarrow> lives w' = lives w \<Longrightarrow> current w' = current w \<Longrightarrow> wf_metrics (counters w') \<Longrightarrow>
     wf_world lib w'"
  by (simp add: wf_world_def)

lemma grows_same:
  "grows u w \<Longrightarrow> lives w' = lives w \<Longrightarrow> sent w' = sent w \<Longrightarrow> audit w' = audit w \<Longrightarrow>
     charged w' = charged w \<Longrightarrow> config_path w' = config_path w \<Longrightarrow> grows u w'"
  by (simp add: grows_def)

lemma justified_same: "lives w' = lives w \<Longrightarrow> justified lib w' c r = justified lib w c r"
  by (simp add: justified_def live_at_def)

lemma create_prep_Ok_iff:
  "create_prep lib c s req = Ok op \<longleftrightarrow>
     (\<exists>b. op = OpCreateVouchers s b \<and> lib_to_value lib req = Ok b \<and>
          enforce req (caller_ceilings c) = Ok ())"
  by (auto simp: create_prep_def to_upstream_body_def and_then_Ok_iff map_ok_Ok_iff map_err_Ok_iff)

lemma gql_prep_fits:
  "gql_prep lib c k = Ok op \<Longrightarrow>
     op_scope op = gql_scope k \<and> op_site op = gql_site k \<and> body_ok lib c op"
  by (cases k) (auto simp: create_prep_Ok_iff body_ok_def)

text \<open>A guarded operation whose preparation fits its guards sends only justified requests.\<close>

lemma guarded_op_sends:
  assumes wf: "wf_world lib w"
    and fits: "\<And>op. prep = Ok op \<Longrightarrow> op_scope op = sc \<and> op_site op = site \<and> body_ok lib c op"
    and w'_def: "w' = snd (guarded_op lib (current w) c sc site a prep w)"
  shows "sent w' = sent w \<or> (\<exists>r. sent w' = sent w @ [r] \<and> justified lib w' c r \<and>
            charged w' = charged w @ [caller_name c])"
proof (cases "goes_out lib (current w) c sc site prep w")
  case True
  then obtain op where op: "prep = Ok op" "op_valid op" "permitted c sc site"
    "quota_allows lib (current w) c w"
    by (auto simp: goes_out_def split: sum.splits)
  have cur: "current w < length (lives w)" using wf by (rule wf_worldD)
  have g: "grows w w'" unfolding w'_def by (rule guarded_op_grows)
  have "allowed_op lib c op" using op fits [OF op(1)] by (simp add: allowed_op_def)
  then have "justified lib w c (op_request (lv_upstream (live_at w (current w))) op)"
    using cur by (auto simp: justified_def)
  then have "justified lib w' c (op_request (lv_upstream (live_at w (current w))) op)"
    using g by (rule justified_grows)
  with True op show ?thesis
    by (auto simp: w'_def guarded_op_sent [OF cur] guarded_op_charged)
next
  case False
  have cur: "current w < length (lives w)" using wf by (rule wf_worldD)
  with False show ?thesis by (simp add: w'_def guarded_op_sent)
qed

lemma resolve_wf: "wf_world lib w \<Longrightarrow> wf_world lib (snd (resolve lib k c w))"
proof (cases "k = GqlInfo")
  case False
  assume wf: "wf_world lib w"
  have "wf_world lib (snd (gql_guarded lib k c w))"
    unfolding gql_guarded_def using wf by (rule guarded_op_wf)
  moreover from this have "wf_metrics (counters (snd (gql_shape c k (gql_guarded lib k c w))))"
    by (intro gql_shape_metrics wf_worldD(2))
  ultimately show ?thesis
    unfolding resolve_refines [OF False] by (auto intro: wf_world_same)
qed (simp add: resolve_info_def)

lemma resolve_grows: "grows w (snd (resolve lib k c w))"
proof (cases "k = GqlInfo")
  case False
  have "grows w (snd (gql_guarded lib k c w))"
    unfolding gql_guarded_def by (rule guarded_op_grows)
  then show ?thesis
    unfolding resolve_refines [OF False] by (rule grows_same) simp_all
qed (simp add: resolve_info_def)

lemma resolve_sends:
  assumes "wf_world lib w"
  shows "sent (snd (resolve lib k c w)) = sent w \<or>
      (\<exists>r. sent (snd (resolve lib k c w)) = sent w @ [r] \<and>
           justified lib (snd (resolve lib k c w)) c r \<and>
           charged (snd (resolve lib k c w)) = charged w @ [caller_name c])"
proof (cases "k = GqlInfo")
  case False
  have "justified lib (snd (gql_shape c k x)) c r = justified lib (snd x) c r" for x r
    by (rule justified_same) simp
  then show ?thesis
    using guarded_op_sends [where prep = "gql_prep lib c k" and a = "gql_action k",
        OF assms gql_prep_fits refl]
    by (simp add: resolve_refines [OF False] gql_guarded_def)
qed (simp add: resolve_info_def)

interpretation gql: guarded_surface lib "resolve lib" for lib
proof (unfold_locales, goal_cases)
  case (1 w k c)
  then show ?case by (rule resolve_wf)
next
  case (2 w k c)
  show ?case by (rule resolve_grows)
next
  case (3 k c w)
  show ?case
    by (cases "k = GqlInfo") (simp_all add: resolve_info_def resolve_refines gql_guarded_def)
next
  case (4 w k c)
  then show ?case by (rule resolve_sends)
qed

section \<open>Properties\<close>

text \<open>
  Both surfaces report an error the same way: the GraphQL extensions carry the status and the
  tag of the error, the message is the one REST answers with, and an internal error shows a fixed
  text and a 500 on both, its detail going to the operator's log only.
\<close>

theorem surfaces_agree_on_errors:
  "ge_status (snd (to_gql e)) = int (fst (rest_render e)) \<and>
   ge_code (snd (to_gql e)) = kind e \<and>
   ge_message (snd (to_gql e)) = rest_message (rest_render e) \<and>
   fst (to_gql e) = fst (into_response e) \<and>
   to_gql (Internal detail) = ([InternalError detail],
     \<lparr>ge_message = str ''internal proxy error'', ge_code = str ''internal'', ge_status = 500\<rparr>)"
  using rest.shows_status [of e] rest.shows_message [of e]
  by (simp add: to_gql_eq into_response_eq)

text \<open>
  The audit description of a GraphQL document reveals its kind and its size only: two documents
  of the same byte length that agree on starting with \<open>mutation\<close> are described identically.
\<close>

theorem description_hides_document:
  assumes "byte_len a = byte_len b"
    and "starts_with (trim_start a) (str ''mutation'') = starts_with (trim_start b) (str ''mutation'')"
  shows "describe json_text a = describe json_text b"
  using assms by (simp add: describe_def)

theorem description_hides_document_witness:
  "describe (\<lambda>v. []) (str ''{a}'') = describe (\<lambda>v. []) (str ''{b}'')"
  by (rule description_hides_document)
     (simp_all add: str_def byte_len_def utf8_width_def trim_start_def is_whitespace_def starts_with_def)

end
