(* ===== verification/Rest_Routes.thy ===== *)
theory Rest_Routes
  imports Gql_Laws
begin

text \<open>
  \<open>src/routes.rs\<close>: the REST handlers, the GraphQL endpoint, the route table and the fallbacks.
  Path matching, percent-decoding, body extraction and the body limit are \<open>axum\<close>'s and
  \<open>tower-http\<close>'s; the GraphQL engine is \<open>async-graphql\<close>'s: they are the fields of \<open>web\<close>.
  A request is served in two phases, as in the code: extraction of the handler's arguments,
  then the handler. Each takes its own guard on the current \<open>Live\<close>.
\<close>

section \<open>The web framework\<close>

type_synonym rejection = "status_code \<times> rstr"

record gql_request =
  gq_query :: rstr
  gq_variables :: json
  gq_operation :: "rstr option"

datatype rs_body = JsonBody json | TextBody rstr rstr | HtmlBody rstr | EmptyBody

record response =
  rs_status :: status_code
  rs_body :: rs_body

record web =
  web_match :: "rstr list \<Rightarrow> rstr \<Rightarrow> (rstr \<times> rstr list) option"
  web_path1 :: "rstr list \<Rightarrow> (rstr, rejection) result"
  web_path2 :: "rstr list \<Rightarrow> (rstr \<times> rstr, rejection) result"
  web_json :: "parts \<Rightarrow> nat list \<Rightarrow> (json, rejection) result"
  web_gql_request :: "parts \<Rightarrow> nat list \<Rightarrow> (gql_request, rejection) result"
  web_limit :: "nat \<Rightarrow> parts \<Rightarrow> nat list \<Rightarrow> response option"
  web_engine :: "gql_request \<Rightarrow> (gql_call \<times> gql_outcome) list \<Rightarrow> gql_call list \<Rightarrow> gql_call option"
  web_fails :: "gql_request \<Rightarrow> (gql_call \<times> gql_outcome) list \<Rightarrow> bool"
  web_gql_response :: "gql_request \<Rightarrow> (gql_call \<times> gql_outcome) list \<Rightarrow> bool \<times> json"
  web_sdl :: rstr
  web_graphiql :: "rstr \<Rightarrow> rstr"

text \<open>The version in \<open>Cargo.toml\<close>, which \<open>env!("CARGO_PKG_VERSION")\<close> expands to.\<close>

definition CARGO_PKG_VERSION :: rstr where
  "CARGO_PKG_VERSION = str ''0.1.1''"

definition respond :: "(json, proxy_error) result \<times> ('c, 'l, 'k) world
    \<Rightarrow> response \<times> ('c, 'l, 'k) world" where
  "respond x = (case x of (r, w) \<Rightarrow>
     (case r of
        Ok body \<Rightarrow> (\<lparr>rs_status = 200, rs_body = JsonBody body\<rparr>, w)
      | Err e \<Rightarrow> (let (lines, st, body) = into_response e in
          (\<lparr>rs_status = st, rs_body = JsonBody body\<rparr>, w\<lparr>oplog := oplog w @ lines\<rparr>))))"

definition reject :: "rejection \<Rightarrow> response" where
  "reject r = \<lparr>rs_status = fst r, rs_body = TextBody (str ''text/plain; charset=utf-8'') (snd r)\<rparr>"

section \<open>finish and filter\_sites\<close>

definition finish :: "caller \<Rightarrow> rstr \<Rightarrow> rstr option \<Rightarrow> rstr option \<Rightarrow> u32 option \<Rightarrow> nat \<Rightarrow> nat
    \<Rightarrow> (json, proxy_error) result \<Rightarrow> ('c, 'l, 'k) world
    \<Rightarrow> (json, proxy_error) result \<times> ('c, 'l, 'k) world" where
  "finish c action site target cnt started up_ms result w =
     (let (st, outcome) = (case result of Ok _ \<Rightarrow> (200, str ''ok'') | Err e \<Rightarrow> (status e, kind e));
          m1 = record_upstream (of_nat up_ms)
                 (record_request (caller_name c) action outcome (counters w));
          m2 = (if is_ok result then
                  (case cnt of Some n \<Rightarrow> record_vouchers_created (caller_name c) n m1 | None \<Rightarrow> m1)
                else m1)
      in (result, w\<lparr>counters := m2,
            audit := audit w @ [emit \<lparr>au_token = caller_name c, au_action = action, au_site = site,
              au_target = target, au_count = cnt, au_status = st, au_outcome = outcome,
              au_elapsed = mono w - started\<rparr>]\<rparr>))"

definition filter_sites :: "json \<Rightarrow> caller \<Rightarrow> json" where
  "filter_sites body c =
     (if list_ex (\<lambda>s. s = str ''*'') (tok_sites (caller_token c)) then body
      else (case Option.bind (get body (str ''data'')) value_as_array of
          None \<Rightarrow> body
        | Some list \<Rightarrow>
            json_object [(str ''data'', JArray (filter (\<lambda>site.
              (case Option.bind (get site (str ''id'')) value_as_str of
                 Some i \<Rightarrow> allows_site (caller_token c) i | None \<Rightarrow> False)) list))]))"

section \<open>The four operations\<close>

definition list_sites :: "('c, 'l, 'k) lib \<Rightarrow> caller \<Rightarrow> ('c, 'l, 'k) world
    \<Rightarrow> (json, proxy_error) result \<times> ('c, 'l, 'k) world" where
  "list_sites lib c w =
     (let started = mono w; li = current w;
          ((result, up), w') =
            (case require_scope c SitesRead of
               Err e \<Rightarrow> ((Err e, 0), w)
             | Ok _ \<Rightarrow>
            (case charge lib li c (str ''sites:list'') w of
               (Err e, w1) \<Rightarrow> ((Err e, 0), w1)
             | (Ok _, w1) \<Rightarrow>
                 (let (body, w2) = list_sites_call (lib_transport lib) (lib_parse_json lib)
                        (lv_upstream (live_at w1 li)) w1
                  in ((map_ok (\<lambda>b. filter_sites b c) body, mono w2 - mono w1), w2))))
      in finish c (str ''sites:list'') None None None started up result w')"

definition list_vouchers :: "('c, 'l, 'k) lib \<Rightarrow> caller \<Rightarrow> rstr \<Rightarrow> ('c, 'l, 'k) world
    \<Rightarrow> (json, proxy_error) result \<times> ('c, 'l, 'k) world" where
  "list_vouchers lib c site w =
     (let started = mono w; li = current w;
          ((result, up), w') =
            (case require_scope c VouchersRead of
               Err e \<Rightarrow> ((Err e, 0), w)
             | Ok _ \<Rightarrow>
            (case require_site c site of
               Err e \<Rightarrow> ((Err e, 0), w)
             | Ok _ \<Rightarrow>
            (case charge lib li c (str ''vouchers:list'') w of
               (Err e, w1) \<Rightarrow> ((Err e, 0), w1)
             | (Ok _, w1) \<Rightarrow>
                 (let (body, w2) = list_vouchers_call (lib_transport lib) (lib_parse_json lib)
                        (lv_upstream (live_at w1 li)) site w1
                  in ((body, mono w2 - mono w1), w2)))))
      in finish c (str ''vouchers:list'') (Some site) None None started up result w')"

definition create_vouchers :: "('c, 'l, 'k) lib \<Rightarrow> caller \<Rightarrow> rstr \<Rightarrow> json \<Rightarrow> ('c, 'l, 'k) world
    \<Rightarrow> (json, proxy_error) result \<times> ('c, 'l, 'k) world" where
  "create_vouchers lib c site body w =
     (let started = mono w; li = current w;
          ((result, up, cnt), w') =
            (case require_scope c VouchersCreate of
               Err e \<Rightarrow> ((Err e, 0, None), w)
             | Ok _ \<Rightarrow>
            (case require_site c site of
               Err e \<Rightarrow> ((Err e, 0, None), w)
             | Ok _ \<Rightarrow>
            (case charge lib li c (str ''vouchers:create'') w of
               (Err e, w1) \<Rightarrow> ((Err e, 0, None), w1)
             | (Ok _, w1) \<Rightarrow>
            (case parse (lib_from_value lib) body of
               Err e \<Rightarrow> ((Err e, 0, None), w1)
             | Ok request \<Rightarrow>
            (case enforce request (caller_ceilings c) of
               Err e \<Rightarrow> ((Err e, 0, None), w1)
             | Ok _ \<Rightarrow>
            (case to_upstream_body (lib_to_value lib) request of
               Err e \<Rightarrow> ((Err e, 0, Some (cv_count request)), w1)
             | Ok out \<Rightarrow>
                 (let (created, w2) = create_vouchers_call (lib_transport lib) (lib_parse_json lib)
                        (lv_upstream (live_at w1 li)) site out w1
                  in ((created, mono w2 - mono w1, Some (cv_count request)), w2))))))))
      in finish c (str ''vouchers:create'') (Some site) None cnt started up result w')"

definition delete_voucher :: "('c, 'l, 'k) lib \<Rightarrow> caller \<Rightarrow> rstr \<Rightarrow> rstr \<Rightarrow> ('c, 'l, 'k) world
    \<Rightarrow> (json, proxy_error) result \<times> ('c, 'l, 'k) world" where
  "delete_voucher lib c site voucher w =
     (let started = mono w; li = current w;
          ((result, up), w') =
            (case require_scope c VouchersRevoke of
               Err e \<Rightarrow> ((Err e, 0), w)
             | Ok _ \<Rightarrow>
            (case require_site c site of
               Err e \<Rightarrow> ((Err e, 0), w)
             | Ok _ \<Rightarrow>
            (case charge lib li c (str ''vouchers:revoke'') w of
               (Err e, w1) \<Rightarrow> ((Err e, 0), w1)
             | (Ok _, w1) \<Rightarrow>
                 (let (deleted, w2) = delete_voucher_call (lib_transport lib) (lib_parse_json lib)
                        (lv_upstream (live_at w1 li)) site voucher w1
                  in ((deleted, mono w2 - mono w1), w2)))))
      in finish c (str ''vouchers:revoke'') (Some site) (Some voucher) None started up result w')"

datatype rest_call =
    RestListSites
  | RestListVouchers rstr
  | RestCreateVouchers rstr json
  | RestDeleteVoucher rstr rstr

fun rest_run :: "('c, 'l, 'k) lib \<Rightarrow> rest_call \<Rightarrow> caller \<Rightarrow> ('c, 'l, 'k) world
    \<Rightarrow> (json, proxy_error) result \<times> ('c, 'l, 'k) world" where
  "rest_run lib RestListSites c w = list_sites lib c w"
| "rest_run lib (RestListVouchers s) c w = list_vouchers lib c s w"
| "rest_run lib (RestCreateVouchers s b) c w = create_vouchers lib c s b w"
| "rest_run lib (RestDeleteVoucher s v) c w = delete_voucher lib c s v w"

section \<open>The other handlers\<close>

definition healthz :: json where
  "healthz = json_object [(str ''status'', JString (str ''ok'')),
     (str ''service'', JString (str ''unifi-voucher-proxy''))]"

definition info_body :: "caller \<Rightarrow> json" where
  "info_body c = json_object [
     (str ''service'', JString (str ''unifi-voucher-proxy'')),
     (str ''version'', JString CARGO_PKG_VERSION),
     (str ''token'', JString (tok_name (caller_token c))),
     (str ''sites'', JArray (map JString (tok_sites (caller_token c)))),
     (str ''scopes'', JArray (map (\<lambda>s. JString (scope_as_str s)) (tok_scopes (caller_token c)))),
     (str ''limits'', json_object [
       (str ''maxVouchersPerRequest'', ser_u32 (max_vouchers (caller_ceilings c))),
       (str ''maxValidityMinutes'', ser_u64 (max_validity (caller_ceilings c)))])]"

definition info :: "caller \<Rightarrow> ('c, 'l, 'k) world \<Rightarrow> response \<times> ('c, 'l, 'k) world" where
  "info c w = (\<lparr>rs_status = 200, rs_body = JsonBody (info_body c)\<rparr>,
     w\<lparr>counters := record_request (caller_name c) (str ''info'') (str ''ok'') (counters w)\<rparr>)"

definition graphql_sdl :: "web \<Rightarrow> caller \<Rightarrow> ('c, 'l, 'k) world \<Rightarrow> response \<times> ('c, 'l, 'k) world" where
  "graphql_sdl web c w =
     (\<lparr>rs_status = 200, rs_body = TextBody (str ''text/plain; charset=utf-8'') (web_sdl web)\<rparr>,
      w\<lparr>counters := record_request (caller_name c) (str ''graphql:schema'') (str ''ok'') (counters w)\<rparr>)"

text \<open>
  The next field when none is in flight: \<open>web_engine\<close> is told the outcomes so far and the fields in
  flight, \<open>web_fails\<close> says that a failure among the outcomes ends the document.
\<close>

definition next_field :: "web \<Rightarrow> gql_request \<Rightarrow> (gql_call \<times> gql_outcome) list \<Rightarrow> gql_call option" where
  "next_field web q acc = (if web_fails web q acc then None else web_engine web q acc [])"

definition graphql_handler :: "web \<Rightarrow> ('c, 'l, 'k) lib \<Rightarrow> caller \<Rightarrow> gql_request \<Rightarrow> ('c, 'l, 'k) world
    \<Rightarrow> response \<times> ('c, 'l, 'k) world" where
  "graphql_handler web lib c inner w =
     (let started = mono w;
          shape = describe (lib_json_text lib) (gq_query inner);
          (outcomes, w1) = run_plan (resolve lib) MAX_COMPLEXITY (next_field web inner) [] c w;
          (succeeded, body) = web_gql_response web inner outcomes;
          outcome = (if succeeded then str ''ok'' else str ''graphql_errors'')
      in (\<lparr>rs_status = 200, rs_body = JsonBody body\<rparr>,
          w1\<lparr>counters := record_request (caller_name c) (str ''graphql'') outcome (counters w1),
             audit := audit w1 @ [emit \<lparr>au_token = caller_name c, au_action = str ''graphql'',
               au_site = None, au_target = Some shape, au_count = None,
               au_status = (if succeeded then 200 else 400), au_outcome = outcome,
               au_elapsed = mono w1 - started\<rparr>]\<rparr>))"

fun method_as_str :: "http_method \<Rightarrow> rstr" where
  "method_as_str GET = str ''GET''"
| "method_as_str HEAD = str ''HEAD''"
| "method_as_str POST = str ''POST''"
| "method_as_str PUT = str ''PUT''"
| "method_as_str DELETE = str ''DELETE''"
| "method_as_str PATCH = str ''PATCH''"
| "method_as_str OPTIONS = str ''OPTIONS''"
| "method_as_str (OtherMethod m) = m"

definition not_allowed :: "parts \<Rightarrow> ('c, 'l, 'k) world
    \<Rightarrow> (json, proxy_error) result \<times> ('c, 'l, 'k) world" where
  "not_allowed p w = (Err NotAllowed,
     w\<lparr>audit := audit w @ [rejected (pt_path p) (str ''blocked_'' @ method_as_str (pt_method p)) 403]\<rparr>)"

section \<open>The route table\<close>

definition API :: rstr where
  "API = str ''/proxy/network/integration/v1''"

datatype endpoint =
    EpListSites | EpListVouchers | EpCreateVouchers | EpDeleteVoucher
  | EpGraphql | EpPlayground | EpNotAllowed | EpHealthz | EpInfo | EpSdl

definition routes :: "bool \<Rightarrow> (rstr \<times> (http_method \<times> endpoint) list) list" where
  "routes playground =
     [(API @ str ''/sites'', [(GET, EpListSites)]),
      (API @ str ''/sites/{site}/hotspot/vouchers'',
         [(GET, EpListVouchers), (POST, EpCreateVouchers)]),
      (API @ str ''/sites/{site}/hotspot/vouchers/{voucher}'', [(DELETE, EpDeleteVoucher)]),
      (str ''/graphql'',
         [(POST, EpGraphql), (GET, if playground then EpPlayground else EpNotAllowed)]),
      (str ''/healthz'', [(GET, EpHealthz)]),
      (str ''/proxy/info'', [(GET, EpInfo)]),
      (str ''/graphql/schema'', [(GET, EpSdl)])]"

text \<open>A route's handler for a method; \<open>get\<close> routes also answer \<open>HEAD\<close>.\<close>

definition method_endpoint :: "(http_method \<times> endpoint) list \<Rightarrow> http_method \<Rightarrow> endpoint option" where
  "method_endpoint ms m =
     or_else (map_of ms m) (if m = HEAD then map_of ms GET else None)"

definition route :: "web \<Rightarrow> bool \<Rightarrow> parts \<Rightarrow> (endpoint \<times> rstr \<times> rstr list) option" where
  "route web playground p =
     Option.bind (web_match web (map fst (routes playground)) (pt_path p)) (\<lambda>(tpl, caps).
     Option.bind (map_of (routes playground) tpl) (\<lambda>ms.
     map_option (\<lambda>ep. (ep, tpl, caps)) (method_endpoint ms (pt_method p))))"

section \<open>Extraction, then the handler\<close>

record request =
  rq_parts :: parts
  rq_body :: "nat list"

text \<open>A handler with its arguments.\<close>

datatype ready =
    ReadyInfo caller
  | ReadySdl caller
  | ReadyGraphql caller gql_request
  | ReadyRest caller rest_call

fun ready_caller :: "ready \<Rightarrow> caller" where
  "ready_caller (ReadyInfo c) = c"
| "ready_caller (ReadySdl c) = c"
| "ready_caller (ReadyGraphql c g) = c"
| "ready_caller (ReadyRest c k) = c"

text \<open>
  The arguments after the caller, in the order of the handler's signature; a rejection is the
  framework's own response.
\<close>

definition extract_args :: "web \<Rightarrow> endpoint \<Rightarrow> parts \<Rightarrow> rstr list \<Rightarrow> nat list \<Rightarrow> caller
    \<Rightarrow> (ready, rejection) result" where
  "extract_args web ep p caps body c = (case ep of
     EpListSites \<Rightarrow> Ok (ReadyRest c RestListSites)
   | EpListVouchers \<Rightarrow> map_ok (\<lambda>s. ReadyRest c (RestListVouchers s)) (web_path1 web caps)
   | EpCreateVouchers \<Rightarrow> and_then (web_path1 web caps) (\<lambda>s.
       map_ok (\<lambda>b. ReadyRest c (RestCreateVouchers s b)) (web_json web p body))
   | EpDeleteVoucher \<Rightarrow>
       map_ok (\<lambda>(s, v). ReadyRest c (RestDeleteVoucher s v)) (web_path2 web caps)
   | EpGraphql \<Rightarrow> map_ok (ReadyGraphql c) (web_gql_request web p body)
   | EpSdl \<Rightarrow> Ok (ReadySdl c)
   | _ \<Rightarrow> Ok (ReadyInfo c))"

text \<open>The first phase: a response at once, or a handler ready to run.\<close>

definition accept :: "web \<Rightarrow> ('c, 'l, 'k) lib \<Rightarrow> bool \<Rightarrow> nat \<Rightarrow> request \<Rightarrow> ('c, 'l, 'k) world
    \<Rightarrow> (ready, response) result \<times> ('c, 'l, 'k) world" where
  "accept web lib playground max_body rq w =
     (let p = rq_parts rq in
      case web_limit web max_body p (rq_body rq) of
        Some resp \<Rightarrow> (Err resp, w)
      | None \<Rightarrow>
     (case route web playground p of
        None \<Rightarrow> apfst Err (respond (not_allowed p w))
      | Some (ep, tpl, caps) \<Rightarrow>
     (case ep of
        EpHealthz \<Rightarrow> (Err \<lparr>rs_status = 200, rs_body = JsonBody healthz\<rparr>, w)
      | EpPlayground \<Rightarrow>
          (Err \<lparr>rs_status = 200, rs_body = HtmlBody (web_graphiql web (str ''/graphql''))\<rparr>, w)
      | EpNotAllowed \<Rightarrow> apfst Err (respond (not_allowed p w))
      | _ \<Rightarrow>
     (let pm = p\<lparr>pt_matched := Some tpl\<rparr> in
      case from_request_parts lib pm w of
        (Err e, w1) \<Rightarrow> apfst Err (respond (Err e, w1))
      | (Ok c, w1) \<Rightarrow>
          (case extract_args web ep pm caps (rq_body rq) c of
             Err rej \<Rightarrow> (Err (reject rej), w1)
           | Ok r \<Rightarrow> (Ok r, w1))))))"

text \<open>The second phase.\<close>

definition handle :: "web \<Rightarrow> ('c, 'l, 'k) lib \<Rightarrow> ready \<Rightarrow> ('c, 'l, 'k) world
    \<Rightarrow> response \<times> ('c, 'l, 'k) world" where
  "handle web lib r w = (case r of
     ReadyInfo c \<Rightarrow> info c w
   | ReadySdl c \<Rightarrow> graphql_sdl web c w
   | ReadyGraphql c g \<Rightarrow> graphql_handler web lib c g w
   | ReadyRest c k \<Rightarrow> respond (rest_run lib k c w))"

text \<open>Both phases with nothing in between.\<close>

definition serve :: "web \<Rightarrow> ('c, 'l, 'k) lib \<Rightarrow> bool \<Rightarrow> nat \<Rightarrow> request \<Rightarrow> ('c, 'l, 'k) world
    \<Rightarrow> response \<times> ('c, 'l, 'k) world" where
  "serve web lib playground max_body rq w =
     (case accept web lib playground max_body rq w of
        (Err resp, w1) \<Rightarrow> (resp, w1)
      | (Ok r, w1) \<Rightarrow> handle web lib r w1)"

section \<open>The metrics listener\<close>

definition metrics_handler :: "('c, 'l, 'k) world \<Rightarrow> response" where
  "metrics_handler w = \<lparr>rs_status = 200,
     rs_body = TextBody (str ''text/plain; version=0.0.4; charset=utf-8'')
       (render CARGO_PKG_VERSION (lv_token_count (current_live w)) (counters w))\<rparr>"

definition metrics_serve :: "web \<Rightarrow> parts \<Rightarrow> ('c, 'l, 'k) world \<Rightarrow> response \<times> ('c, 'l, 'k) world" where
  "metrics_serve web p w =
     (case web_match web [str ''/metrics''] (pt_path p) of
        None \<Rightarrow> respond (Err NotAllowed, w)
      | Some _ \<Rightarrow>
          (if pt_method p = GET \<or> pt_method p = HEAD then (metrics_handler w, w)
           else (\<lparr>rs_status = 405, rs_body = EmptyBody\<rparr>, w)))"

end
