(* ===== verification/Rest_Laws.thy ===== *)
theory Rest_Laws
  imports Rest_Routes
begin

text \<open>
  Each REST handler is the guarded operation of its route, viewed and finished: one audit line,
  one count of the request, the latency, and the vouchers of a success. From that the handlers
  meet the contract of a surface.
\<close>

section \<open>What a route stands for\<close>

fun rest_scope :: "rest_call \<Rightarrow> scope" where
  "rest_scope RestListSites = SitesRead"
| "rest_scope (RestListVouchers s) = VouchersRead"
| "rest_scope (RestCreateVouchers s b) = VouchersCreate"
| "rest_scope (RestDeleteVoucher s v) = VouchersRevoke"

fun rest_site :: "rest_call \<Rightarrow> rstr option" where
  "rest_site RestListSites = None"
| "rest_site (RestListVouchers s) = Some s"
| "rest_site (RestCreateVouchers s b) = Some s"
| "rest_site (RestDeleteVoucher s v) = Some s"

fun rest_target :: "rest_call \<Rightarrow> rstr option" where
  "rest_target (RestDeleteVoucher s v) = Some v"
| "rest_target _ = None"

fun rest_action :: "rest_call \<Rightarrow> rstr" where
  "rest_action RestListSites = str ''sites:list''"
| "rest_action (RestListVouchers s) = str ''vouchers:list''"
| "rest_action (RestCreateVouchers s b) = str ''vouchers:create''"
| "rest_action (RestDeleteVoucher s v) = str ''vouchers:revoke''"

fun rest_prep :: "('c, 'l, 'k) lib \<Rightarrow> caller \<Rightarrow> rest_call \<Rightarrow> (upstream_op, proxy_error) result" where
  "rest_prep lib c RestListSites = Ok OpListSites"
| "rest_prep lib c (RestListVouchers s) = Ok (OpListVouchers s)"
| "rest_prep lib c (RestCreateVouchers s b) =
     and_then (parse (lib_from_value lib) b) (create_prep lib c s)"
| "rest_prep lib c (RestDeleteVoucher s v) = Ok (OpDeleteVoucher s v)"

fun rest_view :: "caller \<Rightarrow> rest_call \<Rightarrow> json \<Rightarrow> json" where
  "rest_view c RestListSites b = filter_sites b c"
| "rest_view c _ b = b"

text \<open>The count of an audit record: known once a creation has passed the policy.\<close>

fun rest_count :: "('c, 'l, 'k) lib \<Rightarrow> caller \<Rightarrow> rest_call \<Rightarrow> ('c, 'l, 'k) world \<Rightarrow> u32 option" where
  "rest_count lib c (RestCreateVouchers s b) w =
     (if permitted c VouchersCreate (Some s) \<and> quota_allows lib (current w) c w
      then (case parse (lib_from_value lib) b of
          Err e \<Rightarrow> None
        | Ok req \<Rightarrow> if is_ok (enforce req (caller_ceilings c)) then Some (cv_count req) else None)
      else None)"
| "rest_count lib c _ w = None"

definition rest_guarded :: "('c, 'l, 'k) lib \<Rightarrow> rest_call \<Rightarrow> caller \<Rightarrow> ('c, 'l, 'k) world
    \<Rightarrow> ((json, proxy_error) result \<times> nat) \<times> ('c, 'l, 'k) world" where
  "rest_guarded lib k c w = guarded_op lib (current w) c (rest_scope k) (rest_site k) (rest_action k)
     (rest_prep lib c k) w"

definition rest_finish :: "('c, 'l, 'k) lib \<Rightarrow> rest_call \<Rightarrow> caller \<Rightarrow> ('c, 'l, 'k) world
    \<Rightarrow> ((json, proxy_error) result \<times> nat) \<times> ('c, 'l, 'k) world
    \<Rightarrow> (json, proxy_error) result \<times> ('c, 'l, 'k) world" where
  "rest_finish lib k c w x = (case x of ((r, ms), w1) \<Rightarrow>
     finish c (rest_action k) (rest_site k) (rest_target k) (rest_count lib c k w) (mono w) ms
       (map_ok (rest_view c k) r) w1)"

section \<open>The refinement\<close>

lemma map_ok_id [simp]: "map_ok (\<lambda>b. b) r = r"
  by (cases r) simp_all

lemma rest_view_id: "k \<noteq> RestListSites \<Longrightarrow> rest_view c k = (\<lambda>b. b)"
  by (cases k) (simp_all add: fun_eq_iff)

lemma rest_view_sites: "rest_view c RestListSites = (\<lambda>b. filter_sites b c)"
  by (simp add: fun_eq_iff)

lemma list_sites_refines:
  "list_sites lib c w = rest_finish lib RestListSites c w (rest_guarded lib RestListSites c w)"
  by (simp add: list_sites_def rest_finish_def rest_view_sites rest_guarded_def guarded_op_def require_site_opt_def
      upstream_call_def Let_def split: sum.split prod.split)

lemma list_vouchers_refines:
  "list_vouchers lib c s w =
     rest_finish lib (RestListVouchers s) c w (rest_guarded lib (RestListVouchers s) c w)"
  by (simp add: list_vouchers_def rest_finish_def rest_guarded_def guarded_op_def rest_view_id
      require_site_opt_def upstream_call_def Let_def split: sum.split prod.split)

lemma delete_voucher_refines:
  "delete_voucher lib c s v w =
     rest_finish lib (RestDeleteVoucher s v) c w (rest_guarded lib (RestDeleteVoucher s v) c w)"
  by (simp add: delete_voucher_def rest_finish_def rest_guarded_def guarded_op_def rest_view_id
      require_site_opt_def upstream_call_def Let_def split: sum.split prod.split)

lemma create_vouchers_refines:
  "create_vouchers lib c s b w =
     rest_finish lib (RestCreateVouchers s b) c w (rest_guarded lib (RestCreateVouchers s b) c w)"
proof (cases "permitted c VouchersCreate (Some s)")
  case False
  then consider "\<not> has_scope (caller_token c) VouchersCreate"
    | "has_scope (caller_token c) VouchersCreate" "\<not> allows_site (caller_token c) s"
    by (auto simp: permitted_def)
  then show ?thesis
    by cases (simp_all add: create_vouchers_def rest_finish_def rest_guarded_def guarded_op_def
        require_scope_def require_site_def require_site_opt_def permitted_def Let_def)
next
  case p: True
  then have ok: "require_scope c VouchersCreate = Ok ()" "require_site c s = Ok ()"
    by (simp_all add: permitted_def require_scope_def require_site_def)
  obtain r w1 where w1: "charge lib (current w) c (str ''vouchers:create'') w = (r, w1)"
    by (cases "charge lib (current w) c (str ''vouchers:create'') w")
  then have r: "r = (if quota_allows lib (current w) c w then Ok () else Err RateLimited)"
    using charge_result [of lib "current w" c "str ''vouchers:create''" w] by simp
  note defs = create_vouchers_def rest_finish_def rest_guarded_def guarded_op_def ok w1 r p
    require_site_opt_def create_prep_def Let_def rest_view_id
  show ?thesis
  proof (cases "quota_allows lib (current w) c w")
    case False
    then show ?thesis by (simp add: defs)
  next
    case q: True
    show ?thesis
    proof (cases "parse (lib_from_value lib) b")
      case (Inl e)
      with q show ?thesis by (simp add: defs)
    next
      case req: (Inr req)
      show ?thesis
      proof (cases "enforce req (caller_ceilings c)")
        case (Inl e)
        with q req show ?thesis by (simp add: defs)
      next
        case e: (Inr u)
        show ?thesis
        proof (cases "to_upstream_body (lib_to_value lib) req")
          case (Inl x)
          with q req e show ?thesis by (simp add: defs)
        next
          case (Inr out)
          with q req e show ?thesis
            by (simp add: defs upstream_call_def split: prod.split)
        qed
      qed
    qed
  qed
qed

lemma rest_run_refines:
  "rest_run lib k c w = rest_finish lib k c w (rest_guarded lib k c w)"
  by (cases k) (simp_all add: list_sites_refines list_vouchers_refines create_vouchers_refines
      delete_voucher_refines)

section \<open>finish\<close>

lemma finish_result [simp]: "fst (finish c a s t n st up r w) = r"
  by (simp add: finish_def Let_def split: sum.split)

lemma finish_frame [simp]:
  "sent (snd (finish c a s t n st up r w)) = sent w"
  "charged (snd (finish c a s t n st up r w)) = charged w"
  "current (snd (finish c a s t n st up r w)) = current w"
  "lives (snd (finish c a s t n st up r w)) = lives w"
  "config_path (snd (finish c a s t n st up r w)) = config_path w"
  "argon (snd (finish c a s t n st up r w)) = argon w"
  "oplog (snd (finish c a s t n st up r w)) = oplog w"
  "console (snd (finish c a s t n st up r w)) = console w"
  "mono (snd (finish c a s t n st up r w)) = mono w"
  "wall (snd (finish c a s t n st up r w)) = wall w"
  by (simp_all add: finish_def Let_def split: sum.split)

text \<open>The status and the tag a result is reported with, in the log, the counters and the response.\<close>

definition result_status :: "(json, proxy_error) result \<Rightarrow> nat" where
  "result_status r = (case r of Ok _ \<Rightarrow> 200 | Err e \<Rightarrow> status e)"

definition result_outcome :: "(json, proxy_error) result \<Rightarrow> rstr" where
  "result_outcome r = (case r of Ok _ \<Rightarrow> str ''ok'' | Err e \<Rightarrow> kind e)"

lemma finish_audit:
  "audit (snd (finish c a s t n st up r w)) = audit w @
     [emit \<lparr>au_token = caller_name c, au_action = a, au_site = s, au_target = t, au_count = n,
        au_status = result_status r, au_outcome = result_outcome r, au_elapsed = mono w - st\<rparr>]"
  by (simp add: finish_def result_status_def result_outcome_def Let_def split: sum.split)

lemma finish_counters:
  "counters (snd (finish c a s t n st up r w)) =
     (if is_ok r \<and> n \<noteq> None then record_vouchers_created (caller_name c) (the n) else id)
       (record_upstream (of_nat up) (record_request (caller_name c) a (result_outcome r) (counters w)))"
  by (auto simp: finish_def result_outcome_def Let_def split: sum.split option.split)

lemma finish_wf_metrics:
  "wf_metrics (counters w) \<Longrightarrow> wf_metrics (counters (snd (finish c a s t n st up r w)))"
  by (simp add: finish_counters)

section \<open>The contract\<close>

lemma rest_finish_frame [simp]:
  "sent (snd (rest_finish lib k c w x)) = sent (snd x)"
  "charged (snd (rest_finish lib k c w x)) = charged (snd x)"
  "current (snd (rest_finish lib k c w x)) = current (snd x)"
  "lives (snd (rest_finish lib k c w x)) = lives (snd x)"
  "config_path (snd (rest_finish lib k c w x)) = config_path (snd x)"
  "argon (snd (rest_finish lib k c w x)) = argon (snd x)"
  "wall (snd (rest_finish lib k c w x)) = wall (snd x)"
  by (simp_all add: rest_finish_def split: prod.split)

lemma rest_finish_wf:
  "wf_world lib (snd x) \<Longrightarrow> wf_world lib (snd (rest_finish lib k c w x))"
  by (rule wf_world_same [where w = "snd x"])
     (auto simp: rest_finish_def finish_wf_metrics wf_worldD(2) split: prod.splits)

lemma rest_finish_grows:
  "grows w (snd x) \<Longrightarrow> grows w (snd (rest_finish lib k c w x))"
  by (auto simp: grows_def rest_finish_def finish_audit split: prod.splits)

lemma rest_prep_fits:
  "rest_prep lib c k = Ok op \<Longrightarrow>
     op_scope op = rest_scope k \<and> op_site op = rest_site k \<and> body_ok lib c op"
  by (cases k) (auto simp: create_prep_Ok_iff body_ok_def and_then_Ok_iff)

lemma rest_sends:
  assumes "wf_world lib w"
  shows "sent (snd (rest_run lib k c w)) = sent w \<or>
      (\<exists>r. sent (snd (rest_run lib k c w)) = sent w @ [r] \<and>
           justified lib (snd (rest_run lib k c w)) c r \<and>
           charged (snd (rest_run lib k c w)) = charged w @ [caller_name c])"
proof -
  have "justified lib (snd (rest_finish lib k c w x)) c r = justified lib (snd x) c r" for x r
    by (rule justified_same) simp
  then show ?thesis
    using guarded_op_sends [where prep = "rest_prep lib c k" and a = "rest_action k",
        OF assms rest_prep_fits refl]
    by (simp add: rest_run_refines rest_guarded_def)
qed

interpretation restapi: guarded_surface lib "rest_run lib" for lib
proof (unfold_locales, goal_cases)
  case (1 w k c)
  then show ?case
    unfolding rest_run_refines rest_guarded_def by (intro rest_finish_wf guarded_op_wf)
next
  case (2 w k c)
  show ?case
    unfolding rest_run_refines rest_guarded_def by (intro rest_finish_grows guarded_op_grows)
next
  case (3 k c w)
  show ?case by (simp add: rest_run_refines rest_guarded_def)
next
  case (4 w k c)
  then show ?case by (rule rest_sends)
qed

section \<open>Worlds and results of a handler\<close>

lemma rest_guarded_world:
  assumes "rest_guarded lib k c w = (r, w1)"
  shows "counters w1 = counters w"
    and "audit w1 = audit w @
     (if permitted c (rest_scope k) (rest_site k) \<and> \<not> quota_allows lib (current w) c w
      then [rejected (rest_action k) (str ''rate_limited'') 429] else [])"
proof -
  have "counters (snd (rest_guarded lib k c w)) = counters w" by (simp add: rest_guarded_def)
  then show "counters w1 = counters w" by (simp add: assms)
  have "audit (snd (rest_guarded lib k c w)) = audit w @
     (if permitted c (rest_scope k) (rest_site k) \<and> \<not> quota_allows lib (current w) c w
      then [rejected (rest_action k) (str ''rate_limited'') 429] else [])"
    by (simp add: rest_guarded_def guarded_op_audit)
  then show "audit w1 = audit w @
     (if permitted c (rest_scope k) (rest_site k) \<and> \<not> quota_allows lib (current w) c w
      then [rejected (rest_action k) (str ''rate_limited'') 429] else [])"
    by (simp add: assms)
qed

lemma gql_guarded_counters: "gql_guarded lib k c w = (r, w1) \<Longrightarrow> counters w1 = counters w"
proof -
  assume "gql_guarded lib k c w = (r, w1)"
  moreover have "counters (snd (gql_guarded lib k c w)) = counters w" by (simp add: gql_guarded_def)
  ultimately show ?thesis by simp
qed

lemma rest_run_sent: "sent (snd (rest_run lib k c w)) = sent (snd (rest_guarded lib k c w))"
  by (simp add: rest_run_refines)

lemma rest_run_charged:
  "charged (snd (rest_run lib k c w)) = charged w @
     (if permitted c (rest_scope k) (rest_site k) \<and> quota_allows lib (current w) c w
      then [caller_name c] else [])"
  by (simp add: rest_run_refines rest_guarded_def guarded_op_charged)

lemma gql_run_charged:
  "k \<noteq> GqlInfo \<Longrightarrow> charged (snd (resolve lib k c w)) = charged w @
     (if permitted c (gql_scope k) (gql_site k) \<and> quota_allows lib (current w) c w
      then [caller_name c] else [])"
  by (simp add: resolve_refines gql_guarded_def guarded_op_charged)

lemma respond_status: "rs_status (fst (respond x)) = result_status (fst x)"
  by (simp add: respond_def result_status_def into_response_eq split: sum.split prod.split)

section \<open>Properties\<close>

text \<open>
  C14. A caller without the scope or the site is refused for free: on both surfaces the answer is a
  403, no request goes to the controller, no quota is spent, and no budget, memo or other part of
  any \<open>Live\<close> changes.
\<close>

theorem refusals_are_free:
  "(permitted c (rest_scope k) (rest_site k) \<or>
      (case fst (rest_run lib k c w) of Err e \<Rightarrow> status e = 403 | Ok v \<Rightarrow> False) \<and>
      sent (snd (rest_run lib k c w)) = sent w \<and> charged (snd (rest_run lib k c w)) = charged w \<and>
      lives (snd (rest_run lib k c w)) = lives w) \<and>
   (permitted c (gql_scope g) (gql_site g) \<or> g = GqlInfo \<or>
      (case fst (resolve lib g c w) of Err e \<Rightarrow> ge_status e = 403 | Ok v \<Rightarrow> False) \<and>
      sent (snd (resolve lib g c w)) = sent w \<and> charged (snd (resolve lib g c w)) = charged w \<and>
      lives (snd (resolve lib g c w)) = lives w)"
proof -
  have r: "permitted c (rest_scope k) (rest_site k) \<or>
      (case fst (rest_run lib k c w) of Err e \<Rightarrow> status e = 403 | Ok v \<Rightarrow> False) \<and>
      sent (snd (rest_run lib k c w)) = sent w \<and> charged (snd (rest_run lib k c w)) = charged w \<and>
      lives (snd (rest_run lib k c w)) = lives w"
  proof (cases "permitted c (rest_scope k) (rest_site k)")
    case False
    from guarded_op_refused [OF this, of lib "current w" "rest_action k" "rest_prep lib c k" w]
    show ?thesis by (auto simp: rest_run_refines rest_guarded_def rest_finish_def)
  qed simp
  moreover have "permitted c (gql_scope g) (gql_site g) \<or> g = GqlInfo \<or>
      (case fst (resolve lib g c w) of Err e \<Rightarrow> ge_status e = 403 | Ok v \<Rightarrow> False) \<and>
      sent (snd (resolve lib g c w)) = sent w \<and> charged (snd (resolve lib g c w)) = charged w \<and>
      lives (snd (resolve lib g c w)) = lives w"
  proof (cases "permitted c (gql_scope g) (gql_site g) \<or> g = GqlInfo")
    case False
    then have "\<not> permitted c (gql_scope g) (gql_site g)" and n: "g \<noteq> GqlInfo" by simp_all
    from guarded_op_refused [OF this(1), of lib "current w" "gql_action g" "gql_prep lib c g" w]
    show ?thesis
      by (auto simp: resolve_refines [OF n] gql_guarded_def gql_shape_def fail_gql_def to_gql_eq)
  qed auto
  ultimately show ?thesis by blast
qed

text \<open>
  C15. The quota is spent before the body is looked at: unless the caller is permitted and its quota
  allows the call, the whole outcome of a creation, response, logs, counters and state, does not
  depend on the body at all.
\<close>

theorem charged_before_parsing:
  "permitted c VouchersCreate (Some s) \<and> quota_allows lib (current w) c w \<or>
   create_vouchers lib c s b w = create_vouchers lib c s b' w"
proof (cases "permitted c VouchersCreate (Some s)")
  case False
  then consider "\<not> has_scope (caller_token c) VouchersCreate"
    | "has_scope (caller_token c) VouchersCreate" "\<not> allows_site (caller_token c) s"
    by (auto simp: permitted_def)
  then have "create_vouchers lib c s b w = create_vouchers lib c s b' w"
    by cases (simp_all add: create_vouchers_def require_scope_def require_site_def)
  then show ?thesis by simp
next
  case p: True
  show ?thesis
  proof (cases "quota_allows lib (current w) c w")
    case False
    obtain r w1 where w1: "charge lib (current w) c (str ''vouchers:create'') w = (r, w1)"
      by (cases "charge lib (current w) c (str ''vouchers:create'') w")
    with False have "r = Err RateLimited"
      using charge_result [of lib "current w" c "str ''vouchers:create''" w] by simp
    then have "create_vouchers lib c s b w = create_vouchers lib c s b' w"
      using p w1
      by (simp add: create_vouchers_def permitted_def require_scope_def require_site_def)
    then show ?thesis by simp
  qed (use p in simp)
qed

text \<open>
  C7. What a creation sends. Exactly when the caller has the scope and the site, its quota allows
  the call, the body decodes to a request the policy admits under the caller's ceilings, and the
  site is a well-formed id, one request goes out: the creation on that site with the proxy's own
  encoding of the decoded request. Otherwise nothing goes out.
\<close>

theorem creation_sends:
  assumes "current w < length (lives w)"
  shows "sent (snd (create_vouchers lib c s b w)) = sent w @
     (case lib_from_value lib b of
        Err e \<Rightarrow> []
      | Ok req \<Rightarrow> (case lib_to_value lib req of
            Err e \<Rightarrow> []
          | Ok out \<Rightarrow>
              if permitted c VouchersCreate (Some s) \<and> quota_allows lib (current w) c w \<and>
                 admissible (caller_ceilings c) req \<and> valid_id s
              then [op_request (lv_upstream (current_live w)) (OpCreateVouchers s out)] else []))"
proof -
  let ?k = "RestCreateVouchers s b"
  have "sent (snd (create_vouchers lib c s b w)) = sent w @
      (if goes_out lib (current w) c VouchersCreate (Some s) (rest_prep lib c ?k) w
       then [op_request (lv_upstream (current_live w)) (projr (rest_prep lib c ?k))] else [])"
    using guarded_op_sent [OF assms, of lib c VouchersCreate "Some s" "rest_action ?k" "rest_prep lib c ?k"]
    by (simp add: create_vouchers_refines rest_guarded_def current_live_def)
  also have "(if goes_out lib (current w) c VouchersCreate (Some s) (rest_prep lib c ?k) w
       then [op_request (lv_upstream (current_live w)) (projr (rest_prep lib c ?k))] else []) =
     (case lib_from_value lib b of
        Err e \<Rightarrow> []
      | Ok req \<Rightarrow> (case lib_to_value lib req of
            Err e \<Rightarrow> []
          | Ok out \<Rightarrow>
              if permitted c VouchersCreate (Some s) \<and> quota_allows lib (current w) c w \<and>
                 admissible (caller_ceilings c) req \<and> valid_id s
              then [op_request (lv_upstream (current_live w)) (OpCreateVouchers s out)] else []))"
  proof (cases "lib_from_value lib b")
    case (Inl e)
    then show ?thesis by (simp add: goes_out_def parse_def)
  next
    case req: (Inr req)
    show ?thesis
    proof (cases "enforce req (caller_ceilings c)")
      case (Inl e)
      then have "\<not> admissible (caller_ceilings c) req" by (metis enforce_Ok_iff sum.distinct(1))
      with Inl req show ?thesis
        by (simp add: goes_out_def parse_def create_prep_def split: sum.split)
    next
      case (Inr u)
      then have "admissible (caller_ceilings c) req" by (simp add: enforce_Ok_iff)
      with Inr req show ?thesis
        by (simp add: goes_out_def parse_def create_prep_def to_upstream_body_def split: sum.split)
    qed
  qed
  finally show ?thesis .
qed

text \<open>
  C38. Every REST operation leaves exactly one audit record, and the record, the counter and the
  response agree: the record carries the status the client gets and the outcome the counter is
  incremented under. An over-quota caller leaves one extra line, which names no token.
\<close>

theorem one_record_per_request:
  "audit (snd (rest_run lib k c w)) = audit w @
     (if permitted c (rest_scope k) (rest_site k) \<and> \<not> quota_allows lib (current w) c w
      then [rejected (rest_action k) (str ''rate_limited'') 429] else []) @
     [emit \<lparr>au_token = caller_name c, au_action = rest_action k, au_site = rest_site k,
        au_target = rest_target k, au_count = rest_count lib c k w,
        au_status = rs_status (fst (respond (rest_run lib k c w))),
        au_outcome = result_outcome (fst (rest_run lib k c w)),
        au_elapsed = mono (snd (rest_run lib k c w)) - mono w\<rparr>] \<and>
   requests (counters (snd (rest_run lib k c w))) = requests (record_request (caller_name c)
     (rest_action k) (result_outcome (fst (rest_run lib k c w))) (counters w))"
proof -
  obtain r ms w1 where x: "rest_guarded lib k c w = ((r, ms), w1)"
    by (cases "rest_guarded lib k c w") auto
  note a = rest_guarded_world(2) [OF x] and cn = rest_guarded_world(1) [OF x]
  have run: "rest_run lib k c w = finish c (rest_action k) (rest_site k) (rest_target k)
      (rest_count lib c k w) (mono w) ms (map_ok (rest_view c k) r) w1"
    by (simp add: rest_run_refines rest_finish_def x)
  have st: "rs_status (fst (respond (rest_run lib k c w))) = result_status (map_ok (rest_view c k) r)"
    by (simp add: respond_status run)
  show ?thesis
    unfolding st by (simp add: run finish_audit finish_counters a cn)
qed

text \<open>
  What \<open>uvp_upstream_calls_total\<close> counts. Every REST operation adds one, also when it was
  refused and no call was made; a GraphQL operation adds one exactly when it succeeded, so a call
  that went out and failed is not counted.
\<close>

theorem upstream_counter_meaning:
  "upstream_calls (counters (snd (rest_run lib k c w))) = upstream_calls (counters w) + 1 \<and>
   upstream_calls (counters (snd (resolve lib g c w))) =
     upstream_calls (counters w) + (if g \<noteq> GqlInfo \<and> is_ok (fst (resolve lib g c w)) then 1 else 0)"
proof -
  obtain r ms w1 where x: "rest_guarded lib k c w = ((r, ms), w1)"
    by (cases "rest_guarded lib k c w") auto
  have "counters w1 = counters w" using x by (rule rest_guarded_world)
  then have "upstream_calls (counters (snd (rest_run lib k c w))) = upstream_calls (counters w) + 1"
    by (simp add: rest_run_refines rest_finish_def x finish_counters)
  moreover have "upstream_calls (counters (snd (resolve lib g c w))) =
     upstream_calls (counters w) + (if g \<noteq> GqlInfo \<and> is_ok (fst (resolve lib g c w)) then 1 else 0)"
  proof (cases "g = GqlInfo")
    case True
    then show ?thesis by (simp add: resolve_info_def)
  next
    case False
    obtain r ms w1 where x: "gql_guarded lib g c w = ((r, ms), w1)"
      by (cases "gql_guarded lib g c w") auto
    have "counters w1 = counters w" using x by (rule gql_guarded_counters)
    moreover have "upstream_calls (gql_count c g m) = upstream_calls m" for m
      by (cases g) simp_all
    ultimately show ?thesis
      using False by (cases r) (simp_all add: resolve_refines x gql_shape_def fail_gql_def Let_def
          split: prod.split)
  qed
  ultimately show ?thesis by simp
qed

text \<open>What REST shows of a site list.\<close>

lemma filter_sites_cases:
  "(case get body (str ''data'') of
      Some (JArray xs) \<Rightarrow>
        (if str ''*'' \<in> set (tok_sites (caller_token c)) then filter_sites body c = body
         else (case filter_sites body c of
             JObject [(k, JArray ys)] \<Rightarrow> k = str ''data'' \<and> subseq ys xs \<and>
               list_all (\<lambda>y. case get y (str ''id'') of
                 Some (JString i) \<Rightarrow> i \<in> set (tok_sites (caller_token c)) | _ \<Rightarrow> False) ys \<and>
               length ys = length (filter (\<lambda>x. \<exists>i \<in> set (tok_sites (caller_token c)).
                 get x (str ''id'') = Some (JString i)) xs)
           | _ \<Rightarrow> False))
    | _ \<Rightarrow> filter_sites body c = body)"
proof (cases "Option.bind (get body (str ''data'')) value_as_array")
  case None
  have "filter_sites body c = body" by (simp add: filter_sites_def None)
  moreover from None have "\<not> (\<exists>xs. get body (str ''data'') = Some (JArray xs))"
    by (auto simp: value_as_array_def)
  ultimately show ?thesis by (auto split: option.splits json.splits)
next
  case (Some xs)
  then have xs: "get body (str ''data'') = Some (JArray xs)" by (auto simp: bind_eq_Some_conv)
  show ?thesis
  proof (cases "str ''*'' \<in> set (tok_sites (caller_token c))")
    case True
    then have "list_ex (\<lambda>s. s = str ''*'') (tok_sites (caller_token c))" by (auto simp: list_ex_iff)
    with True show ?thesis by (simp add: xs filter_sites_def)
  next
    case False
    then have no: "\<not> list_ex (\<lambda>s. s = str ''*'') (tok_sites (caller_token c))" by (auto simp: list_ex_iff)
    define keep where "keep = (\<lambda>site. case Option.bind (get site (str ''id'')) value_as_str of
        Some i \<Rightarrow> allows_site (caller_token c) i | None \<Rightarrow> False)"
    have f: "filter_sites body c = JObject [(str ''data'', JArray (filter keep xs))]"
      using no xs by (simp add: filter_sites_def keep_def json_object_def value_as_array_def)
    have keep: "keep x \<longleftrightarrow> (\<exists>i \<in> set (tok_sites (caller_token c)). get x (str ''id'') = Some (JString i))"
      for x
    proof (cases "get x (str ''id'')")
      case (Some v)
      with False show ?thesis by (cases v) (simp_all add: keep_def allows_site_iff value_as_str_def)
    qed (simp add: keep_def)
    have "list_all (\<lambda>y. case get y (str ''id'') of
        Some (JString i) \<Rightarrow> i \<in> set (tok_sites (caller_token c)) | _ \<Rightarrow> False) (filter keep xs)"
      by (auto simp: list_all_iff keep split: option.splits json.splits)
    moreover have "filter keep xs = filter (\<lambda>x. \<exists>i \<in> set (tok_sites (caller_token c)).
        get x (str ''id'') = Some (JString i)) xs"
      by (simp add: keep cong: filter_cong)
    ultimately show ?thesis using False by (simp add: xs f subseq_filter_left)
  qed
qed

text \<open>
  C39. Which sites a caller sees. On REST a site-restricted token sees its own sites in a \<open>data\<close>
  envelope and nothing else: the envelope alone, with the entries whose string id it may use, in the
  controller's order; a wildcard token sees the body as it is; and a body without such an envelope,
  a bare array say, is passed on unfiltered to everyone. GraphQL lists no site the token may not use,
  whatever the body, and reads a bare array as a list.
\<close>

theorem filtered_sites:
  "(case get body (str ''data'') of
      Some (JArray xs) \<Rightarrow>
        (if str ''*'' \<in> set (tok_sites (caller_token c)) then filter_sites body c = body
         else (case filter_sites body c of
             JObject [(k, JArray ys)] \<Rightarrow> k = str ''data'' \<and> subseq ys xs \<and>
               list_all (\<lambda>y. case get y (str ''id'') of
                 Some (JString i) \<Rightarrow> i \<in> set (tok_sites (caller_token c)) | _ \<Rightarrow> False) ys \<and>
               length ys = length (filter (\<lambda>x. \<exists>i \<in> set (tok_sites (caller_token c)).
                 get x (str ''id'') = Some (JString i)) xs)
           | _ \<Rightarrow> False))
    | _ \<Rightarrow> filter_sites body c = body) \<and>
   gql_view c GqlSites (JArray js) = SitesOut (filter (\<lambda>s. allows_site (caller_token c) (site_id s))
     (site_list (JArray js))) \<and>
   (case fst (resolve lib GqlSites c w) of
      Ok (SitesOut ss) \<Rightarrow> list_all (\<lambda>s. allows_site (caller_token c) (site_id s)) ss
    | Ok _ \<Rightarrow> False
    | Err e \<Rightarrow> True)"
proof -
  have "(case fst (gql_shape c GqlSites x) of
      Ok (SitesOut ss) \<Rightarrow> list_all (\<lambda>s. allows_site (caller_token c) (site_id s)) ss
    | Ok _ \<Rightarrow> False
    | Err e \<Rightarrow> True)" for x :: "((json, proxy_error) result \<times> nat) \<times> ('a, 'b, 'c) world"
    by (auto simp: gql_shape_def fail_gql_def Let_def list_all_iff split: prod.split sum.split)
  then show ?thesis using filter_sites_cases [of body c] by (simp add: resolve_sites_refines)
qed

text \<open>The REST call and the GraphQL field that ask for the same operation.\<close>

fun same_call :: "('c, 'l, 'k) lib \<Rightarrow> rest_call \<Rightarrow> gql_call \<Rightarrow> bool" where
  "same_call lib RestListSites GqlSites = True"
| "same_call lib (RestListVouchers s) (GqlVouchers s') = (s = s')"
| "same_call lib (RestCreateVouchers s b) (GqlCreateVouchers s' i) =
     (s = s' \<and> lib_from_value lib b = Ok (request_of_input i))"
| "same_call lib (RestDeleteVoucher s v) (GqlRevokeVoucher s' v') = (s = s' \<and> v = v')"
| "same_call lib _ _ = False"

lemma same_call_guards:
  "same_call lib k g \<Longrightarrow> rest_scope k = gql_scope g \<and> rest_site k = gql_site g \<and>
     rest_prep lib c k = gql_prep lib c g \<and> g \<noteq> GqlInfo"
  by (induction lib k g rule: same_call.induct) (simp_all add: parse_def)

text \<open>
  GraphQL adds convenience, not reach: a field and the REST route that ask for the same
  operation send exactly the same requests to the controller and spend the same quota, whatever
  the caller and the state.
\<close>

theorem surfaces_send_the_same:
  assumes "same_call lib k g" and "current w < length (lives w)"
  shows "sent (snd (rest_run lib k c w)) = sent (snd (resolve lib g c w)) \<and>
    charged (snd (rest_run lib k c w)) = charged (snd (resolve lib g c w))"
proof -
  from same_call_guards [OF assms(1)] have g: "rest_scope k = gql_scope g" "rest_site k = gql_site g"
    "rest_prep lib c k = gql_prep lib c g" and n: "g \<noteq> GqlInfo"
    by simp_all
  have "sent (snd (rest_guarded lib k c w)) = sent (snd (gql_guarded lib g c w))"
    by (simp add: rest_guarded_def gql_guarded_def g guarded_op_sent [OF assms(2)])
  then have "sent (snd (rest_run lib k c w)) = sent (snd (resolve lib g c w))"
    by (simp add: rest_run_sent resolve_refines [OF n])
  then show ?thesis by (simp add: rest_run_charged gql_run_charged [OF n] g)
qed

text \<open>
  C3. Both surfaces implement one contract. Every REST route is the guarded operation of its scope,
  site, action and upstream call, followed by \<open>finish\<close>; every GraphQL field but \<open>info\<close> is the
  guarded operation of its own, followed by shaping the answer. The contract is: scope, site, one
  unit of quota, the caller's data, at most one request, in this order.
\<close>

theorem surfaces_refine_contract:
  "rest_run lib k c w = rest_finish lib k c w
     (guarded_op lib (current w) c (rest_scope k) (rest_site k) (rest_action k) (rest_prep lib c k) w) \<and>
   (g = GqlInfo \<or> resolve lib g c w = gql_shape c g
     (guarded_op lib (current w) c (gql_scope g) (gql_site g) (gql_action g) (gql_prep lib c g) w))"
  using resolve_refines [of g lib c w]
  by (auto simp: rest_run_refines rest_guarded_def gql_guarded_def)

end
