(* ===== verification/Request_Phases.thy ===== *)
theory Request_Phases
  imports Rest_Laws
begin

text \<open>
  What the two phases of a request, extraction and handler, and a reload keep of the state: the
  invariant \<open>wf_world\<close> and the order \<open>grows\<close>. A phase that sends nothing and charges nothing is
  \<open>quiet\<close>. \<open>on_sighup\<close> is \<open>spawn_reload_on_sighup\<close> of \<open>src/main.rs\<close>.
\<close>

section \<open>SIGHUP\<close>

definition on_sighup :: "('c, 'l, 'k) lib \<Rightarrow> (rstr \<Rightarrow> bool) \<Rightarrow> (rstr option \<Rightarrow> (config, anyhow) result)
    \<Rightarrow> ('c, 'l, 'k) world \<Rightarrow> ('c, 'l, 'k) world" where
  "on_sighup lib ex xt w =
     (case reload lib ex xt w of
        (Ok tokens, w1) \<Rightarrow> w1\<lparr>counters := record_reload True (counters w1)\<rparr>
      | (Err e, w1) \<Rightarrow> w1\<lparr>counters := record_reload False (counters w1)\<rparr>)"

section \<open>What each phase keeps\<close>

lemma respond_frame [simp]:
  "sent (snd (respond x)) = sent (snd x)" "charged (snd (respond x)) = charged (snd x)"
  "audit (snd (respond x)) = audit (snd x)" "current (snd (respond x)) = current (snd x)"
  "counters (snd (respond x)) = counters (snd x)" "lives (snd (respond x)) = lives (snd x)"
  "config_path (snd (respond x)) = config_path (snd x)" "argon (snd (respond x)) = argon (snd x)"
  by (simp_all add: respond_def Let_def split: prod.split sum.split)

lemma respond_wf: "wf_world lib (snd x) \<Longrightarrow> wf_world lib (snd (respond x))"
  by (rule wf_world_same) (simp_all add: wf_worldD(2))

lemma respond_grows: "grows w (snd x) \<Longrightarrow> grows w (snd (respond x))"
  by (rule grows_same) simp_all

lemma not_allowed_frame [simp]:
  "sent (snd (not_allowed p w)) = sent w" "charged (snd (not_allowed p w)) = charged w"
  "lives (snd (not_allowed p w)) = lives w" "current (snd (not_allowed p w)) = current w"
  "counters (snd (not_allowed p w)) = counters w"
  "config_path (snd (not_allowed p w)) = config_path w"
  by (simp_all add: not_allowed_def)

lemma not_allowed_grows: "grows w (snd (not_allowed p w))"
  by (simp add: grows_def not_allowed_def)

lemma not_allowed_wf: "wf_world lib w \<Longrightarrow> wf_world lib (snd (not_allowed p w))"
  by (rule wf_world_same) (simp_all add: wf_worldD(2))

text \<open>What a phase that sends nothing keeps.\<close>

definition quiet :: "('c, 'l, 'k) lib \<Rightarrow> ('c, 'l, 'k) world \<Rightarrow> ('c, 'l, 'k) world \<Rightarrow> bool" where
  "quiet lib w w' \<longleftrightarrow> wf_world lib w' \<and> grows w w' \<and> sent w' = sent w \<and> charged w' = charged w"

lemma quiet_refl: "wf_world lib w \<Longrightarrow> quiet lib w w"
  by (simp add: quiet_def)

lemma quiet_not_allowed: "wf_world lib w \<Longrightarrow> quiet lib w (snd (respond (not_allowed p w)))"
  by (simp add: quiet_def respond_wf not_allowed_wf respond_grows not_allowed_grows)

lemma quiet_extraction: "wf_world lib w \<Longrightarrow> quiet lib w (snd (from_request_parts lib p w))"
  by (simp add: quiet_def extraction_wf extraction_grows)

lemma quiet_respond: "quiet lib w (snd x) \<Longrightarrow> quiet lib w (snd (respond x))"
  by (simp add: quiet_def respond_wf respond_grows)

lemma quiet_accept:
  assumes "wf_world lib w"
  shows "quiet lib w (snd (accept web lib pg mb rq w))"
proof -
  have ext: "quiet lib w w1" if "from_request_parts lib pm w = (r, w1)" for pm r w1
    using quiet_extraction [OF assms, of pm] that by simp
  have rsp: "quiet lib w (snd (respond (Err e, w1)))" if "from_request_parts lib pm w = (Err e, w1)"
    for pm e w1
    by (rule quiet_respond) (use ext [OF that] in simp)
  show ?thesis
    unfolding accept_def Let_def
    by (auto split: option.split prod.split sum.split endpoint.split
        intro: ext rsp quiet_refl [OF assms] quiet_not_allowed [OF assms])
qed

lemma extract_args_caller: "extract_args web ep p caps body c = Ok r \<Longrightarrow> ready_caller r = c"
  by (auto simp: extract_args_def and_then_Ok_iff map_ok_Ok_iff split: endpoint.splits)

lemma apfst_Err_not_Ok [simp]: "apfst Inl x \<noteq> (Inr r, w)"
  by (cases x) simp

lemma accept_caller:
  assumes wf: "wf_world lib w" and ok: "accept web lib pg mb rq w = (Ok r, w')"
  shows "caller_of w' (current w) (ready_caller r)"
proof -
  obtain pm where "from_request_parts lib pm w = (Ok (ready_caller r), w')"
    using ok
    by (auto simp: accept_def Let_def dest!: extract_args_caller
        split: option.splits prod.splits sum.splits endpoint.splits)
  then show ?thesis by (rule extraction_Ok(1) [OF wf])
qed

section \<open>The second phase\<close>

lemma info_frame [simp]:
  "sent (snd (info c w)) = sent w" "charged (snd (info c w)) = charged w"
  "current (snd (info c w)) = current w" "lives (snd (info c w)) = lives w"
  "audit (snd (info c w)) = audit w" "config_path (snd (info c w)) = config_path w"
  by (simp_all add: info_def)

lemma sdl_frame [simp]:
  "sent (snd (graphql_sdl web c w)) = sent w" "charged (snd (graphql_sdl web c w)) = charged w"
  "current (snd (graphql_sdl web c w)) = current w" "lives (snd (graphql_sdl web c w)) = lives w"
  "audit (snd (graphql_sdl web c w)) = audit w"
  "config_path (snd (graphql_sdl web c w)) = config_path w"
  by (simp_all add: graphql_sdl_def)

definition gql_run :: "web \<Rightarrow> ('c, 'l, 'k) lib \<Rightarrow> caller \<Rightarrow> gql_request \<Rightarrow> ('c, 'l, 'k) world
    \<Rightarrow> (gql_call \<times> gql_outcome) list \<times> ('c, 'l, 'k) world" where
  "gql_run web lib c g w = run_plan (resolve lib) MAX_COMPLEXITY (next_field web g) [] c w"

lemma graphql_handler_world:
  "snd (graphql_handler web lib c g w) =
     (let (outcomes, w1) = gql_run web lib c g w;
          succeeded = fst (web_gql_response web g outcomes);
          outcome = (if succeeded then str ''ok'' else str ''graphql_errors'')
      in w1\<lparr>counters := record_request (caller_name c) (str ''graphql'') outcome (counters w1),
            audit := audit w1 @ [emit \<lparr>au_token = caller_name c, au_action = str ''graphql'',
              au_site = None, au_target = Some (describe (lib_json_text lib) (gq_query g)),
              au_count = None, au_status = (if succeeded then 200 else 400), au_outcome = outcome,
              au_elapsed = mono w1 - mono w\<rparr>]\<rparr>)"
  by (simp add: graphql_handler_def gql_run_def Let_def split: prod.split)

lemma graphql_handler_frame [simp]:
  "sent (snd (graphql_handler web lib c g w)) = sent (snd (gql_run web lib c g w))"
  "charged (snd (graphql_handler web lib c g w)) = charged (snd (gql_run web lib c g w))"
  "lives (snd (graphql_handler web lib c g w)) = lives (snd (gql_run web lib c g w))"
  "current (snd (graphql_handler web lib c g w)) = current (snd (gql_run web lib c g w))"
  "config_path (snd (graphql_handler web lib c g w)) = config_path (snd (gql_run web lib c g w))"
  by (simp_all add: graphql_handler_world Let_def split: prod.split)

lemma gql_run_wf: "wf_world lib w \<Longrightarrow> wf_world lib (snd (gql_run web lib c g w))"
  unfolding gql_run_def by (rule gql.run_plan_wf)

section \<open>SIGHUP keeps the store\<close>

lemma on_sighup_frame [simp]:
  "sent (on_sighup lib ex xt w) = sent w" "charged (on_sighup lib ex xt w) = charged w"
  "audit (on_sighup lib ex xt w) = audit w"
  by (cases rule: reload_cases [where lib = lib and ex = ex and xt = xt and w = w];
      simp add: on_sighup_def)+

lemma on_sighup_wf:
  assumes "wf_world lib w"
  shows "wf_world lib (on_sighup lib ex xt w)"
  using reload_wf [OF assms, of ex xt]
  by (auto simp: on_sighup_def wf_worldD(2) split: prod.split sum.split)

lemma on_sighup_grows: "grows w (on_sighup lib ex xt w)"
  using reload_grows [of w lib ex xt]
  by (auto simp: on_sighup_def split: prod.split sum.split)

lemma on_sighup_quiet: "wf_world lib w \<Longrightarrow> quiet lib w (on_sighup lib ex xt w)"
  by (simp add: quiet_def on_sighup_wf on_sighup_grows)

end
