(* ===== verification/Service_Tasks.thy ===== *)
theory Service_Tasks
  imports Request_Phases "HOL-Library.Multiset"
begin

text \<open>
  A handler between its awaits. The handlers of \<open>src/routes.rs\<close> and \<open>src/graphql.rs\<close> give up the
  thread at the call to the controller, and a GraphQL document between its fields, several of which
  may be in flight; \<open>advance\<close> is one uninterrupted stretch of a request, the task it leaves behind
  says where the request waits and which \<open>Live\<close>s it holds. Run alone to the end, one field after
  the other, a task is the handler as it is written (\<open>uninterrupted_handler\<close>).
\<close>

section \<open>Tasks\<close>

text \<open>A resolver in flight: its call is about to go out, or its answer has come.\<close>

datatype flight =
    FieldCalling gql_call nat nat upstream_op
  | FieldCalled gql_call nat "(json, proxy_error) result"

fun flight_call :: "flight \<Rightarrow> gql_call" where
  "flight_call (FieldCalling g up li op) = g"
| "flight_call (FieldCalled g up r) = g"

fun unsent :: "flight \<Rightarrow> bool" where
  "unsent (FieldCalling g up li op) = True"
| "unsent (FieldCalled g up r) = False"

datatype task =
    Waiting ready
  | RestCalling caller rest_call nat "u32 option" nat nat upstream_op
  | RestCalled caller rest_call nat "u32 option" nat "(json, proxy_error) result"
  | GqlRunning caller gql_request nat nat "(gql_call \<times> gql_outcome) list" "flight list"

fun task_caller :: "task \<Rightarrow> caller" where
  "task_caller (Waiting r) = ready_caller r"
| "task_caller (RestCalling c k started cnt up li op) = c"
| "task_caller (RestCalled c k started cnt up r) = c"
| "task_caller (GqlRunning c q started n acc fl) = c"

text \<open>
  What is \<open>Calling\<close> is paid for and its call has not gone out, what is \<open>Called\<close> waits for the answer.
  \<open>up\<close> is the instant its timer started, under the name the source gives it; a pending call also
  has the guard on the \<open>Live\<close> it was decided with.
\<close>

fun held :: "task \<Rightarrow> rstr list" where
  "held (RestCalling c k started cnt up li op) = [caller_name c]"
| "held (GqlRunning c q started n acc fl) = replicate (length (filter unsent fl)) (caller_name c)"
| "held _ = []"

section \<open>One stretch\<close>

text \<open>The end of \<open>graphql_handler\<close>, after the document was executed.\<close>

definition graphql_finish :: "web \<Rightarrow> ('c, 'l, 'k) lib \<Rightarrow> caller \<Rightarrow> gql_request \<Rightarrow> nat
    \<Rightarrow> (gql_call \<times> gql_outcome) list \<Rightarrow> ('c, 'l, 'k) world \<Rightarrow> response \<times> ('c, 'l, 'k) world" where
  "graphql_finish web lib c q started outcomes w =
     (let (succeeded, body) = web_gql_response web q outcomes;
          outcome = (if succeeded then str ''ok'' else str ''graphql_errors'')
      in (\<lparr>rs_status = 200, rs_body = JsonBody body\<rparr>,
          w\<lparr>counters := record_request (caller_name c) (str ''graphql'') outcome (counters w),
             audit := audit w @ [emit \<lparr>au_token = caller_name c, au_action = str ''graphql'',
               au_site = None, au_target = Some (describe (lib_json_text lib) (gq_query q)),
               au_count = None, au_status = (if succeeded then 200 else 400), au_outcome = outcome,
               au_elapsed = mono w - started\<rparr>]\<rparr>))"

definition rest_begin :: "('c, 'l, 'k) lib \<Rightarrow> rest_call \<Rightarrow> caller \<Rightarrow> ('c, 'l, 'k) world
    \<Rightarrow> (response + task) \<times> ('c, 'l, 'k) world" where
  "rest_begin lib k c w =
     (case guarded_begin lib (current w) c (rest_scope k) (rest_site k) (rest_action k)
         (rest_prep lib c k) w of
        (Err e, w1) \<Rightarrow> apfst Inl (respond (finish c (rest_action k) (rest_site k) (rest_target k)
          (rest_count lib c k w) (mono w) 0 (Err e) w1))
      | (Ok op, w1) \<Rightarrow> (Inr (RestCalling c k (mono w) (rest_count lib c k w) (mono w1) (current w) op), w1))"

definition gql_begin :: "('c, 'l, 'k) lib \<Rightarrow> gql_call \<Rightarrow> caller \<Rightarrow> ('c, 'l, 'k) world
    \<Rightarrow> (gql_outcome + (nat \<times> upstream_op)) \<times> ('c, 'l, 'k) world" where
  "gql_begin lib g c w =
     (if g = GqlInfo then apfst Inl (resolve lib g c w)
      else (case guarded_begin lib (current w) c (gql_scope g) (gql_site g) (gql_action g)
              (gql_prep lib c g) w of
          (Err e, w1) \<Rightarrow> apfst Inl (gql_shape c g ((Err e, 0), w1))
        | (Ok op, w1) \<Rightarrow> (Inr (current w, op), w1)))"

fun poll :: "('c, 'l, 'k) lib \<Rightarrow> caller \<Rightarrow> flight \<Rightarrow> ('c, 'l, 'k) world
    \<Rightarrow> (gql_outcome + flight) \<times> ('c, 'l, 'k) world" where
  "poll lib c (FieldCalling g up li op) w =
     (let (r, w1) = upstream_call lib li op w in (Inr (FieldCalled g up r), w1))"
| "poll lib c (FieldCalled g up r) w = apfst Inl (gql_shape c g ((r, mono w - up), w))"

text \<open>
  What a stretch of a document does. \<open>async-graphql\<close> joins the fields of a query, so a field may start
  while others are in flight, and starts those of a mutation one by one: that is \<open>web_engine\<close>'s
  choice. Among the fields in flight the scheduler wakes any, \<open>wake\<close>. A failure that ends the
  document drops what is in flight.
\<close>

datatype turn = Answer | Begin gql_call | Poll nat

definition gql_turn :: "web \<Rightarrow> gql_request \<Rightarrow> nat \<Rightarrow> (gql_call \<times> gql_outcome) list \<Rightarrow> flight list
    \<Rightarrow> nat \<Rightarrow> turn" where
  "gql_turn web q n acc fl wake =
     (if web_fails web q acc then Answer
      else case (if n = 0 then None else web_engine web q acc (map flight_call fl)) of
        Some g \<Rightarrow> if wake < length fl then Poll wake else Begin g
      | None \<Rightarrow> if fl = [] then Answer else Poll (wake mod length fl))"

fun advance :: "web \<Rightarrow> ('c, 'l, 'k) lib \<Rightarrow> nat \<Rightarrow> task \<Rightarrow> ('c, 'l, 'k) world
    \<Rightarrow> (response + task) \<times> ('c, 'l, 'k) world" where
  "advance web lib wake (Waiting r) w = (case r of
     ReadyInfo c \<Rightarrow> apfst Inl (info c w)
   | ReadySdl c \<Rightarrow> apfst Inl (graphql_sdl web c w)
   | ReadyGraphql c q \<Rightarrow> (Inr (GqlRunning c q (mono w) MAX_COMPLEXITY [] []), w)
   | ReadyRest c k \<Rightarrow> rest_begin lib k c w)"
| "advance web lib wake (RestCalling c k started cnt up li op) w =
     (let (r, w1) = upstream_call lib li op w in (Inr (RestCalled c k started cnt up r), w1))"
| "advance web lib wake (RestCalled c k started cnt up r) w =
     apfst Inl (respond (finish c (rest_action k) (rest_site k) (rest_target k) cnt started
       (mono w - up) (map_ok (rest_view c k) r) w))"
| "advance web lib wake (GqlRunning c q started n acc fl) w =
     (case gql_turn web q n acc fl wake of
        Answer \<Rightarrow> apfst Inl (graphql_finish web lib c q started acc w)
      | Begin g \<Rightarrow>
          (case gql_begin lib g c w of
             (Inl r, w1) \<Rightarrow> (Inr (GqlRunning c q started (n - 1) (acc @ [(g, r)]) fl), w1)
           | (Inr (li, op), w1) \<Rightarrow>
               (Inr (GqlRunning c q started (n - 1) acc (fl @ [FieldCalling g (mono w1) li op])), w1))
      | Poll i \<Rightarrow>
          (case poll lib c (fl ! i) w of
             (Inl r, w1) \<Rightarrow> (Inr (GqlRunning c q started n (acc @ [(flight_call (fl ! i), r)])
               (take i fl @ drop (Suc i) fl)), w1)
           | (Inr f, w1) \<Rightarrow> (Inr (GqlRunning c q started n acc (fl[i := f])), w1)))"

lemma gql_turn_poll: "gql_turn web q n acc fl wake = Poll i \<Longrightarrow> i < length fl"
  by (auto simp: gql_turn_def split: if_splits option.splits)

lemma gql_turn_begin: "gql_turn web q n acc fl wake = Begin g \<Longrightarrow> 0 < n"
  by (auto simp: gql_turn_def split: if_splits option.splits)

text \<open>With no field in flight the document goes on as in the handler; a sole one is woken.\<close>

lemma gql_turn_alone [simp]:
  "gql_turn web q (Suc n) acc [] wake = (case next_field web q acc of None \<Rightarrow> Answer | Some g \<Rightarrow> Begin g)"
  "gql_turn web q 0 acc [] wake = Answer"
  by (simp_all add: gql_turn_def next_field_def split: option.split)

lemma gql_turn_sole: "next_field web q acc = Some g \<Longrightarrow> gql_turn web q n acc [f] 0 = Poll 0"
  by (auto simp: gql_turn_def next_field_def split: option.split if_splits)

section \<open>A task run alone is the handler\<close>

lemma case_prod_apfst [simp]: "case_prod F (apfst f x) = F (f (fst x)) (snd x)"
  by (cases x) simp

fun drive :: "web \<Rightarrow> ('c, 'l, 'k) lib \<Rightarrow> nat \<Rightarrow> task \<Rightarrow> ('c, 'l, 'k) world
    \<Rightarrow> (response \<times> ('c, 'l, 'k) world) option" where
  "drive web lib 0 t w = None"
| "drive web lib (Suc n) t w =
     (case advance web lib 0 t w of
        (Inl resp, w1) \<Rightarrow> Some (resp, w1)
      | (Inr t', w1) \<Rightarrow> drive web lib n t' w1)"

lemma graphql_handler_finish:
  "graphql_handler web lib c q w =
     (let (outcomes, w1) = run_plan (resolve lib) MAX_COMPLEXITY (next_field web q) [] c w
      in graphql_finish web lib c q (mono w) outcomes w1)"
  by (simp add: graphql_handler_def graphql_finish_def Let_def split: prod.split)

lemma gql_begin_resolve:
  "resolve lib g c w =
     (case gql_begin lib g c w of
        (Inl r, w1) \<Rightarrow> (r, w1)
      | (Inr (li, op), w1) \<Rightarrow> (let (r, w2) = upstream_call lib li op w1
          in gql_shape c g ((r, mono w2 - mono w1), w2)))"
proof (cases "g = GqlInfo")
  case True
  then show ?thesis by (simp add: gql_begin_def split: prod.split)
next
  case False
  obtain b w1 where "guarded_begin lib (current w) c (gql_scope g) (gql_site g) (gql_action g)
      (gql_prep lib c g) w = (b, w1)"
    by (metis prod.exhaust)
  with False show ?thesis
    by (cases b) (simp_all add: gql_begin_def resolve_refines gql_guarded_def guarded_op_split Let_def
        split: prod.split)
qed

lemma drive_gql:
  "3 * n + 1 \<le> fuel \<Longrightarrow> drive web lib fuel (GqlRunning c q started n acc []) w =
     (let (outcomes, w1) = run_plan (resolve lib) n (next_field web q) acc c w
      in Some (graphql_finish web lib c q started outcomes w1))"
proof (induction n arbitrary: fuel acc w)
  case 0
  then show ?case by (cases fuel) (auto split: prod.split)
next
  case (Suc n)
  define f where "f = fuel - 3"
  with Suc.prems have fuel: "fuel = Suc (Suc (Suc f))" and f: "3 * n + 1 \<le> f"
    "3 * n + 1 \<le> Suc (Suc f)"
    by simp_all
  show ?case
  proof (cases "next_field web q acc")
    case None
    then show ?thesis by (simp add: fuel split: prod.split)
  next
    case (Some g)
    show ?thesis
      using Suc.IH [OF f(1)] Suc.IH [OF f(2)]
      by (auto simp: fuel Some gql_begin_resolve gql_turn_sole [OF Some] Let_def split: prod.split sum.split)
  qed
qed

lemma rest_begin_run:
  "rest_run lib k c w =
     (case guarded_begin lib (current w) c (rest_scope k) (rest_site k) (rest_action k)
         (rest_prep lib c k) w of
        (Err e, w1) \<Rightarrow> finish c (rest_action k) (rest_site k) (rest_target k)
          (rest_count lib c k w) (mono w) 0 (Err e) w1
      | (Ok op, w1) \<Rightarrow> (let (r, w2) = upstream_call lib (current w) op w1 in
          finish c (rest_action k) (rest_site k) (rest_target k) (rest_count lib c k w) (mono w)
            (mono w2 - mono w1) (map_ok (rest_view c k) r) w2))"
  by (simp add: rest_run_refines rest_finish_def rest_guarded_def guarded_op_split Let_def
      split: prod.split sum.split)

lemma drive_rest:
  "drive web lib (Suc (Suc (Suc n))) (Waiting (ReadyRest c k)) w = Some (respond (rest_run lib k c w))"
proof -
  obtain b w1 where gb: "guarded_begin lib (current w) c (rest_scope k) (rest_site k) (rest_action k)
      (rest_prep lib c k) w = (b, w1)"
    by (metis prod.exhaust)
  then show ?thesis
    by (cases b) (simp_all add: rest_begin_def rest_begin_run Let_def case_prod_unfold)
qed

lemma drive_handle:
  "drive web lib (3 * MAX_COMPLEXITY + 2) (Waiting r) w = Some (handle web lib r w)"
proof (cases r)
  case (ReadyInfo c)
  then show ?thesis by (simp add: handle_def split: prod.split)
next
  case (ReadySdl c)
  then show ?thesis by (simp add: handle_def split: prod.split)
next
  case (ReadyGraphql c q)
  have "drive web lib (3 * MAX_COMPLEXITY + 1) (GqlRunning c q (mono w) MAX_COMPLEXITY [] []) w =
      Some (graphql_handler web lib c q w)"
    by (simp only: drive_gql [OF order_refl] graphql_handler_finish) (simp add: Let_def split: prod.split)
  then show ?thesis by (simp add: ReadyGraphql handle_def)
next
  case (ReadyRest c k)
  have "3 * MAX_COMPLEXITY + 2 = Suc (Suc (Suc (3 * MAX_COMPLEXITY - 1)))" by (simp add: MAX_COMPLEXITY_def)
  then show ?thesis by (simp only: ReadyRest handle_def ready.case drive_rest)
qed

section \<open>The property\<close>

text \<open>
  C10. A request run without interruption ends, and is the handler as written: the stretches between
  the awaits, at most 770 of them however the document goes, compose to exactly the response and
  the state of the handler of the source.
\<close>

theorem uninterrupted_handler:
  "drive web lib (3 * MAX_COMPLEXITY + 2) (Waiting r) w = Some (handle web lib r w)"
  by (rule drive_handle)

end
