(* ===== verification/Service_Runs.thy ===== *)
theory Service_Runs
  imports Service_Tasks
begin

text \<open>
  The running process: requests arrive and are extracted, their tasks wait in a pool and advance one
  stretch at a time in any order, a client that disconnects drops its task wherever it is, \<open>SIGHUP\<close>
  reloads, time passes. Any interleaving of these steps is a run; \<open>service_inv\<close> is an invariant of
  every reachable state, by rule induction.
\<close>

section \<open>Steps\<close>

type_synonym ('c, 'l, 'k) service = "('c, 'l, 'k) world \<times> task list"

text \<open>Listener settings: what \<open>router_with\<close> was built with.\<close>

record settings =
  st_playground :: bool
  st_max_body :: nat

inductive svc_step :: "web \<Rightarrow> ('c, 'l, 'k) lib \<Rightarrow> settings \<Rightarrow> ('c, 'l, 'k) service
    \<Rightarrow> ('c, 'l, 'k) service \<Rightarrow> bool" for web lib cfg where
  answered: "accept web lib (st_playground cfg) (st_max_body cfg) rq w = (Err resp, w') \<Longrightarrow>
     svc_step web lib cfg (w, pool) (w', pool)"
| accepted: "accept web lib (st_playground cfg) (st_max_body cfg) rq w = (Ok r, w') \<Longrightarrow>
     svc_step web lib cfg (w, pool) (w', pool @ [Waiting r])"
| advanced: "advance web lib wake t w = (Inr t', w') \<Longrightarrow>
     svc_step web lib cfg (w, before @ t # after) (w', before @ t' # after)"
| finished: "advance web lib wake t w = (Inl resp, w') \<Longrightarrow>
     svc_step web lib cfg (w, before @ t # after) (w', before @ after)"
| dropped: "svc_step web lib cfg (w, before @ t # after) (w, before @ after)"
| sighup: "svc_step web lib cfg (w, pool) (on_sighup lib ex xt w, pool)"
| elapsed: "mono w \<le> now \<Longrightarrow> svc_step web lib cfg (w, pool) (w\<lparr>mono := now, wall := today\<rparr>, pool)"

inductive reachable :: "web \<Rightarrow> ('c, 'l, 'k) lib \<Rightarrow> settings \<Rightarrow> ('c, 'l, 'k) service
    \<Rightarrow> ('c, 'l, 'k) service \<Rightarrow> bool" for web lib cfg s0 where
  start: "reachable web lib cfg s0 s0"
| step: "reachable web lib cfg s0 s \<Longrightarrow> svc_step web lib cfg s s' \<Longrightarrow> reachable web lib cfg s0 s'"

section \<open>What a task is entitled to\<close>

definition ready_call :: "('c, 'l, 'k) lib \<Rightarrow> ('c, 'l, 'k) world \<Rightarrow> caller \<Rightarrow> nat \<Rightarrow> upstream_op \<Rightarrow> bool" where
  "ready_call lib w c li op \<longleftrightarrow> li < length (lives w) \<and> permitted c (op_scope op) (op_site op) \<and>
     body_ok lib c op"

fun flight_ready :: "('c, 'l, 'k) lib \<Rightarrow> ('c, 'l, 'k) world \<Rightarrow> caller \<Rightarrow> flight \<Rightarrow> bool" where
  "flight_ready lib w c (FieldCalling g up li op) = ready_call lib w c li op"
| "flight_ready lib w c (FieldCalled g up r) = True"

fun task_calls :: "('c, 'l, 'k) lib \<Rightarrow> ('c, 'l, 'k) world \<Rightarrow> task \<Rightarrow> bool" where
  "task_calls lib w (RestCalling c k started cnt up li op) = ready_call lib w c li op"
| "task_calls lib w (GqlRunning c q started n acc fl) = list_all (flight_ready lib w c) fl"
| "task_calls lib w _ = True"

definition task_ok :: "('c, 'l, 'k) lib \<Rightarrow> ('c, 'l, 'k) world \<Rightarrow> task \<Rightarrow> bool" where
  "task_ok lib w t \<longleftrightarrow> (\<exists>i. caller_of w i (task_caller t)) \<and> task_calls lib w t"

lemma ready_call_grows: "ready_call lib w c li op \<Longrightarrow> grows w w' \<Longrightarrow> ready_call lib w' c li op"
  using grows_length [of w w'] by (auto simp: ready_call_def)

lemma flight_ready_grows: "flight_ready lib w c f \<Longrightarrow> grows w w' \<Longrightarrow> flight_ready lib w' c f"
  by (cases f) (auto intro: ready_call_grows)

lemma task_calls_grows: "task_calls lib w t \<Longrightarrow> grows w w' \<Longrightarrow> task_calls lib w' t"
  by (cases t) (auto simp: list_all_iff intro: ready_call_grows flight_ready_grows)

lemma task_ok_grows: "task_ok lib w t \<Longrightarrow> grows w w' \<Longrightarrow> task_ok lib w' t"
  unfolding task_ok_def by (blast intro: caller_of_grows task_calls_grows)

section \<open>What a stretch does\<close>

text \<open>
  The effect of a stretch on the books: \<open>rs\<close> requests went out, each justified by the caller, \<open>new\<close>
  quota was charged, and with the call that is held afterwards they are covered by what was held
  before and what was charged.
\<close>

definition stretch :: "('c, 'l, 'k) lib \<Rightarrow> caller \<Rightarrow> rstr list \<Rightarrow> ('c, 'l, 'k) world
    \<Rightarrow> rstr list \<Rightarrow> ('c, 'l, 'k) world \<Rightarrow> bool" where
  "stretch lib c h w h' w' \<longleftrightarrow> wf_world lib w' \<and> grows w w' \<and>
     (\<exists>rs new. sent w' = sent w @ rs \<and> charged w' = charged w @ new \<and>
        list_all (justified lib w' c) rs \<and>
        mset (replicate (length rs) (caller_name c)) + mset h' \<subseteq># mset h + mset new)"

lemma stretch_quiet: "quiet lib w w' \<Longrightarrow> stretch lib c [] w [] w'"
  by (auto simp: quiet_def stretch_def)

text \<open>More may be held on both sides, and what is held may be dropped.\<close>

lemma stretch_hold:
  assumes "stretch lib c h w h' w'" and "mset H = mset h + r" and "mset H' \<subseteq># mset h' + r"
  shows "stretch lib c H w H' w'"
proof -
  from assms(1) obtain rs new where s: "sent w' = sent w @ rs" "charged w' = charged w @ new"
    "list_all (justified lib w' c) rs"
    and cover: "mset (replicate (length rs) (caller_name c)) + mset h' \<subseteq># mset h + mset new"
    unfolding stretch_def by blast
  have "mset (replicate (length rs) (caller_name c)) + mset H' \<subseteq>#
      mset (replicate (length rs) (caller_name c)) + (mset h' + r)"
    by (rule subset_mset.add_left_mono [OF assms(3)])
  also have "\<dots> = (mset (replicate (length rs) (caller_name c)) + mset h') + r" by (simp add: ac_simps)
  also have "\<dots> \<subseteq># (mset h + mset new) + r" by (rule subset_mset.add_right_mono [OF cover])
  also have "\<dots> = mset H + mset new" by (simp add: assms(2) ac_simps)
  finally show ?thesis using assms(1) s unfolding stretch_def by blast
qed

text \<open>Finishing changes the books of no stretch.\<close>

lemma stretch_then:
  assumes s: "stretch lib c h w h' w1" and "lives w2 = lives w1" "current w2 = current w1"
    "sent w2 = sent w1" "charged w2 = charged w1" "wf_metrics (counters w2)" "grows w1 w2"
  shows "stretch lib c h w h' w2"
proof -
  have "wf_world lib w2" using s assms(2,3,6) by (auto simp: stretch_def intro: wf_world_same)
  moreover have "grows w w2" using s assms(7) by (auto simp: stretch_def intro: grows_trans)
  moreover have "justified lib w2 c = justified lib w1 c"
    using justified_same [OF assms(2)] by (simp add: fun_eq_iff)
  ultimately show ?thesis using s assms(4,5) by (auto simp: stretch_def)
qed

lemma begin_stretch:
  assumes wf: "wf_world lib w" and gb: "guarded_begin lib li c sc site a prep w = (b, w1)"
  shows "stretch lib c [] w (if is_ok b then [caller_name c] else []) w1"
proof -
  have w1: "w1 = snd (guarded_begin lib li c sc site a prep w)" using gb by simp
  have "wf_world lib w1" "grows w w1" "sent w1 = sent w"
    unfolding w1 using guarded_begin_wf [OF wf] by (simp_all add: guarded_begin_grows)
  moreover obtain new where "charged w1 = charged w @ new"
    unfolding w1 using guarded_begin_charged [of lib li c sc site a prep w] by blast
  moreover have "charged w1 = charged w @ [caller_name c]" if "is_ok b"
    using gb that by (auto simp: is_ok_iff dest: guarded_begin_Ok(4))
  ultimately show ?thesis by (cases "is_ok b") (auto simp: stretch_def)
qed

lemma call_stretch:
  assumes wf: "wf_world lib w" and rc: "ready_call lib w c li op"
    and up: "upstream_call lib li op w = (r, w1)"
  shows "stretch lib c [caller_name c] w [] w1"
proof -
  let ?rs = "if op_valid op then [op_request (lv_upstream (live_at w li)) op] else []"
  have "wf_world lib w1" using upstream_call_wf [OF wf, of li op] up by simp
  moreover have g: "grows w w1" by (rule upstream_call_simps(10) [OF up])
  moreover have "sent w1 = sent w @ ?rs" "charged w1 = charged w"
    using upstream_call_simps(7,9) [OF up] by simp_all
  moreover have "list_all (justified lib w1 c) ?rs"
  proof (cases "op_valid op")
    case True
    with rc have "justified lib w c (op_request (lv_upstream (live_at w li)) op)"
      by (auto simp: justified_def ready_call_def allowed_op_def)
    then show ?thesis using g by (auto intro: justified_grows)
  qed simp
  ultimately show ?thesis
    by (cases "op_valid op") (auto simp: stretch_def)
qed

lemma stretch_wf: "stretch lib c h w h' w1 \<Longrightarrow> wf_metrics (counters w1)"
  by (auto simp: stretch_def intro: wf_worldD(2))

lemma stretch_respond: "stretch lib c h w h' (snd x) \<Longrightarrow> stretch lib c h w h' (snd (respond x))"
  by (rule stretch_then, assumption) (simp_all add: stretch_wf respond_grows [OF grows_refl])

lemma finish_grows: "grows w1 (snd (finish d a s t n st up r w1))"
  using grows_refl [of w1] by (simp add: grows_def finish_audit)

lemma stretch_finish:
  "stretch lib c h w h' w1 \<Longrightarrow> stretch lib c h w h' (snd (finish d a s t n st up r w1))"
  by (rule stretch_then, assumption) (simp_all add: stretch_wf finish_wf_metrics finish_grows)

lemma shape_grows: "grows (snd x) (snd (gql_shape d g x))"
  by (rule grows_same [OF grows_refl]) simp_all

lemma stretch_shape:
  "stretch lib c h w h' (snd x) \<Longrightarrow> stretch lib c h w h' (snd (gql_shape d g x))"
  by (rule stretch_then, assumption) (simp_all add: stretch_wf gql_shape_metrics shape_grows)

lemma graphql_finish_frame [simp]:
  "lives (snd (graphql_finish web lib c q st outs w)) = lives w"
  "current (snd (graphql_finish web lib c q st outs w)) = current w"
  "sent (snd (graphql_finish web lib c q st outs w)) = sent w"
  "charged (snd (graphql_finish web lib c q st outs w)) = charged w"
  by (simp_all add: graphql_finish_def Let_def split: prod.split)

lemma graphql_finish_grows: "grows w (snd (graphql_finish web lib c q st outs w))"
  using grows_refl [of w] by (auto simp: grows_def graphql_finish_def Let_def split: prod.split)

lemma graphql_finish_metrics:
  "wf_metrics (counters w) \<Longrightarrow> wf_metrics (counters (snd (graphql_finish web lib c q st outs w)))"
  by (auto simp: graphql_finish_def Let_def split: prod.split)

lemma stretch_graphql_finish:
  "stretch lib c h w h' w1 \<Longrightarrow> stretch lib c h w h' (snd (graphql_finish web lb d q st outs w1))"
  by (rule stretch_then, assumption) (simp_all add: stretch_wf graphql_finish_metrics graphql_finish_grows)

lemma stretch_refl: "wf_world lib w \<Longrightarrow> stretch lib c [] w [] w"
  by (rule stretch_quiet) (rule quiet_refl)

section \<open>Every stretch keeps the books\<close>

definition stretch_ok :: "('c, 'l, 'k) lib \<Rightarrow> task \<Rightarrow> ('c, 'l, 'k) world
    \<Rightarrow> (response + task) \<times> ('c, 'l, 'k) world \<Rightarrow> bool" where
  "stretch_ok lib t w x \<longleftrightarrow> (case fst x of
     Inl resp \<Rightarrow> stretch lib (task_caller t) (held t) w [] (snd x)
   | Inr t' \<Rightarrow> stretch lib (task_caller t) (held t) w (held t') (snd x) \<and>
       task_caller t' = task_caller t \<and> task_calls lib (snd x) t')"

lemma stretch_ok_done:
  "stretch lib (task_caller t) (held t) w [] (snd x) \<Longrightarrow> stretch_ok lib t w (apfst Inl x)"
  by (simp add: stretch_ok_def)

lemma info_quiet: "wf_world lib w \<Longrightarrow> quiet lib w (snd (info c w))"
  by (auto simp: quiet_def info_def wf_worldD(2) intro: wf_world_same grows_same [OF grows_refl])

lemma sdl_quiet: "wf_world lib w \<Longrightarrow> quiet lib w (snd (graphql_sdl web c w))"
  by (auto simp: quiet_def graphql_sdl_def wf_worldD(2) intro: wf_world_same grows_same [OF grows_refl])

lemma begun_call:
  assumes gb: "guarded_begin lib li c sc site a prep w = (Ok op, w1)" and li: "li < length (lives w)"
    and fits: "\<And>op. prep = Ok op \<Longrightarrow> op_scope op = sc \<and> op_site op = site \<and> body_ok lib c op"
  shows "ready_call lib w1 c li op"
proof -
  have "length (lives w1) = length (lives w)"
    using guarded_begin_frame(5) [of lib li c sc site a prep w] gb by simp
  then show ?thesis
    using guarded_begin_Ok(1,3) [OF gb] fits li by (simp add: ready_call_def)
qed

lemma rest_begin_ok:
  assumes wf: "wf_world lib w"
  shows "stretch_ok lib (Waiting (ReadyRest c k)) w (rest_begin lib k c w)"
proof -
  obtain b w1 where gb: "guarded_begin lib (current w) c (rest_scope k) (rest_site k) (rest_action k)
      (rest_prep lib c k) w = (b, w1)"
    by (metis prod.exhaust)
  note s = begin_stretch [OF wf gb]
  show ?thesis
  proof (cases b)
    case (Inl e)
    with s gb show ?thesis
      by (auto simp: rest_begin_def intro!: stretch_ok_done stretch_respond stretch_finish)
  next
    case (Inr op)
    with gb begun_call [OF _ wf_worldD(1) [OF wf] rest_prep_fits] s show ?thesis
      by (auto simp: rest_begin_def stretch_ok_def)
  qed
qed

lemma gql_begin_ok:
  assumes wf: "wf_world lib w"
  shows "case gql_begin lib g c w of
      (Inl r, w1) \<Rightarrow> stretch lib c [] w [] w1
    | (Inr (li, op), w1) \<Rightarrow> stretch lib c [] w [caller_name c] w1 \<and> ready_call lib w1 c li op"
proof (cases "g = GqlInfo")
  case True
  with stretch_refl [OF wf] show ?thesis by (simp add: gql_begin_def resolve_info_def)
next
  case False
  obtain b w1 where gb: "guarded_begin lib (current w) c (gql_scope g) (gql_site g) (gql_action g)
      (gql_prep lib c g) w = (b, w1)"
    by (metis prod.exhaust)
  note s = begin_stretch [OF wf gb]
  show ?thesis
  proof (cases b)
    case (Inl e)
    with s have "stretch lib c [] w [] (snd (gql_shape c g ((Err e, 0), w1)))"
      by (intro stretch_shape) simp
    with False gb Inl show ?thesis by (simp add: gql_begin_def)
  next
    case (Inr op)
    with False gb begun_call [OF _ wf_worldD(1) [OF wf] gql_prep_fits] s show ?thesis
      by (auto simp: gql_begin_def)
  qed
qed

text \<open>A field in flight, woken.\<close>

lemma poll_ok:
  assumes wf: "wf_world lib w" and f: "flight_ready lib w c f"
  shows "case poll lib c f w of
      (Inl r, w1) \<Rightarrow> stretch lib c (if unsent f then [caller_name c] else []) w [] w1
    | (Inr f', w1) \<Rightarrow> stretch lib c (if unsent f then [caller_name c] else []) w [] w1 \<and>
        \<not> unsent f' \<and> flight_ready lib w1 c f'"
proof (cases f)
  case (FieldCalling g up li op)
  obtain r w1 where uc: "upstream_call lib li op w = (r, w1)" by (metis prod.exhaust)
  with call_stretch [OF wf _ uc] f FieldCalling show ?thesis by simp
next
  case (FieldCalled g up r)
  have "stretch lib c [] w [] (snd (gql_shape c g ((r, mono w - up), w)))"
    by (rule stretch_shape) (simp add: stretch_refl [OF wf])
  with FieldCalled show ?thesis by (simp add: case_prod_unfold)
qed

text \<open>The calls a document holds, when one field lands, leaves or joins.\<close>

lemma unsent_without:
  "i < length fl \<Longrightarrow> length (filter unsent fl) =
     length (filter unsent (take i fl @ drop (Suc i) fl)) + (if unsent (fl ! i) then 1 else 0)"
  by (subst id_take_nth_drop [of i fl]) auto

lemma unsent_landed:
  "i < length fl \<Longrightarrow> \<not> unsent f \<Longrightarrow>
     length (filter unsent (fl[i := f])) = length (filter unsent (take i fl @ drop (Suc i) fl))"
  by (simp add: upd_conv_take_nth_drop)

lemma list_all_without: "list_all P fl \<Longrightarrow> list_all P (take i fl @ drop (Suc i) fl)"
  by (auto simp: list_all_iff dest: in_set_takeD in_set_dropD)

lemma flights_kept:
  "list_all (flight_ready lib w c) fl \<Longrightarrow> grows w w1 \<Longrightarrow> list_all (flight_ready lib w1 c) fl"
  by (auto simp: list_all_iff intro: flight_ready_grows)

lemma document_answers:
  assumes wf: "wf_world lib w" and turn: "gql_turn web q n acc fl wake = Answer"
  shows "stretch_ok lib (GqlRunning c q started n acc fl) w
    (advance web lib wake (GqlRunning c q started n acc fl) w)"
proof -
  let ?h = "replicate (length (filter unsent fl)) (caller_name c)"
  have "stretch lib c [] w [] (snd (graphql_finish web lib c q started acc w))"
    by (rule stretch_graphql_finish) (rule stretch_refl [OF wf])
  then have "stretch lib c ?h w [] (snd (graphql_finish web lib c q started acc w))"
    by (rule stretch_hold [where r = "mset ?h"]) simp_all
  with turn show ?thesis by (simp add: stretch_ok_done)
qed

lemma document_begins:
  assumes wf: "wf_world lib w" and ok: "list_all (flight_ready lib w c) fl"
    and turn: "gql_turn web q n acc fl wake = Begin g"
  shows "stretch_ok lib (GqlRunning c q started n acc fl) w
    (advance web lib wake (GqlRunning c q started n acc fl) w)"
proof -
  let ?h = "replicate (length (filter unsent fl)) (caller_name c)"
  obtain x w1 where gb: "gql_begin lib g c w = (x, w1)" by (metis prod.exhaust)
  note b = gql_begin_ok [OF wf, of c g, unfolded gb]
  show ?thesis
  proof (cases x)
    case (Inl r)
    with b have s: "stretch lib c [] w [] w1" by simp
    then have "stretch lib c ?h w ?h w1" by (rule stretch_hold [where r = "mset ?h"]) simp_all
    with turn gb Inl flights_kept [OF ok] s show ?thesis by (simp add: stretch_ok_def stretch_def)
  next
    case (Inr call)
    obtain li op where call: "call = (li, op)" by (cases call)
    with b Inr have s: "stretch lib c [] w [caller_name c] w1" and rc: "ready_call lib w1 c li op"
      by simp_all
    from s have "stretch lib c ?h w (caller_name c # ?h) w1"
      by (rule stretch_hold [where r = "mset ?h"]) simp_all
    with turn gb Inr call flights_kept [OF ok] s rc show ?thesis
      by (simp add: stretch_ok_def stretch_def)
  qed
qed

lemma document_polls:
  assumes wf: "wf_world lib w" and ok: "list_all (flight_ready lib w c) fl"
    and turn: "gql_turn web q n acc fl wake = Poll i"
  shows "stretch_ok lib (GqlRunning c q started n acc fl) w
    (advance web lib wake (GqlRunning c q started n acc fl) w)"
proof -
  from turn have i: "i < length fl" by (rule gql_turn_poll)
  let ?rest = "take i fl @ drop (Suc i) fl"
  let ?h = "replicate (length (filter unsent fl)) (caller_name c)"
    and ?h' = "replicate (length (filter unsent ?rest)) (caller_name c)"
    and ?one = "if unsent (fl ! i) then [caller_name c] else []"
  obtain x w1 where pl: "poll lib c (fl ! i) w = (x, w1)" by (metis prod.exhaust)
  have "flight_ready lib w c (fl ! i)" using ok i by (simp add: list_all_length)
  note p = poll_ok [OF wf this, unfolded pl]
  have s: "stretch lib c ?one w [] w1" using p by (cases x) simp_all
  then have rest: "list_all (flight_ready lib w1 c) ?rest"
    by (intro list_all_without flights_kept [OF ok]) (simp add: stretch_def)
  have "mset ?h = mset ?one + mset ?h'" by (simp add: unsent_without [OF i] replicate_add)
  then have s': "stretch lib c ?h w ?h' w1" by (rule stretch_hold [OF s]) simp
  show ?thesis
  proof (cases x)
    case (Inl r)
    with s' turn pl rest show ?thesis by (simp add: stretch_ok_def)
  next
    case (Inr f')
    with p have f': "\<not> unsent f'" "flight_ready lib w1 c f'" by simp_all
    then have "list_all (flight_ready lib w1 c) (fl[i := f'])"
      using rest i by (simp add: upd_conv_take_nth_drop)
    with s' Inr turn pl f' i show ?thesis by (simp add: stretch_ok_def unsent_landed)
  qed
qed

lemma document_ok:
  assumes "wf_world lib w" and "list_all (flight_ready lib w c) fl"
  shows "stretch_ok lib (GqlRunning c q started n acc fl) w
    (advance web lib wake (GqlRunning c q started n acc fl) w)"
  by (cases "gql_turn web q n acc fl wake")
     (simp_all only: document_answers [OF assms(1)] document_begins [OF assms] document_polls [OF assms])

lemma advance_ok:
  assumes wf: "wf_world lib w" and ok: "task_calls lib w t"
  shows "stretch_ok lib t w (advance web lib wake t w)"
proof (cases t)
  case (Waiting r)
  show ?thesis
  proof (cases r)
    case (ReadyInfo c)
    with wf Waiting show ?thesis by (auto intro!: stretch_ok_done stretch_quiet info_quiet)
  next
    case (ReadySdl c)
    with wf Waiting show ?thesis by (auto intro!: stretch_ok_done stretch_quiet sdl_quiet)
  next
    case (ReadyGraphql c q)
    with stretch_refl [OF wf] Waiting show ?thesis by (simp add: stretch_ok_def)
  next
    case (ReadyRest c k)
    with rest_begin_ok [OF wf] Waiting show ?thesis by simp
  qed
next
  case (RestCalling c k started cnt up li op)
  obtain r w1 where uc: "upstream_call lib li op w = (r, w1)" by (metis prod.exhaust)
  with call_stretch [OF wf _ uc] ok RestCalling show ?thesis by (simp add: stretch_ok_def)
next
  case (RestCalled c k started cnt up r)
  from stretch_refl [OF wf] show ?thesis
    by (auto simp: RestCalled intro!: stretch_ok_done stretch_respond stretch_finish)
next
  case (GqlRunning c q started n acc fl)
  with ok show ?thesis by (simp add: document_ok [OF wf] del: advance.simps)
qed

lemma advance_grows:
  assumes "wf_world lib w" and "task_calls lib w t"
  shows "grows w (snd (advance web lib wake t w))"
  using advance_ok [OF assms, of web wake] by (auto simp: stretch_ok_def stretch_def split: sum.splits)

section \<open>The books of the pool\<close>

text \<open>
  \<open>booked\<close>: every request sent so far has an owner it was justified for, and the owners together
  with the callers of the calls still held are covered by the quota charged.
\<close>

definition booked :: "('c, 'l, 'k) lib \<Rightarrow> ('c, 'l, 'k) world \<Rightarrow> task list \<Rightarrow> bool" where
  "booked lib w pool \<longleftrightarrow> (\<exists>owners. list_all2 (paid_for lib w) owners (sent w) \<and>
     mset owners + mset (concat (map held pool)) \<subseteq># mset (charged w))"

lemma list_all2_replicate: "list_all P rs \<Longrightarrow> list_all2 (\<lambda>_. P) (replicate (length rs) x) rs"
  by (induction rs) simp_all

lemma booked_stretch:
  assumes b: "booked lib w pool" and s: "stretch lib c h w h' w'" and c: "caller_of w i c"
    and pool: "mset (concat (map held pool)) = rest + mset h"
    and pool': "mset (concat (map held pool')) = rest + mset h'"
  shows "booked lib w' pool'"
proof -
  from s have g: "grows w w'" by (simp add: stretch_def)
  from s obtain rs new where rs: "sent w' = sent w @ rs" "list_all (justified lib w' c) rs"
    and new: "charged w' = charged w @ new"
      "mset (replicate (length rs) (caller_name c)) + mset h' \<subseteq># mset h + mset new"
    unfolding stretch_def by blast
  from b obtain owners where o: "list_all2 (paid_for lib w) owners (sent w)"
    and cover: "mset owners + (rest + mset h) \<subseteq># mset (charged w)"
    by (auto simp: booked_def pool)
  let ?owners = "owners @ replicate (length rs) (caller_name c)"
  have "list_all (paid_for lib w' (caller_name c)) rs"
    using rs(2) caller_of_grows [OF c g] by (auto simp: paid_for_def list_all_iff)
  then have "list_all2 (\<lambda>_. paid_for lib w' (caller_name c)) (replicate (length rs) (caller_name c)) rs"
    by (rule list_all2_replicate)
  then have "list_all2 (paid_for lib w') (replicate (length rs) (caller_name c)) rs"
    by (auto simp: list_all2_conv_all_nth)
  with paid_all_grows [OF o g] have "list_all2 (paid_for lib w') ?owners (sent w')"
    by (simp add: rs(1) list_all2_appendI)
  moreover have "mset ?owners + mset (concat (map held pool')) \<subseteq># mset (charged w')"
  proof -
    have "mset ?owners + mset (concat (map held pool')) =
        mset owners + rest + (mset (replicate (length rs) (caller_name c)) + mset h')"
      by (simp add: pool' ac_simps)
    also have "\<dots> \<subseteq># mset owners + rest + (mset h + mset new)"
      by (rule subset_mset.add_left_mono [OF new(2)])
    also have "\<dots> = mset owners + (rest + mset h) + mset new" by (simp add: ac_simps)
    also have "\<dots> \<subseteq># mset (charged w) + mset new"
      by (rule subset_mset.add_right_mono [OF cover])
    finally show ?thesis by (simp add: new(1))
  qed
  ultimately show ?thesis unfolding booked_def by blast
qed

lemma booked_quiet:
  assumes "booked lib w pool" and "quiet lib w w'"
  shows "booked lib w' pool"
proof -
  from assms(2) have g: "grows w w'" and s: "sent w' = sent w" "charged w' = charged w"
    by (simp_all add: quiet_def)
  from assms(1) show ?thesis
    unfolding booked_def s using paid_all_grows [OF _ g] by blast
qed

lemma booked_drop: "booked lib w (bef @ t # aft) \<Longrightarrow> booked lib w (bef @ aft)"
proof -
  assume "booked lib w (bef @ t # aft)"
  then obtain owners where o: "list_all2 (paid_for lib w) owners (sent w)"
    and "mset owners + mset (concat (map held (bef @ t # aft))) \<subseteq># mset (charged w)"
    unfolding booked_def by blast
  then have "(mset owners + mset (concat (map held (bef @ aft)))) + mset (held t) \<subseteq># mset (charged w)"
    by (simp add: ac_simps)
  then have "mset owners + mset (concat (map held (bef @ aft))) \<subseteq># mset (charged w)"
    by (rule subset_mset.order_trans [OF mset_subset_eq_add_left])
  with o show ?thesis unfolding booked_def by blast
qed

section \<open>The invariant\<close>

definition service_inv :: "('c, 'l, 'k) lib \<Rightarrow> ('c, 'l, 'k) service \<Rightarrow> bool" where
  "service_inv lib s \<longleftrightarrow> wf_world lib (fst s) \<and> booked lib (fst s) (snd s) \<and>
     list_all (task_ok lib (fst s)) (snd s)"

lemma service_inv_quiet:
  assumes "service_inv lib (w, pool)" and q: "quiet lib w w'"
  shows "service_inv lib (w', pool)"
proof -
  have "wf_world lib w'" "grows w w'" using q by (simp_all add: quiet_def)
  moreover have "booked lib w' pool" using assms by (auto simp: service_inv_def intro: booked_quiet)
  moreover have "list_all (task_ok lib w) pool" using assms(1) by (simp add: service_inv_def)
  ultimately show ?thesis
    by (auto simp: service_inv_def list_all_iff intro: task_ok_grows)
qed

text \<open>A stretch of one task of the pool.\<close>

lemma service_inv_advance:
  assumes inv: "service_inv lib (w, bef @ t # aft)"
  shows "case advance web lib wake t w of
      (Inl resp, w') \<Rightarrow> service_inv lib (w', bef @ aft)
    | (Inr t', w') \<Rightarrow> service_inv lib (w', bef @ t' # aft)"
proof -
  from inv have wf: "wf_world lib w" and b: "booked lib w (bef @ t # aft)"
    and ok: "task_ok lib w t" and rest: "list_all (task_ok lib w) (bef @ aft)"
    by (simp_all add: service_inv_def)
  from ok obtain i where c: "caller_of w i (task_caller t)" and calls: "task_calls lib w t"
    by (auto simp: task_ok_def)
  obtain x w' where adv: "advance web lib wake t w = (x, w')" by (metis prod.exhaust)
  from advance_ok [OF wf calls, of web wake] have so: "stretch_ok lib t w (x, w')" by (simp add: adv)
  have rest': "list_all (task_ok lib w') (bef @ aft)" if "grows w w'"
    using rest that by (auto simp: list_all_iff intro: task_ok_grows)
  let ?rest = "mset (concat (map held (bef @ aft)))"
  show ?thesis
  proof (cases x)
    case (Inl resp)
    with so have s: "stretch lib (task_caller t) (held t) w [] w'" by (simp add: stretch_ok_def)
    then have "booked lib w' (bef @ aft)"
      by (rule booked_stretch [OF b _ c, where rest = ?rest]) (simp_all add: ac_simps)
    with s rest' Inl show ?thesis by (simp add: adv service_inv_def stretch_def)
  next
    case (Inr t')
    with so have s: "stretch lib (task_caller t) (held t) w (held t') w'"
      and t': "task_caller t' = task_caller t" "task_calls lib w' t'"
      by (simp_all add: stretch_ok_def)
    then have "booked lib w' (bef @ t' # aft)"
      by (intro booked_stretch [OF b s c, where rest = ?rest]) (simp_all add: ac_simps)
    moreover have "task_ok lib w' t'"
      using t' caller_of_grows [OF c] s by (auto simp: task_ok_def stretch_def)
    ultimately show ?thesis using s rest' Inr by (simp add: adv service_inv_def stretch_def)
  qed
qed

lemma service_inv_step:
  assumes inv: "service_inv lib s" and st: "svc_step web lib cfg s s'"
  shows "service_inv lib s'"
  using st
proof cases
  case (answered rq w resp w' pool)
  with inv have "wf_world lib w" by (simp add: service_inv_def)
  from quiet_accept [OF this, of web "st_playground cfg" "st_max_body cfg" rq] answered inv
  show ?thesis by (simp add: service_inv_quiet)
next
  case (accepted rq w r w' pool)
  with inv have wf: "wf_world lib w" by (simp add: service_inv_def)
  from quiet_accept [OF this, of web "st_playground cfg" "st_max_body cfg" rq] accepted inv
  have "service_inv lib (w', pool)" by (simp add: service_inv_quiet)
  moreover have "caller_of w' (current w) (ready_caller r)"
    using accepted(3) by (rule accept_caller [OF wf])
  then have "task_ok lib w' (Waiting r)" by (auto simp: task_ok_def)
  ultimately show ?thesis by (simp add: service_inv_def booked_def accepted)
next
  case (advanced wake t w t' w' bef aft)
  with service_inv_advance [of lib w bef t aft web wake] inv show ?thesis by simp
next
  case (finished wake t w resp w' bef aft)
  with service_inv_advance [of lib w bef t aft web wake] inv show ?thesis by simp
next
  case (dropped w bef t aft)
  with inv show ?thesis by (auto simp: service_inv_def intro: booked_drop)
next
  case (sighup w pool ex xt)
  with inv have "wf_world lib w" by (simp add: service_inv_def)
  from on_sighup_quiet [OF this] sighup inv show ?thesis by (simp add: service_inv_quiet)
next
  case (elapsed w now pool today)
  let ?w = "w\<lparr>mono := now, wall := today\<rparr>"
  from elapsed inv have wf: "wf_world lib w" by (simp add: service_inv_def)
  have "quiet lib w ?w"
    unfolding quiet_def
    by (auto intro: wf_world_same [OF wf] grows_same [OF grows_refl] simp: wf_worldD(2) [OF wf])
  with elapsed inv show ?thesis by (simp add: service_inv_quiet)
qed

lemma service_inv_reachable:
  "reachable web lib cfg s0 s \<Longrightarrow> service_inv lib s0 \<Longrightarrow> service_inv lib s"
  by (induction rule: reachable.induct) (auto intro: service_inv_step)

lemma service_inv_start:
  assumes "with_path lib config path c now today = Ok w"
  shows "service_inv lib (w, [])"
proof -
  have "sent w = []" "charged w = []"
    using assms by (auto simp: with_path_def and_then_Ok_iff)
  then show ?thesis
    using with_path_wf [OF assms] by (simp add: service_inv_def booked_def)
qed

section \<open>A request with nothing in between\<close>

lemma reachable_drive:
  "drive web lib n t w = Some (resp, w') \<Longrightarrow> reachable web lib cfg s0 (w, pool @ [t]) \<Longrightarrow>
     reachable web lib cfg s0 (w', pool)"
proof (induction n arbitrary: t w)
  case (Suc n)
  obtain x w1 where adv: "advance web lib 0 t w = (x, w1)" by (metis prod.exhaust)
  show ?case
  proof (cases x)
    case (Inl r)
    with adv Suc.prems(1) have "advance web lib 0 t w = (Inl resp, w')" by simp
    from svc_step.finished [OF this, of cfg pool "[]"] Suc.prems(2) show ?thesis
      by (auto intro: reachable.step)
  next
    case (Inr t')
    with svc_step.advanced [of web lib 0 t w t' w1 cfg pool "[]"] adv Suc.prems(2)
    have "reachable web lib cfg s0 (w1, pool @ [t'])" by (auto intro: reachable.step)
    with Suc adv Inr show ?thesis by simp
  qed
qed simp

lemma reachable_serve:
  assumes "reachable web lib cfg s0 (w, pool)"
  shows "reachable web lib cfg s0
    (snd (serve web lib (st_playground cfg) (st_max_body cfg) rq w), pool)"
proof (cases "accept web lib (st_playground cfg) (st_max_body cfg) rq w")
  case (Pair a w1)
  show ?thesis
  proof (cases a)
    case (Inl resp)
    with assms Pair show ?thesis
      by (auto simp: serve_def intro: reachable.step svc_step.answered)
  next
    case (Inr r)
    with assms Pair have r: "reachable web lib cfg s0 (w1, pool @ [Waiting r])"
      by (auto intro: reachable.step svc_step.accepted)
    have "drive web lib (3 * MAX_COMPLEXITY + 2) (Waiting r) w1 =
        Some (fst (handle web lib r w1), snd (handle web lib r w1))"
      by (simp only: drive_handle prod.collapse)
    from reachable_drive [OF this r] show ?thesis by (simp add: serve_def Pair Inr)
  qed
qed

section \<open>Disconnects\<close>

text \<open>A REST operation whose guards pass is charged and waits with its call.\<close>

lemma rest_begin_out:
  assumes "goes_out lib (current w) c (rest_scope k) (rest_site k) (rest_prep lib c k) w"
    and "w2 = snd (charge lib (current w) c (rest_action k) w)"
  shows "rest_begin lib k c w = (Inr (RestCalling c k (mono w) (rest_count lib c k w) (mono w2) (current w)
      (projr (rest_prep lib c k))), w2)"
    and "charged w2 = charged w @ [caller_name c]" and "audit w2 = audit w"
    and "op_valid (projr (rest_prep lib c k))"
proof -
  obtain op where p: "permitted c (rest_scope k) (rest_site k)" "quota_allows lib (current w) c w"
    "rest_prep lib c k = Ok op" "op_valid op"
    using assms(1) by (auto simp: goes_out_def split: sum.splits)
  have "charge lib (current w) c (rest_action k) w = (Ok (), w2)"
    using charge_result [of lib "current w" c "rest_action k" w] p(2) assms(2) by (simp add: prod_eq_iff)
  moreover obtain u v where "require_scope c (rest_scope k) = Ok u" "require_site_opt c (rest_site k) = Ok v"
    using p(1) by (auto simp: permitted_iff is_ok_iff)
  ultimately show "rest_begin lib k c w = (Inr (RestCalling c k (mono w) (rest_count lib c k w) (mono w2) (current w)
      (projr (rest_prep lib c k))), w2)"
    by (simp add: rest_begin_def guarded_begin_def p(3))
  show "charged w2 = charged w @ [caller_name c]" "audit w2 = audit w"
    using p(2) by (simp_all add: assms(2) charge_charged charge_audit)
  show "op_valid (projr (rest_prep lib c k))" using p by simp
qed

text \<open>The operation left alone: the same call, and one audit record.\<close>

lemma rest_run_out:
  assumes "goes_out lib (current w) c (rest_scope k) (rest_site k) (rest_prep lib c k) w"
    and "w2 = snd (charge lib (current w) c (rest_action k) w)"
  shows "console (snd (rest_run lib k c w)) =
      console (snd (upstream_call lib (current w) (projr (rest_prep lib c k)) w2))"
    and "length (audit (snd (rest_run lib k c w))) = Suc (length (audit w))"
proof -
  let ?op = "projr (rest_prep lib c k)"
  obtain r w3 where up: "upstream_call lib (current w) ?op w2 = (r, w3)" by (metis prod.exhaust)
  have "guarded_begin lib (current w) c (rest_scope k) (rest_site k) (rest_action k) (rest_prep lib c k) w = (Ok ?op, w2)"
    using rest_begin_out(1) [OF assms] by (auto simp: rest_begin_def apfst_def map_prod_def split: sum.splits prod.splits)
  then have g: "rest_guarded lib k c w = ((r, mono w3 - mono w2), w3)"
    by (simp add: rest_guarded_def guarded_op_split up)
  then show "console (snd (rest_run lib k c w)) = console (snd (upstream_call lib (current w) ?op w2))"
    by (simp add: rest_run_refines rest_finish_def up)
  show "length (audit (snd (rest_run lib k c w))) = Suc (length (audit w))"
    using rest_begin_out(3) [OF assms] upstream_call_simps(5) [OF up]
    by (simp add: rest_run_refines rest_finish_def g finish_audit)
qed

text \<open>
  C19. A client that disconnects while the controller works leaves no trace of what was done for it. In
  any run, when a request has been admitted as a REST operation whose guards pass, the run can go on so
  that its caller pays and its call goes out with the whole effect the operation has on the
  controller, and the task is dropped before the answer. Then neither the audit log nor a
  counter mentions the request, from its arrival on, while left alone it leaves a record:
  \<open>finish\<close> is the last thing the handler does.
\<close>

theorem disconnect_leaves_no_record:
  assumes "with_path lib config path c0 now today = Ok w0" and "reachable web lib cfg (w0, []) (w, pool)"
    and "accept web lib (st_playground cfg) (st_max_body cfg) rq w = (Ok (ReadyRest c k), w1)"
    and "goes_out lib (current w1) c (rest_scope k) (rest_site k) (rest_prep lib c k) w1"
  shows "(\<exists>w'. reachable web lib cfg (w0, []) (w', pool) \<and>
    sent w' = sent w @ [op_request (lv_upstream (current_live w)) (projr (rest_prep lib c k))] \<and>
    charged w' = charged w @ [caller_name c] \<and> console w' = console (snd (rest_run lib k c w1)) \<and>
    audit w' = audit w \<and> counters w' = counters w) \<and>
    length (audit (snd (rest_run lib k c w1))) = Suc (length (audit w))"
proof -
  let ?op = "projr (rest_prep lib c k)"
  define w2 where "w2 = snd (charge lib (current w1) c (rest_action k) w1)"
  have wf: "wf_world lib w"
    using service_inv_reachable [OF assms(2) service_inv_start [OF assms(1)]] by (simp add: service_inv_def)
  obtain pm where ext: "from_request_parts lib pm w = (Ok c, w1)"
    using assms(3)
    by (auto simp: accept_def Let_def dest!: extract_args_caller
        split: option.splits prod.splits sum.splits endpoint.splits)
  have w1: "sent w1 = sent w" "charged w1 = charged w" "audit w1 = audit w" "counters w1 = counters w"
    "current w1 = current w"
    using extraction_frame [of lib pm w] extraction_Ok(3,4) [OF wf ext] ext by simp_all
  note begun = rest_begin_out [OF assms(4) w2_def]
  obtain r w3 where up: "upstream_call lib (current w1) ?op w2 = (r, w3)" by (metis prod.exhaust)
  let ?t = "RestCalling c k (mono w1) (rest_count lib c k w1) (mono w2) (current w1) ?op"
  have s0: "svc_step web lib cfg (w, pool) (w1, pool @ [Waiting (ReadyRest c k)])"
    by (rule svc_step.accepted [OF assms(3)])
  have s1: "svc_step web lib cfg (w1, pool @ [Waiting (ReadyRest c k)]) (w2, pool @ [?t])"
    using svc_step.advanced [of web lib 0 "Waiting (ReadyRest c k)" w1 ?t w2 cfg pool "[]"] begun(1) by simp
  have s2: "svc_step web lib cfg (w2, pool @ [?t]) (w3, pool @ [RestCalled c k (mono w1)
      (rest_count lib c k w1) (mono w2) r])"
    using svc_step.advanced [of web lib 0 ?t w2 _ w3 cfg pool "[]"] up by simp
  have s3: "svc_step web lib cfg (w3, pool @ [RestCalled c k (mono w1) (rest_count lib c k w1) (mono w2) r])
      (w3, pool)"
    using svc_step.dropped [of web lib cfg w3 pool _ "[]"] by simp
  have r: "reachable web lib cfg (w0, []) (w3, pool)"
    by (rule reachable.step [OF reachable.step [OF reachable.step [OF reachable.step [OF assms(2) s0] s1] s2] s3])
  have g: "grows w w1" using extraction_grows [of w lib pm] ext by simp
  then have "lv_upstream (live_at w1 (current w)) = lv_upstream (live_at w (current w))"
    using grows_live [OF g, of "current w"] wf_worldD(1) [OF wf] by (simp add: same_live_def)
  moreover have "current w1 < length (lives w1)"
    using grows_length [OF g] wf_worldD(1) [OF wf] by (simp add: w1)
  then have "lv_upstream (live_at w2 (current w1)) = lv_upstream (live_at w1 (current w1))"
    unfolding w2_def by (rule charge_upstream)
  ultimately have "lv_upstream (live_at w2 (current w1)) = lv_upstream (current_live w)"
    by (simp add: w1 current_live_def)
  then have "sent w3 = sent w @ [op_request (lv_upstream (current_live w)) ?op]"
    using upstream_call_simps(9) [OF up] begun(4) w1(1) by (simp add: w2_def)
  moreover have "charged w3 = charged w @ [caller_name c]" "audit w3 = audit w" "counters w3 = counters w"
    using upstream_call_simps(3,5,7) [OF up] begun(2,3) w1 by (simp_all add: w2_def)
  moreover have "console w3 = console (snd (rest_run lib k c w1))"
    using rest_run_out(1) [OF assms(4) w2_def] up by simp
  moreover have "length (audit (snd (rest_run lib k c w1))) = Suc (length (audit w))"
    using rest_run_out(2) [OF assms(4) w2_def] w1(3) by simp
  ultimately show ?thesis by (intro conjI exI [of _ w3] r)
qed

end
