(* ===== verification/Service_Progress.thy ===== *)
theory Service_Progress
  imports Service_Runs
begin

text \<open>
  That requests get answered. \<open>work\<close> bounds the stretches a task still needs; every stretch uses some
  of it up, whatever the controller, the scheduler and the other requests do, and a task in the pool
  can always take one. And that what waits in the pool is well-formed: its guards name a \<open>Live\<close> that
  exists, its caller was admitted, its call is one the caller may make.
\<close>

section \<open>The work left in a task\<close>

fun work :: "task \<Rightarrow> nat" where
  "work (Waiting r) = (case r of
     ReadyInfo c \<Rightarrow> 1 | ReadySdl c \<Rightarrow> 1 | ReadyGraphql c q \<Rightarrow> 3 * MAX_COMPLEXITY + 2
   | ReadyRest c k \<Rightarrow> 3)"
| "work (RestCalling c k started cnt up li op) = 2"
| "work (RestCalled c k started cnt up r) = 1"
| "work (GqlRunning c q started n acc fl) = 3 * n + 1 + sum_list (map (\<lambda>f. if unsent f then 2 else 1) fl)"

lemma work_pos: "0 < work t"
  by (cases t) (auto split: ready.split)

lemma work_waiting: "work (Waiting r) \<le> 770"
  by (cases r) (simp_all add: MAX_COMPLEXITY_def)

lemma rest_begin_work: "rest_begin lib k c w = (Inr t, w') \<Longrightarrow> work t = 2"
  by (auto simp: rest_begin_def split: prod.splits sum.splits)

lemma poll_lands: "poll lib c f w = (Inr f', w') \<Longrightarrow> unsent f \<and> \<not> unsent f'"
  by (cases f) (auto simp: apfst_def map_prod_def split: prod.splits)

lemma sum_list_at:
  fixes fl :: "flight list" and m :: "flight \<Rightarrow> nat"
  assumes "i < length fl"
  shows "sum_list (map m fl) = sum_list (map m (take i fl @ drop (Suc i) fl)) + m (fl ! i)"
    and "sum_list (map m (fl[i := f])) = sum_list (map m (take i fl @ drop (Suc i) fl)) + m f"
proof -
  have "sum_list (map m (take i fl @ x # drop (Suc i) fl)) =
      sum_list (map m (take i fl @ drop (Suc i) fl)) + m x" for x
    by simp
  from this [of "fl ! i"] this [of f] show
    "sum_list (map m fl) = sum_list (map m (take i fl @ drop (Suc i) fl)) + m (fl ! i)"
    "sum_list (map m (fl[i := f])) = sum_list (map m (take i fl @ drop (Suc i) fl)) + m f"
    by (simp_all only: upd_conv_take_nth_drop [OF assms] id_take_nth_drop [OF assms, symmetric])
qed

lemma document_work:
  assumes "advance web lib wake (GqlRunning c q started n acc fl) w = (Inr t', w')"
  shows "work t' < work (GqlRunning c q started n acc fl)"
proof (cases "gql_turn web q n acc fl wake")
  case Answer
  with assms show ?thesis by simp
next
  case (Begin g)
  then have "0 < n" by (rule gql_turn_begin)
  with assms Begin show ?thesis by (auto split: prod.splits sum.splits)
next
  case (Poll i)
  then have i: "i < length fl" by (rule gql_turn_poll)
  let ?m = "\<lambda>f. if unsent f then 2 else 1 :: nat"
  obtain x w1 where pl: "poll lib c (fl ! i) w = (x, w1)" by (metis prod.exhaust)
  note at = sum_list_at [OF i, where m = ?m]
  show ?thesis
  proof (cases x)
    case (Inl r)
    with assms Poll pl have "t' = GqlRunning c q started n (acc @ [(flight_call (fl ! i), r)])
        (take i fl @ drop (Suc i) fl)"
      by simp
    then show ?thesis using at(1) by (simp split: if_splits)
  next
    case (Inr f')
    with assms Poll pl have t': "t' = GqlRunning c q started n acc (fl[i := f'])" by simp
    have "?m f' < ?m (fl ! i)" using poll_lands [OF pl [unfolded Inr]] by simp
    then have "sum_list (map ?m (fl[i := f'])) < sum_list (map ?m fl)"
      unfolding at(1) at(2) [of f'] by simp
    then show ?thesis by (simp add: t')
  qed
qed

lemma advance_work: "advance web lib wake t w = (Inr t', w') \<Longrightarrow> work t' < work t"
proof (cases t)
  case (Waiting r)
  assume "advance web lib wake t w = (Inr t', w')"
  with Waiting show ?thesis by (cases r) (auto dest: rest_begin_work)
next
  case (GqlRunning c q started n acc fl)
  assume "advance web lib wake t w = (Inr t', w')"
  with GqlRunning show ?thesis by (simp only: document_work)
qed (auto simp: Let_def split: prod.splits)

section \<open>Runs that count\<close>

text \<open>\<open>run_of web lib cfg s0 k n s\<close>: a run from \<open>s0\<close> to \<open>s\<close> with \<open>k\<close> stretches and \<open>n\<close> arrivals.\<close>

definition left_over :: "response + task \<Rightarrow> task list" where
  "left_over x = (case x of Inl resp \<Rightarrow> [] | Inr t \<Rightarrow> [t])"

inductive run_of :: "web \<Rightarrow> ('c, 'l, 'k) lib \<Rightarrow> settings \<Rightarrow> ('c, 'l, 'k) service \<Rightarrow> nat \<Rightarrow> nat
    \<Rightarrow> ('c, 'l, 'k) service \<Rightarrow> bool" for web lib cfg s0 where
  start: "run_of web lib cfg s0 0 0 s0"
| answer: "run_of web lib cfg s0 k n (w, pool) \<Longrightarrow>
     accept web lib (st_playground cfg) (st_max_body cfg) rq w = (Err resp, w') \<Longrightarrow>
     run_of web lib cfg s0 k n (w', pool)"
| arrive: "run_of web lib cfg s0 k n (w, pool) \<Longrightarrow>
     accept web lib (st_playground cfg) (st_max_body cfg) rq w = (Ok r, w') \<Longrightarrow>
     run_of web lib cfg s0 k (Suc n) (w', pool @ [Waiting r])"
| stretch: "run_of web lib cfg s0 k n (w, before @ t # after) \<Longrightarrow> advance web lib wake t w = (x, w') \<Longrightarrow>
     run_of web lib cfg s0 (Suc k) n (w', before @ left_over x @ after)"
| disconnect: "run_of web lib cfg s0 k n (w, before @ t # after) \<Longrightarrow>
     run_of web lib cfg s0 k n (w, before @ after)"
| hangup: "run_of web lib cfg s0 k n (w, pool) \<Longrightarrow>
     run_of web lib cfg s0 k n (on_sighup lib ex xt w, pool)"
| tick: "run_of web lib cfg s0 k n (w, pool) \<Longrightarrow> mono w \<le> now \<Longrightarrow>
     run_of web lib cfg s0 k n (w\<lparr>mono := now, wall := today\<rparr>, pool)"

text \<open>These are the runs of the service.\<close>

lemma run_of_reachable: "run_of web lib cfg s0 k n s \<Longrightarrow> reachable web lib cfg s0 s"
proof (induction rule: run_of.induct)
  case (stretch k n w before t after wake x w')
  then show ?case
    by (cases x) (auto simp: left_over_def intro: reachable.step svc_step.advanced svc_step.finished)
qed (auto intro: reachable.intros svc_step.intros)

lemma reachable_run_of: "reachable web lib cfg s0 s \<Longrightarrow> \<exists>k n. run_of web lib cfg s0 k n s"
proof (induction rule: reachable.induct)
  case start
  show ?case by (blast intro: run_of.start)
next
  case (step s s')
  then obtain k n where r: "run_of web lib cfg s0 k n s" by blast
  from step(2) show ?case
  proof cases
    case (advanced wake t w t' w' bef aft)
    with run_of.stretch [of web lib cfg s0 k n w bef t aft wake "Inr t'" w'] r show ?thesis
      by (auto simp: left_over_def)
  next
    case (finished wake t w resp w' bef aft)
    with run_of.stretch [of web lib cfg s0 k n w bef t aft wake "Inl resp" w'] r show ?thesis
      by (auto simp: left_over_def)
  qed (use r in \<open>blast intro: run_of.intros\<close>)+
qed

text \<open>Stretches alone, of any tasks in any order.\<close>

inductive stretches :: "web \<Rightarrow> ('c, 'l, 'k) lib \<Rightarrow> ('c, 'l, 'k) service \<Rightarrow> nat
    \<Rightarrow> ('c, 'l, 'k) service \<Rightarrow> bool" for web lib s0 where
  none: "stretches web lib s0 0 s0"
| more: "stretches web lib s0 k (w, before @ t # after) \<Longrightarrow> advance web lib wake t w = (x, w') \<Longrightarrow>
     stretches web lib s0 (Suc k) (w', before @ left_over x @ after)"

lemma left_over_work:
  "advance web lib wake t w = (x, w') \<Longrightarrow> sum_list (map work (left_over x)) < work t"
  using work_pos [of t] by (cases x) (auto simp: left_over_def dest: advance_work)

lemma run_of_work:
  "run_of web lib cfg s0 k n s \<Longrightarrow>
     k + sum_list (map work (snd s)) \<le> sum_list (map work (snd s0)) + 770 * n"
proof (induction rule: run_of.induct)
  case (arrive k n w pool rq r w')
  then show ?case using work_waiting [of r] by simp
next
  case (stretch k n w before t after wake x w')
  from left_over_work [OF stretch(2)] stretch.IH show ?case by simp
qed auto

lemma stretches_work:
  "stretches web lib s0 k s \<Longrightarrow> k + sum_list (map work (snd s)) \<le> sum_list (map work (snd s0))"
proof (induction rule: stretches.induct)
  case (more k w before t after wake x w')
  from left_over_work [OF more(2)] more.IH show ?case by simp
qed simp

lemma stretches_drain:
  "stretches web lib s0 k (w, pool) \<Longrightarrow> \<exists>j w'. stretches web lib s0 (k + j) (w', [])"
proof (induction "sum_list (map work pool)" arbitrary: k w pool rule: less_induct)
  case less
  show ?case
  proof (cases pool)
    case Nil
    with less.prems show ?thesis by (metis add_0_right)
  next
    case (Cons t rest)
    obtain x w1 where adv: "advance web lib 0 t w = (x, w1)" by (metis prod.exhaust)
    have r: "stretches web lib s0 (Suc k) (w1, left_over x @ rest)"
      using stretches.more [OF _ adv, of s0 k "[]" rest] less.prems Cons by simp
    have "sum_list (map work (left_over x @ rest)) < sum_list (map work pool)"
      using left_over_work [OF adv] by (simp add: Cons)
    from less.hyps [OF this r] show ?thesis by (metis add_Suc_shift)
  qed
qed

section \<open>The calls left in a task\<close>

fun calls_left :: "task \<Rightarrow> nat" where
  "calls_left (Waiting r) = (case r of
     ReadyInfo c \<Rightarrow> 0 | ReadySdl c \<Rightarrow> 0 | ReadyGraphql c q \<Rightarrow> MAX_COMPLEXITY | ReadyRest c k \<Rightarrow> 1)"
| "calls_left (RestCalling c k started cnt up li op) = 1"
| "calls_left (RestCalled c k started cnt up r) = 0"
| "calls_left (GqlRunning c q started n acc fl) = n + length (filter unsent fl)"

lemma calls_left_waiting: "calls_left (Waiting r) \<le> 256"
  by (cases r) (simp_all add: MAX_COMPLEXITY_def)

lemma rest_begin_sent: "rest_begin lib k c w = (x, w') \<Longrightarrow>
    length (sent w') + sum_list (map calls_left (left_over x)) \<le> length (sent w) + 1"
proof -
  assume rb: "rest_begin lib k c w = (x, w')"
  obtain b w1 where gb: "guarded_begin lib (current w) c (rest_scope k) (rest_site k) (rest_action k)
      (rest_prep lib c k) w = (b, w1)"
    by (metis prod.exhaust)
  then have "sent w1 = sent w"
    using guarded_begin_frame(1) [of lib "current w" c "rest_scope k" "rest_site k" "rest_action k"
        "rest_prep lib c k" w] by simp
  with rb gb show ?thesis by (cases b) (auto simp: rest_begin_def left_over_def apfst_def map_prod_def
        split: prod.splits dest!: arg_cong [where f = "\<lambda>p. sent (snd p)"])
qed

lemma gql_begin_sent: "gql_begin lib g c w = (x, w') \<Longrightarrow> sent w' = sent w"
proof -
  assume gb: "gql_begin lib g c w = (x, w')"
  have "sent (snd (gql_begin lib g c w)) = sent w"
  proof (cases "g = GqlInfo")
    case True
    then show ?thesis by (simp add: gql_begin_def resolve_info_def)
  next
    case False
    obtain b w1 where b: "guarded_begin lib (current w) c (gql_scope g) (gql_site g) (gql_action g)
        (gql_prep lib c g) w = (b, w1)"
      by (metis prod.exhaust)
    then have "sent w1 = sent w"
      using guarded_begin_frame(1) [of lib "current w" c "gql_scope g" "gql_site g" "gql_action g"
          "gql_prep lib c g" w] by simp
    with False b show ?thesis by (cases b) (simp_all add: gql_begin_def)
  qed
  with gb show ?thesis by simp
qed

lemma call_sent: "upstream_call lib li op w = (r, w') \<Longrightarrow> length (sent w') \<le> Suc (length (sent w))"
  by (simp add: upstream_call_simps(9))

lemma poll_sent:
  "poll lib c f w = (x, w') \<Longrightarrow> length (sent w') \<le> length (sent w) + (if unsent f then 1 else 0)"
proof (cases f)
  case (FieldCalling g up li op)
  assume "poll lib c f w = (x, w')"
  with FieldCalling show ?thesis by (auto dest!: call_sent split: prod.splits)
next
  case (FieldCalled g up r)
  assume "poll lib c f w = (x, w')"
  then have "w' = snd (gql_shape c g ((r, mono w - up), w))"
    by (auto simp: FieldCalled apfst_def map_prod_def split: prod.splits)
  then show ?thesis by simp
qed

lemma document_calls:
  assumes "advance web lib wake (GqlRunning c q started n acc fl) w = (x, w')"
  shows "length (sent w') + sum_list (map calls_left (left_over x)) \<le>
    length (sent w) + (n + length (filter unsent fl))"
proof (cases "gql_turn web q n acc fl wake")
  case Answer
  with assms have "w' = snd (graphql_finish web lib c q started acc w)" "\<exists>resp. x = Inl resp"
    by (auto simp: apfst_def map_prod_def split: prod.splits)
  then show ?thesis by (auto simp: left_over_def)
next
  case (Begin g)
  then have "0 < n" by (rule gql_turn_begin)
  with assms Begin show ?thesis
    by (auto simp: left_over_def gql_begin_sent split: prod.splits sum.splits)
next
  case (Poll i)
  then have i: "i < length fl" by (rule gql_turn_poll)
  obtain y w1 where pl: "poll lib c (fl ! i) w = (y, w1)" by (metis prod.exhaust)
  note sent = poll_sent [OF pl]
  show ?thesis
  proof (cases y)
    case (Inl r)
    with assms Poll pl sent show ?thesis by (auto simp: left_over_def unsent_without [OF i] split: if_splits)
  next
    case (Inr f')
    with poll_lands [of lib c "fl ! i" w f' w1] pl have f': "unsent (fl ! i)" "\<not> unsent f'" by simp_all
    with assms Poll pl Inr sent show ?thesis
      by (auto simp: left_over_def unsent_landed [OF i] unsent_without [OF i])
  qed
qed

lemma advance_calls:
  "advance web lib wake t w = (x, w') \<Longrightarrow>
     length (sent w') + sum_list (map calls_left (left_over x)) \<le> length (sent w) + calls_left t"
proof (cases t)
  case (Waiting r)
  assume a: "advance web lib wake t w = (x, w')"
  show ?thesis
  proof (cases r)
    case (ReadyRest c k)
    with a Waiting rest_begin_sent [of lib k c w x w'] show ?thesis by simp
  next
    case (ReadyInfo c)
    with a Waiting show ?thesis by (auto simp: left_over_def info_def)
  next
    case (ReadySdl c)
    with a Waiting show ?thesis by (auto simp: left_over_def graphql_sdl_def)
  next
    case (ReadyGraphql c q)
    with a Waiting show ?thesis by (auto simp: left_over_def)
  qed
next
  case (RestCalling c k started cnt up li op)
  assume "advance web lib wake t w = (x, w')"
  with RestCalling show ?thesis by (auto simp: left_over_def dest!: call_sent split: prod.splits)
next
  case (RestCalled c k started cnt up r)
  assume "advance web lib wake t w = (x, w')"
  then have "w' = snd (respond (finish c (rest_action k) (rest_site k) (rest_target k) cnt started
       (mono w - up) (map_ok (rest_view c k) r) w))" "\<exists>resp. x = Inl resp"
    by (auto simp: RestCalled apfst_def map_prod_def split: prod.splits)
  then show ?thesis by (auto simp: left_over_def)
next
  case (GqlRunning c q started n acc fl)
  assume "advance web lib wake t w = (x, w')"
  with GqlRunning document_calls [of web lib wake c q started n acc fl w x w'] show ?thesis
    by (simp del: advance.simps)
qed

lemma run_of_calls:
  "run_of web lib cfg s0 k n s \<Longrightarrow> service_inv lib s0 \<Longrightarrow>
     length (sent (fst s)) + sum_list (map calls_left (snd s)) \<le>
     length (sent (fst s0)) + sum_list (map calls_left (snd s0)) + 256 * n"
proof (induction rule: run_of.induct)
  case (answer k n w pool rq resp w')
  then have "wf_world lib w"
    using service_inv_reachable [OF run_of_reachable] by (fastforce simp: service_inv_def)
  from quiet_accept [OF this, of web "st_playground cfg" "st_max_body cfg" rq] answer show ?case
    by (simp add: quiet_def)
next
  case (arrive k n w pool rq r w')
  then have "wf_world lib w"
    using service_inv_reachable [OF run_of_reachable] by (fastforce simp: service_inv_def)
  from quiet_accept [OF this, of web "st_playground cfg" "st_max_body cfg" rq] arrive
  have "sent w' = sent w" by (simp add: quiet_def)
  with arrive calls_left_waiting [of r] show ?case by simp
next
  case (stretch k n w before t after wake x w')
  from advance_calls [OF stretch(2)] stretch.IH stretch.prems show ?case by simp
qed auto

section \<open>Properties\<close>

text \<open>
  C9. How far one request can be amplified. In any run from a fresh start, with any interleaving,
  the controller gets at most 256 requests for every request the proxy admitted, counting those still
  to come from the requests in progress, whatever documents the clients write.
\<close>

theorem amplification_is_bounded:
  assumes "with_path lib config path c now today = Ok w0"
    and "run_of web lib cfg (w0, []) k n (w, pool)"
  shows "length (sent w) + sum_list (map calls_left pool) \<le> 256 * n"
proof -
  have "sent w0 = []" using assms(1) by (auto simp: with_path_def and_then_Ok_iff)
  with run_of_calls [OF assms(2) service_inv_start [OF assms(1)]] show ?thesis by simp
qed


text \<open>
  C8. Requests do not starve on their own work. In any run from an empty pool with \<open>n\<close> admitted
  requests, whatever the scheduler, the controller, reloads and disconnects did, at most \<open>770 * n\<close>
  stretches were run. From there, running stretches in any order at all answers every waiting
  request: no sequence of stretches is longer than what is left of the bound, and every sequence that
  has not emptied the pool can be continued until it has.
\<close>

theorem every_request_gets_answered:
  assumes "run_of web lib cfg (w0, []) k n (w, pool)"
    and "stretches web lib (w, pool) j (w1, pool1)"
  shows "k + j \<le> 770 * n \<and> (\<exists>i w2. stretches web lib (w, pool) (j + i) (w2, []) \<and> k + (j + i) \<le> 770 * n)"
proof -
  have b: "k + sum_list (map work pool) \<le> 770 * n" using run_of_work [OF assms(1)] by simp
  have c: "j' \<le> sum_list (map work pool)" if "stretches web lib (w, pool) j' s" for j' s
    using stretches_work [OF that] by simp
  from stretches_drain [OF assms(2)] obtain i w2 where s: "stretches web lib (w, pool) (j + i) (w2, [])"
    by blast
  from b c [OF assms(2)] c [OF s] s show ?thesis by fastforce
qed

text \<open>
  C11. Guards never dangle. In every reachable state of a service that started, the current guard and
  the guard of every call about to be made name a configuration that was built, every waiting task
  belongs to a caller some configuration entitled, and the calls are ones their callers may make.
\<close>

theorem waiting_tasks_are_well_formed:
  assumes "with_path lib config path c now today = Ok w0"
    and "reachable web lib cfg (w0, []) (w, pool)"
  shows "current w < length (lives w) \<and>
    list_all (\<lambda>t. (\<exists>i. caller_of w i (task_caller t)) \<and>
      (case t of
         RestCalling cl k started cnt up li op \<Rightarrow> li < length (lives w) \<and>
           permitted cl (op_scope op) (op_site op) \<and> body_ok lib cl op
       | GqlRunning cl q started n acc fl \<Rightarrow>
           (\<forall>g up li op. FieldCalling g up li op \<in> set fl \<longrightarrow> li < length (lives w) \<and>
             permitted cl (op_scope op) (op_site op) \<and> body_ok lib cl op)
       | _ \<Rightarrow> True)) pool"
proof -
  have inv: "service_inv lib (w, pool)"
    using assms(2) service_inv_start [OF assms(1)] by (rule service_inv_reachable)
  then have "current w < length (lives w)" by (auto simp: service_inv_def intro: wf_worldD(1))
  moreover have "list_all (task_ok lib w) pool" using inv by (simp add: service_inv_def)
  then have "list_all (\<lambda>t. (\<exists>i. caller_of w i (task_caller t)) \<and>
      (case t of
         RestCalling cl k started cnt up li op \<Rightarrow> li < length (lives w) \<and>
           permitted cl (op_scope op) (op_site op) \<and> body_ok lib cl op
       | GqlRunning cl q started n acc fl \<Rightarrow>
           (\<forall>g up li op. FieldCalling g up li op \<in> set fl \<longrightarrow> li < length (lives w) \<and>
             permitted cl (op_scope op) (op_site op) \<and> body_ok lib cl op)
       | _ \<Rightarrow> True)) pool"
    by (rule list.pred_mono_strong)
       (auto simp: task_ok_def ready_call_def list_all_iff split: task.splits dest!: bspec)
  ultimately show ?thesis by blast
qed

end
