(* ===== verification/Metric_Labels.thy ===== *)
theory Metric_Labels
  imports Service_Runs
begin

text \<open>
  The label space of \<open>uvp_requests_total\<close>: \<open>src/metrics.rs\<close> says that label values are bounded by
  construction, \<open>matched_route\<close> of \<open>src/state.rs\<close> exists for it. Proved as an invariant of every
  run of the service: a label triple names a configured token or nobody, a route pattern or a fixed
  action, and a fixed outcome, so the map has at most 210 entries per token.
\<close>

section \<open>The labels\<close>

definition token_names :: "('c, 'l, 'k) world \<Rightarrow> rstr set" where
  "token_names w = (\<Union>lv \<in> set (lives w). tok_name ` fst ` set (auth_tokens (lv_auth lv)))"

definition action_labels :: "rstr list" where
  "action_labels = map fst (routes False) @ map str
     [''unmatched'', ''sites:list'', ''vouchers:list'', ''vouchers:create'', ''vouchers:revoke'',
      ''info'', ''graphql'', ''graphql:schema'']"

definition outcome_labels :: "rstr list" where
  "outcome_labels = map str
     [''ok'', ''graphql_errors'', ''ip_rate_limited'', ''missing_token'', ''unknown_token'',
      ''unauthorized'', ''token_expired'', ''forbidden'', ''not_allowed'', ''bad_request'',
      ''rate_limited'', ''upstream_error'', ''upstream_unreachable'', ''internal'']"

definition label_space :: "('c, 'l, 'k) world \<Rightarrow> request_key set" where
  "label_space w = insert (str ''-'') (token_names w) \<times> set action_labels \<times> set outcome_labels"

definition labels_ok :: "('c, 'l, 'k) world \<Rightarrow> bool" where
  "labels_ok w \<longleftrightarrow> fst ` set (requests (counters w)) \<subseteq> label_space w"

lemma route_pattern_known: "map_of (routes pg) tpl = Some ms \<Longrightarrow> tpl \<in> set action_labels"
  by (auto simp: routes_def action_labels_def split: if_splits)

lemma fixed_actions_known [simp]:
  "rest_action k \<in> set action_labels" "str ''info'' \<in> set action_labels"
  "str ''graphql'' \<in> set action_labels" "str ''graphql:schema'' \<in> set action_labels"
  by (cases k) (simp_all add: action_labels_def)

lemma outcomes_known [simp]:
  "result_outcome r \<in> set outcome_labels" "str ''ok'' \<in> set outcome_labels"
  "str ''graphql_errors'' \<in> set outcome_labels" "(reason, e) \<in> extraction_reasons \<Longrightarrow> reason \<in> set outcome_labels"
proof -
  have "kind e \<in> set outcome_labels" for e
    by (cases e) (simp_all add: outcome_labels_def)
  then show "result_outcome r \<in> set outcome_labels"
    by (cases r) (simp_all add: result_outcome_def, simp add: outcome_labels_def)
qed (auto simp: outcome_labels_def extraction_reasons_def)

section \<open>Names are kept\<close>

lemma token_names_live:
  "i < length (lives w) \<Longrightarrow> t \<in> fst ` set (auth_tokens (lv_auth (live_at w i))) \<Longrightarrow>
     tok_name t \<in> token_names w"
  by (auto simp: token_names_def live_at_def intro: nth_mem)

lemma caller_named: "caller_of w i c \<Longrightarrow> caller_name c \<in> token_names w"
  unfolding caller_of_def caller_name_def by (blast intro: token_names_live)

lemma token_names_grow:
  assumes g: "grows w w'"
  shows "token_names w \<subseteq> token_names w'"
proof
  fix n
  assume "n \<in> token_names w"
  then obtain lv t where lv: "lv \<in> set (lives w)" and t: "t \<in> fst ` set (auth_tokens (lv_auth lv))"
    and n: "n = tok_name t"
    by (auto simp: token_names_def)
  from lv obtain i where i: "i < length (lives w)" "live_at w i = lv"
    by (auto simp: in_set_conv_nth live_at_def)
  then have "i < length (lives w')" using grows_length [OF g] by simp
  moreover have "t \<in> fst ` set (auth_tokens (lv_auth (live_at w' i)))"
    using grows_live [OF g i(1)] t i(2) by (simp add: same_live_def)
  ultimately show "n \<in> token_names w'" unfolding n by (rule token_names_live)
qed

lemma label_space_grows: "grows w w' \<Longrightarrow> label_space w \<subseteq> label_space w'"
  using token_names_grow [of w w'] by (auto simp: label_space_def)

lemma labels_idle:
  "labels_ok w \<Longrightarrow> grows w w' \<Longrightarrow> requests (counters w') = requests (counters w) \<Longrightarrow> labels_ok w'"
  using label_space_grows [of w w'] by (auto simp: labels_ok_def)

lemma labels_record:
  assumes "labels_ok w" and "grows w w'"
    and "requests (counters w') = requests (record_request who a oc (counters w))"
    and "who = str ''-'' \<or> who \<in> token_names w'" and "a \<in> set action_labels" and "oc \<in> set outcome_labels"
  shows "labels_ok w'"
proof -
  have "(who, a, oc) \<in> label_space w'" using assms(4-6) by (auto simp: label_space_def)
  moreover have "fst ` set (requests (counters w)) \<subseteq> label_space w'"
    using assms(1) label_space_grows [OF assms(2)] by (auto simp: labels_ok_def)
  ultimately show ?thesis by (simp add: labels_ok_def assms(3))
qed

section \<open>Every phase keeps them\<close>

lemma finish_requests:
  "requests (counters (snd (finish c a s t n st up r w))) =
     requests (record_request (caller_name c) a (result_outcome r) (counters w))"
  by (simp add: finish_counters)

lemma gql_shape_requests [simp]:
  "requests (counters (snd (gql_shape c g x))) = requests (counters (snd x))"
proof -
  have "requests (gql_count c g m) = requests m" for m by (cases g) simp_all
  then show ?thesis by (simp add: gql_shape_def fail_gql_def Let_def split: prod.split sum.split)
qed

lemma gql_begin_requests [simp]:
  "requests (counters (snd (gql_begin lib g c w))) = requests (counters w)"
proof (cases "g = GqlInfo")
  case True
  then show ?thesis by (simp add: gql_begin_def resolve_info_def)
next
  case False
  obtain b w1 where gb: "guarded_begin lib (current w) c (gql_scope g) (gql_site g) (gql_action g)
      (gql_prep lib c g) w = (b, w1)"
    by (metis prod.exhaust)
  then have "counters w1 = counters w"
    using guarded_begin_frame(3) [of lib "current w" c "gql_scope g" "gql_site g" "gql_action g"
        "gql_prep lib c g" w]
    by simp
  with False gb show ?thesis by (cases b) (simp_all add: gql_begin_def)
qed

lemma graphql_finish_requests:
  obtains oc where "oc \<in> set outcome_labels"
    and "requests (counters (snd (graphql_finish web lib c q st outs w))) =
      requests (record_request (caller_name c) (str ''graphql'') oc (counters w))"
proof
  let ?oc = "if fst (web_gql_response web q outs) then str ''ok'' else str ''graphql_errors''"
  show "?oc \<in> set outcome_labels" by simp
  show "requests (counters (snd (graphql_finish web lib c q st outs w))) =
      requests (record_request (caller_name c) (str ''graphql'') ?oc (counters w))"
    by (simp add: graphql_finish_def Let_def split: prod.split)
qed

text \<open>A stretch records at most one request, under the caller's name and with fixed labels.\<close>

lemma rest_begin_requests:
  "requests (counters (snd (rest_begin lib k c w))) = requests (counters w) \<or>
   (\<exists>oc \<in> set outcome_labels. requests (counters (snd (rest_begin lib k c w))) =
      requests (record_request (caller_name c) (rest_action k) oc (counters w)))"
proof -
  obtain b w1 where gb: "guarded_begin lib (current w) c (rest_scope k) (rest_site k) (rest_action k)
      (rest_prep lib c k) w = (b, w1)"
    by (metis prod.exhaust)
  then have "counters w1 = counters w"
    using guarded_begin_frame(3) [of lib "current w" c "rest_scope k" "rest_site k" "rest_action k"
        "rest_prep lib c k" w]
    by simp
  with gb show ?thesis
    by (cases b) (auto simp: rest_begin_def finish_requests intro!: bexI [OF _ outcomes_known(1)])
qed

lemma poll_requests: "requests (counters (snd (poll lib c f w))) = requests (counters w)"
  by (cases f) (simp_all add: Let_def case_prod_unfold)

text \<open>A document counts itself once, when it is answered.\<close>

lemma document_requests:
  "requests (counters (snd (advance web lib wake (GqlRunning c q started n acc fl) w))) =
     requests (counters w) \<or>
   (\<exists>oc \<in> set outcome_labels.
      requests (counters (snd (advance web lib wake (GqlRunning c q started n acc fl) w))) =
        requests (record_request (caller_name c) (str ''graphql'') oc (counters w)))"
proof (cases "gql_turn web q n acc fl wake")
  case Answer
  obtain oc where oc: "oc \<in> set outcome_labels"
    and eq: "requests (counters (snd (graphql_finish web lib c q started acc w))) =
      requests (record_request (caller_name c) (str ''graphql'') oc (counters w))"
    by (rule graphql_finish_requests)
  from Answer have "snd (advance web lib wake (GqlRunning c q started n acc fl) w) =
      snd (graphql_finish web lib c q started acc w)"
    by simp
  with oc eq show ?thesis by auto
next
  case (Begin g)
  obtain x w1 where gb: "gql_begin lib g c w = (x, w1)" by (metis prod.exhaust)
  then have "requests (counters w1) = requests (counters w)"
    using gql_begin_requests [of lib g c w] by simp
  with Begin gb show ?thesis by (auto split: sum.splits)
next
  case (Poll i)
  then have "snd (advance web lib wake (GqlRunning c q started n acc fl) w) = snd (poll lib c (fl ! i) w)"
    by (simp split: prod.split sum.split)
  then show ?thesis by (simp add: poll_requests)
qed

lemma advance_requests:
  "requests (counters (snd (advance web lib wake t w))) = requests (counters w) \<or>
   (\<exists>a \<in> set action_labels. \<exists>oc \<in> set outcome_labels.
      requests (counters (snd (advance web lib wake t w))) =
        requests (record_request (caller_name (task_caller t)) a oc (counters w)))"
proof (cases t)
  case (Waiting r)
  show ?thesis
  proof (cases r)
    case (ReadyInfo c)
    with Waiting show ?thesis by (auto simp: info_def intro!: bexI [OF _ fixed_actions_known(2)]
          bexI [OF _ outcomes_known(2)])
  next
    case (ReadySdl c)
    with Waiting show ?thesis by (auto simp: graphql_sdl_def intro!: bexI [OF _ fixed_actions_known(4)]
          bexI [OF _ outcomes_known(2)])
  next
    case (ReadyGraphql c q)
    with Waiting show ?thesis by simp
  next
    case (ReadyRest c k)
    with Waiting rest_begin_requests [of lib k c w] fixed_actions_known(1) [of k]
    show ?thesis by fastforce
  qed
next
  case (RestCalling c k started cnt up li op)
  then show ?thesis by (simp add: Let_def case_prod_unfold)
next
  case (RestCalled c k started cnt up r)
  then show ?thesis
    by (auto simp: finish_requests intro!: bexI [OF _ fixed_actions_known(1)]
        bexI [OF _ outcomes_known(1)])
next
  case (GqlRunning c q started n acc fl)
  with document_requests [of web lib wake c q started n acc fl w] fixed_actions_known(3)
  show ?thesis by (auto simp del: advance.simps)
qed

lemma advance_labels:
  assumes wf: "wf_world lib w" and t: "task_ok lib w t" and ok: "labels_ok w"
  shows "labels_ok (snd (advance web lib wake t w))"
proof -
  from t obtain i where c: "caller_of w i (task_caller t)" and "task_calls lib w t"
    by (auto simp: task_ok_def)
  then have g: "grows w (snd (advance web lib wake t w))" by (intro advance_grows [OF wf])
  then have n: "caller_name (task_caller t) \<in> token_names (snd (advance web lib wake t w))"
    using caller_named [OF c] token_names_grow by blast
  from advance_requests [of web lib wake t w] show ?thesis
    by (elim disjE bexE) (auto intro: labels_idle [OF ok g] labels_record [OF ok g] n)
qed

lemma route_known: "route web pg p = Some (ep, tpl, caps) \<Longrightarrow> tpl \<in> set action_labels"
  by (auto simp: route_def bind_eq_Some_conv intro: route_pattern_known)

lemma extraction_labels:
  assumes wf: "wf_world lib w" and ok: "labels_ok w" and m: "matched_route p \<in> set action_labels"
  shows "labels_ok (snd (from_request_parts lib p w))"
proof -
  obtain r w' where x: "from_request_parts lib p w = (r, w')" by (cases "from_request_parts lib p w")
  have g: "grows w w'" using extraction_grows [of w lib p] x by simp
  have "labels_ok w'"
  proof (cases r)
    case (Inr c)
    with x have "counters w' = counters w" using extraction_Ok(4) [OF wf] by simp
    then show ?thesis using labels_idle [OF ok g] by simp
  next
    case (Inl e)
    with x extraction_Err [OF wf] obtain who reason where
      rf: "refused_as p who reason e w w'" and who: "who = str ''-'' \<or>
        (\<exists>t \<in> fst ` set (auth_tokens (lv_auth (current_live w))). who = tok_name t)"
      by blast
    have "who = str ''-'' \<or> who \<in> token_names w"
      using who wf_worldD(1) [OF wf] by (auto simp: current_live_def intro: token_names_live)
    then have "who = str ''-'' \<or> who \<in> token_names w'" using token_names_grow [OF g] by blast
    then show ?thesis
      using rf m by (intro labels_record [OF ok g, of who "matched_route p" reason])
        (auto simp: refused_as_def)
  qed
  then show ?thesis by (simp add: x)
qed

lemma accept_labels:
  assumes wf: "wf_world lib w" and ok: "labels_ok w"
  shows "labels_ok (snd (accept web lib pg mb rq w))"
proof -
  have not: "labels_ok (snd (respond (not_allowed p w)))" for p
    by (rule labels_idle [OF ok]) (simp_all add: respond_grows not_allowed_grows)
  have ext: "labels_ok w1" if "route web pg (rq_parts rq) = Some (ep, tpl, caps)"
    "from_request_parts lib (rq_parts rq\<lparr>pt_matched := Some tpl\<rparr>) w = (r, w1)" for ep tpl caps r w1
    using extraction_labels [OF wf ok, of "rq_parts rq\<lparr>pt_matched := Some tpl\<rparr>"]
      route_known [OF that(1)] that(2)
    by (simp add: matched_route_def)
  have rsp: "labels_ok (snd (respond (Err e, w1)))" if "labels_ok w1" for e :: proxy_error and w1
    by (rule labels_idle [OF that]) (simp_all add: respond_grows grows_refl)
  show ?thesis
    unfolding accept_def Let_def
    by (auto split: option.split prod.split sum.split endpoint.split
        intro: ok not ext rsp)
qed

definition labelled_inv :: "('c, 'l, 'k) lib \<Rightarrow> ('c, 'l, 'k) service \<Rightarrow> bool" where
  "labelled_inv lib s \<longleftrightarrow> service_inv lib s \<and> labels_ok (fst s)"

lemma labelled_inv_step:
  assumes inv: "labelled_inv lib s" and st: "svc_step web lib cfg s s'"
  shows "labelled_inv lib s'"
proof -
  have si: "service_inv lib s" and ok: "labels_ok (fst s)" using inv by (simp_all add: labelled_inv_def)
  from si have wf: "wf_world lib (fst s)" by (simp add: service_inv_def)
  have "labels_ok (fst s')"
    using st
  proof cases
    case (answered rq w resp w' pool)
    then show ?thesis using accept_labels [of lib w web "st_playground cfg" "st_max_body cfg" rq] wf ok by simp
  next
    case (accepted rq w r w' pool)
    then show ?thesis using accept_labels [of lib w web "st_playground cfg" "st_max_body cfg" rq] wf ok by simp
  next
    case (advanced wake t w t' w' bef aft)
    with si have "task_ok lib w t" by (simp add: service_inv_def)
    with advanced show ?thesis using advance_labels [of lib w t web wake] wf ok by simp
  next
    case (finished wake t w resp w' bef aft)
    with si have "task_ok lib w t" by (simp add: service_inv_def)
    with finished show ?thesis using advance_labels [of lib w t web wake] wf ok by simp
  next
    case (dropped w bef r aft)
    then show ?thesis using ok by simp
  next
    case (sighup w pool ex xt)
    have "requests (counters (on_sighup lib ex xt w)) = requests (counters w)"
      by (cases rule: reload_cases [where lib = lib and ex = ex and xt = xt and w = w])
         (simp_all add: on_sighup_def)
    with sighup show ?thesis using labels_idle [OF _ on_sighup_grows] ok by simp
  next
    case (elapsed w now pool today)
    then show ?thesis
      using labels_idle [of w "w\<lparr>mono := now, wall := today\<rparr>"] ok
      by (simp add: grows_same [OF grows_refl])
  qed
  with service_inv_step [OF si st] show ?thesis by (simp add: labelled_inv_def)
qed

lemma labelled_inv_reachable:
  "reachable web lib cfg s0 s \<Longrightarrow> labelled_inv lib s0 \<Longrightarrow> labelled_inv lib s"
  by (induction rule: reachable.induct) (auto intro: labelled_inv_step)

lemma labelled_inv_start:
  assumes "with_path lib config path c now today = Ok w"
  shows "labelled_inv lib (w, [])"
proof -
  have "counters w = metrics_default" using assms by (auto simp: with_path_def and_then_Ok_iff)
  then show ?thesis
    using service_inv_start [OF assms] by (simp add: labelled_inv_def labels_ok_def metrics_default_def)
qed

lemma finite_token_names [simp]: "finite (token_names w)"
  by (simp add: token_names_def)

lemma card_label_space: "card (label_space w) \<le> Suc (card (token_names w)) * 210"
proof -
  have "card (set action_labels) \<le> 15" "card (set outcome_labels) \<le> 14"
    using card_length [of action_labels] card_length [of outcome_labels]
    by (simp_all add: action_labels_def outcome_labels_def routes_def)
  then have "card (set action_labels) * card (set outcome_labels) \<le> 15 * 14" by (rule mult_le_mono)
  moreover have "card (insert (str ''-'') (token_names w)) \<le> Suc (card (token_names w))"
    by (simp add: card_insert_if)
  ultimately have "card (insert (str ''-'') (token_names w)) *
      (card (set action_labels) * card (set outcome_labels)) \<le> Suc (card (token_names w)) * (15 * 14)"
    by (rule mult_le_mono [rotated])
  then show ?thesis by (simp add: label_space_def card_cartesian_product)
qed

lemma labels_bounded:
  assumes "labels_ok w" and "wf_metrics (counters w)"
  shows "length (requests (counters w)) \<le> Suc (card (token_names w)) * 210"
proof -
  have "distinct (map fst (requests (counters w)))"
    using assms(2) by (simp add: wf_metrics_def bt_sorted_distinct)
  then have "length (requests (counters w)) = card (fst ` set (requests (counters w)))"
    by (metis distinct_card length_map set_map)
  also have "\<dots> \<le> card (label_space w)"
    using assms(1) by (intro card_mono) (simp_all add: labels_ok_def label_space_def)
  finally show ?thesis using card_label_space [of w] by simp
qed

section \<open>The property\<close>

text \<open>
  C6. The request counter cannot be made to grow without bound. After any run of the service from a
  fresh start, whatever paths, ids, keys and documents clients sent, every entry of the map is for
  nobody or a configured token's name, a route pattern or a fixed action, and one of fourteen
  outcomes, and there are at most 210 entries per name.
\<close>

theorem metric_labels_bounded:
  assumes "with_path lib config path c now today = Ok w0"
    and "reachable web lib cfg (w0, []) (w, pool)"
  shows "fst ` set (requests (counters w)) \<subseteq>
      insert (str ''-'') (token_names w) \<times> set action_labels \<times> set outcome_labels \<and>
    length (requests (counters w)) \<le> Suc (card (token_names w)) * 210"
proof -
  have inv: "labelled_inv lib (w, pool)"
    using assms(2) labelled_inv_start [OF assms(1)] by (rule labelled_inv_reachable)
  then have ok: "labels_ok w" by (simp add: labelled_inv_def)
  moreover have "wf_world lib w" using inv by (simp add: labelled_inv_def service_inv_def)
  then have "wf_metrics (counters w)" by (rule wf_worldD(2))
  ultimately show ?thesis using labels_bounded by (simp add: labels_ok_def label_space_def)
qed

end
