(* ===== verification/Request_Laws.thy ===== *)
theory Request_Laws
  imports Request_Phases
begin

text \<open>
  Laws of a whole request: what extraction decides, what happens to a request no route names, and
  what a reload between the two phases of a request means for it.
\<close>

section \<open>Extraction decides\<close>

definition ip_admits :: "('c, 'l, 'k) lib \<Rightarrow> parts \<Rightarrow> ('c, 'l, 'k) world \<Rightarrow> bool" where
  "ip_admits lib p w = (case pt_peer p of
     None \<Rightarrow> True
   | Some (ip, port) \<Rightarrow> fst (check_ip (lib_governor lib) (mono w) ip (lv_rate (current_live w))))"

lemma ip_step_admits: "fst (ip_step lib p w) = ip_admits lib p w"
  by (simp add: ip_step_def ip_admits_def current_live_def Let_def split: option.split prod.split)

lemma auth_step_reference:
  assumes wf: "wf_world lib w" and inj: "inj (lib_sha256 lib)"
  shows "fst (auth_step lib k (after_ip lib p w)) =
    reference_auth (lib_verify lib) (auth_tokens (lv_auth (current_live w))) k"
proof -
  let ?w1 = "after_ip lib p w"
  have wf1: "wf_world lib ?w1" using wf by (rule ip_step_wf)
  have "memo_inv (lib_sha256 lib) (lib_verify lib) UNIV (lv_auth (live_at ?w1 (current ?w1)))"
    by (rule wf_worldD(3) [OF wf1 wf_worldD(1) [OF wf1]])
  then have "fst (auth_step lib k ?w1) =
      reference_auth (lib_verify lib) (auth_tokens (lv_auth (live_at ?w1 (current ?w1)))) k"
    unfolding auth_step_result by (rule authenticate_reference) (use inj in simp)
  moreover have "auth_tokens (lv_auth (live_at ?w1 (current ?w1))) = auth_tokens (lv_auth (current_live w))"
    using after_ip_same [OF wf, of p] by (simp add: same_live_def)
  ultimately show ?thesis by simp
qed

lemma after_auth_limits:
  "wf_world lib w \<Longrightarrow> lv_limits (live_at (after_auth lib p k w) (current w)) = lv_limits (current_live w)"
  using after_auth_same [where lib = lib and w = w and p = p and k = k] by (simp add: same_live_def)

text \<open>
  C2. Extraction is its specification: with a collision-free digest, the outcome is decided by the
  address budget, then the presence of a key, then the first configured token the key verifies
  against, then that token's expiry, in this order; the memo makes no difference, and the caller
  has the ceilings of the same configuration.
\<close>

theorem extraction_decides:
  assumes "wf_world lib w" and "inj (lib_sha256 lib)"
  shows "if \<not> ip_admits lib p w then fst (from_request_parts lib p w) = Err RateLimited
    else (case token_from_headers (pt_headers p) of
        None \<Rightarrow> fst (from_request_parts lib p w) = Err Unauthorized
      | Some key \<Rightarrow>
          (case reference_auth (lib_verify lib) (auth_tokens (lv_auth (current_live w))) key of
             None \<Rightarrow> fst (from_request_parts lib p w) = Err Unauthorized
           | Some t \<Rightarrow>
               if is_expired_at t (wall w)
               then (\<exists>d. fst (from_request_parts lib p w) = Err (TokenExpired d))
               else fst (from_request_parts lib p w) = Ok \<lparr>caller_token = t,
                 caller_ceilings = caller_ceilings_for t (lv_limits (current_live w))\<rparr>))"
  by (cases rule: from_request_parts_cases [where lib = lib and p = p and w = w])
     (simp_all add: ip_step_admits auth_step_reference [OF assms] after_auth_limits [OF assms(1)]
       refuse_def)

section \<open>Requests no route names\<close>

text \<open>
  C20. Anything the route table does not name is refused, not forwarded: unless the body limit
  answered first, a request without a route gets a 403, and all it changes is one audit line with
  the raw path and the method. No key is looked at, so no Argon2 runs, and no counter moves.
\<close>

theorem unlisted_requests_are_refused:
  "case web_limit web mb (rq_parts rq) (rq_body rq) of
     Some resp \<Rightarrow> serve web lib pg mb rq w = (resp, w)
   | None \<Rightarrow>
       (case route web pg (rq_parts rq) of
          None \<Rightarrow> rs_status (fst (serve web lib pg mb rq w)) = 403 \<and>
            snd (serve web lib pg mb rq w) = w\<lparr>audit := audit w @
              [rejected (pt_path (rq_parts rq))
                (str ''blocked_'' @ method_as_str (pt_method (rq_parts rq))) 403]\<rparr>
        | Some r \<Rightarrow> True)"
  by (simp add: serve_def accept_def not_allowed_def respond_def into_response_eq Let_def
      split: option.split)

section \<open>A reload in the middle of a request\<close>

lemma unknown_name_unmetered:
  assumes "lv_rate (live_at w i) = rates_from_config gov now cfg"
    and "caller_name c \<notin> tok_name ` set (cfg_tokens cfg)"
  shows "quota_allows lib i c w"
  by (simp add: quota_allows_def check_def assms(1) no_limiter_if_unknown [OF assms(2)])

lemma reload_fresh_live:
  assumes "reload lib ex xt w = (Ok n, w')"
  obtains cfg where "map fst (auth_tokens (lv_auth (current_live w'))) = cfg_tokens cfg"
    "lv_rate (current_live w') = rates_from_config (lib_governor lib) (mono w) cfg"
    "current w' < length (lives w')" "current w' = length (lives w)" "sent w' = sent w"
    "\<And>i. i < length (lives w) \<Longrightarrow> live_at w' i = live_at w i" "mono w' = mono w"
proof (cases rule: reload_cases [where lib = lib and ex = ex and xt = xt and w = w])
  case (failed e)
  with assms show ?thesis by simp
next
  case (swapped path cfg lv)
  have w': "w' = w\<lparr>lives := lives w @ [lv], current := length (lives w)\<rparr>"
    using assms swapped(4) by simp
  show ?thesis
    by (rule that [of cfg])
       (use live_build_fields [OF swapped(3)] in
         \<open>simp_all add: w' current_live_def live_at_def nth_append\<close>)
qed

text \<open>
  C18. A request can see two configurations. The caller is extracted under one \<open>Live\<close> and the handler
  takes its own: when a reload that removes the caller's token falls between the two, the request
  is still served, under the removed token's scopes and sites, to the new configuration's
  controller with the new configuration's key, and no quota applies to it.
\<close>

theorem revoked_caller_served_unmetered:
  assumes "wf_world lib w" and "accept web lib pg mb rq w = (Ok (ReadyRest c k), w1)"
    and "reload lib ex xt w1 = (Ok n, w2)"
    and "caller_name c \<notin> tok_name ` fst ` set (auth_tokens (lv_auth (current_live w2)))"
  shows "caller_of w2 (current w) c \<and> current w2 \<noteq> current w \<and>
    sent (snd (handle web lib (ReadyRest c k) w2)) = sent w2 @
      (case rest_prep lib c k of
         Err e \<Rightarrow> []
       | Ok op \<Rightarrow> if permitted c (rest_scope k) (rest_site k) \<and> op_valid op
           then [op_request (lv_upstream (current_live w2)) op] else [])"
proof -
  from assms(3) obtain cfg where ts: "map fst (auth_tokens (lv_auth (current_live w2))) = cfg_tokens cfg"
    and rate: "lv_rate (current_live w2) = rates_from_config (lib_governor lib) (mono w1) cfg"
    and cur: "current w2 < length (lives w2)" "current w2 = length (lives w1)"
    by (rule reload_fresh_live)
  have c1: "caller_of w1 (current w) c" using accept_caller [OF assms(1,2)] by simp
  then have i: "current w < length (lives w1)" by (simp add: caller_of_def)
  have g: "grows w1 w2" using reload_grows [of w1 lib ex xt] assms(3) by simp
  have "tok_name ` set (cfg_tokens cfg) = tok_name ` fst ` set (auth_tokens (lv_auth (current_live w2)))"
    by (simp add: ts [symmetric])
  with assms(4) have "caller_name c \<notin> tok_name ` set (cfg_tokens cfg)" by blast
  then have "quota_allows lib (current w2) c w2"
    by (rule unknown_name_unmetered [OF rate [unfolded current_live_def]])
  then have "sent (snd (rest_guarded lib k c w2)) = sent w2 @
      (case rest_prep lib c k of
         Err e \<Rightarrow> []
       | Ok op \<Rightarrow> if permitted c (rest_scope k) (rest_site k) \<and> op_valid op
           then [op_request (lv_upstream (current_live w2)) op] else [])"
    unfolding rest_guarded_def guarded_op_sent [OF cur(1)]
    by (simp add: goes_out_def current_live_def split: sum.split)
  then show ?thesis
    using caller_of_grows [OF c1 g] i cur(2) by (simp add: handle_def rest_run_sent)
qed

end
