(* ===== verification/Key_Secrecy.thy ===== *)
theory Key_Secrecy
  imports Request_Laws
begin

text \<open>
  The value the project exists to hold: the controller's API key. \<open>rekey\<close> replaces the key of every
  \<open>Live\<close>, and the key header of every request already sent. Serving a request commutes with it, so
  long as the controller answers both keys alike: no response, audit line, operator log line,
  counter or budget depends on the key.
\<close>

section \<open>Changing the key\<close>

definition rekey_request :: "rstr \<Rightarrow> http_request \<Rightarrow> http_request" where
  "rekey_request key r = r\<lparr>req_headers :=
     map (\<lambda>(n, v). if n = str ''X-API-KEY'' then (n, key) else (n, v)) (req_headers r)\<rparr>"

definition rekey_upstream :: "rstr \<Rightarrow> upstream \<Rightarrow> upstream" where
  "rekey_upstream key up = up\<lparr>up_api_key := Secret key\<rparr>"

definition rekey_live :: "rstr \<Rightarrow> ('l, 'k) live \<Rightarrow> ('l, 'k) live" where
  "rekey_live key lv = lv\<lparr>lv_upstream := rekey_upstream key (lv_upstream lv)\<rparr>"

definition rekey :: "rstr \<Rightarrow> ('c, 'l, 'k) world \<Rightarrow> ('c, 'l, 'k) world" where
  "rekey key w = w\<lparr>sent := map (rekey_request key) (sent w), lives := map (rekey_live key) (lives w)\<rparr>"

text \<open>The controller treats the new key as the one it replaces.\<close>

definition key_blind :: "rstr \<Rightarrow> 'c transport \<Rightarrow> bool" where
  "key_blind key tr \<longleftrightarrow> (\<forall>client r c. tr client (rekey_request key r) c = tr client r c)"

lemma rekey_fields [simp]:
  "current (rekey key w) = current w" "counters (rekey key w) = counters w"
  "audit (rekey key w) = audit w" "mono (rekey key w) = mono w" "wall (rekey key w) = wall w"
  "oplog (rekey key w) = oplog w" "console (rekey key w) = console w"
  "charged (rekey key w) = charged w" "argon (rekey key w) = argon w"
  "config_path (rekey key w) = config_path w" "length (lives (rekey key w)) = length (lives w)"
  "sent (rekey key w) = map (rekey_request key) (sent w)"
  by (simp_all add: rekey_def)

lemma rekey_update [simp]:
  "(rekey key w)\<lparr>counters := m\<rparr> = rekey key (w\<lparr>counters := m\<rparr>)"
  "(rekey key w)\<lparr>audit := a\<rparr> = rekey key (w\<lparr>audit := a\<rparr>)"
  "(rekey key w)\<lparr>charged := h\<rparr> = rekey key (w\<lparr>charged := h\<rparr>)"
  "(rekey key w)\<lparr>argon := g\<rparr> = rekey key (w\<lparr>argon := g\<rparr>)"
  "(rekey key w)\<lparr>oplog := ol\<rparr> = rekey key (w\<lparr>oplog := ol\<rparr>)"
  by (simp_all add: rekey_def)

lemma rekey_live_fields [simp]:
  "lv_auth (rekey_live key lv) = lv_auth lv" "lv_rate (rekey_live key lv) = lv_rate lv"
  "lv_limits (rekey_live key lv) = lv_limits lv"
  "lv_token_count (rekey_live key lv) = lv_token_count lv"
  "lv_upstream (rekey_live key lv) = rekey_upstream key (lv_upstream lv)"
  by (simp_all add: rekey_live_def)

lemma live_at_rekey [simp]:
  "i < length (lives w) \<Longrightarrow> live_at (rekey key w) i = rekey_live key (live_at w i)"
  by (simp add: live_at_def rekey_def)

lemma update_live_rekey:
  assumes "\<And>lv. f (rekey_live key lv) = rekey_live key (f lv)"
  shows "update_live i f (rekey key w) = rekey key (update_live i f w)"
proof (cases "i < length (lives w)")
  case True
  then show ?thesis by (simp add: update_live_def rekey_def map_update assms)
next
  case False
  then show ?thesis by (simp add: update_live_def rekey_def list_update_beyond)
qed

lemma update_rate_rekey [simp]:
  "update_live i (\<lambda>lv. lv\<lparr>lv_rate := r\<rparr>) (rekey key w) = rekey key (update_live i (\<lambda>lv. lv\<lparr>lv_rate := r\<rparr>) w)"
  "update_live i (\<lambda>lv. lv\<lparr>lv_auth := a\<rparr>) (rekey key w) = rekey key (update_live i (\<lambda>lv. lv\<lparr>lv_auth := a\<rparr>) w)"
  by (rule update_live_rekey, simp add: rekey_live_def)+

section \<open>The controller client\<close>

lemma build_request_rekey:
  "build_request (rekey_upstream key up) m p b = rekey_request key (build_request up m p b)"
  by (simp add: build_request_def rekey_upstream_def rekey_request_def)

lemma rekey_client [simp]: "up_client (rekey_upstream key up) = up_client up"
  by (simp add: rekey_upstream_def)

lemma send_rekey:
  assumes "key_blind key tr"
  shows "send tr pj (rekey_upstream key up) m p b (rekey key w) = apsnd (rekey key) (send tr pj up m p b w)"
proof -
  let ?req = "build_request up m p b"
  obtain res ms c' where t: "tr (up_client up) ?req (console w) = ((res, ms), c')"
    by (metis prod.exhaust)
  then have t': "tr (up_client up) (rekey_request key ?req) (console w) = ((res, ms), c')"
    using assms by (simp add: key_blind_def)
  have "(rekey key w)\<lparr>console := c', sent := sent (rekey key w) @ [rekey_request key ?req], mono := n\<rparr> =
      rekey key (w\<lparr>console := c', sent := sent w @ [?req], mono := n\<rparr>)" for n
    by (simp add: rekey_def)
  then show ?thesis
    by (cases res) (simp_all add: send_def build_request_rekey t t' Let_def split: prod.split)
qed

lemma perform_rekey:
  assumes "key_blind key tr"
  shows "perform tr pj (rekey_upstream key up) op (rekey key w) = apsnd (rekey key) (perform tr pj up op w)"
proof (cases "op_valid op")
  case True
  then show ?thesis by (simp add: perform_valid send_rekey [OF assms])
next
  case False
  then show ?thesis
    by (cases op) (auto simp: list_vouchers_call_def create_vouchers_call_def delete_voucher_call_def
        validate_id_cases)
qed

section \<open>Guarded operations\<close>

lemma charge_rekey:
  assumes "li < length (lives w)"
  shows "charge lib li c a (rekey key w) = apsnd (rekey key) (charge lib li c a w)"
  using assms by (simp add: charge_def Let_def split: prod.split)

lemma guarded_op_rekey:
  assumes blind: "key_blind key (lib_transport lib)" and li: "li < length (lives w)"
  shows "guarded_op lib li c sc s a prep (rekey key w) = apsnd (rekey key) (guarded_op lib li c sc s a prep w)"
proof -
  have "upstream_call lib li op (rekey key v) = apsnd (rekey key) (upstream_call lib li op v)"
    if "li < length (lives v)" for op v
    using that by (simp add: upstream_call_def perform_rekey [OF blind])
  moreover have "length (lives (snd (charge lib li c a w))) = length (lives w)" by simp
  ultimately show ?thesis
    using charge_rekey [OF li, of lib c a key] li
    by (cases "charge lib li c a w") (auto simp: guarded_op_def Let_def split: sum.split prod.split)
qed

lemma finish_rekey:
  "finish c a s t n st up r (rekey key w) = apsnd (rekey key) (finish c a s t n st up r w)"
  by (simp add: finish_def Let_def split: prod.split)

lemma rest_run_rekey:
  assumes "key_blind key (lib_transport lib)" and "current w < length (lives w)"
  shows "rest_run lib k c (rekey key w) = apsnd (rekey key) (rest_run lib k c w)"
proof -
  have q: "rest_count lib c k (rekey key w) = rest_count lib c k w"
    using assms(2) by (cases k) (simp_all add: quota_allows_def)
  have "rest_guarded lib k c (rekey key w) = apsnd (rekey key) (rest_guarded lib k c w)"
    unfolding rest_guarded_def rekey_fields by (rule guarded_op_rekey [OF assms])
  with q show ?thesis
    by (simp add: rest_run_refines rest_finish_def finish_rekey split: prod.split)
qed

lemma resolve_rekey:
  assumes "key_blind key (lib_transport lib)" and "current w < length (lives w)"
  shows "resolve lib g c (rekey key w) = apsnd (rekey key) (resolve lib g c w)"
proof (cases "g = GqlInfo")
  case True
  then show ?thesis by (simp add: resolve_info_def)
next
  case False
  have "gql_guarded lib g c (rekey key w) = apsnd (rekey key) (gql_guarded lib g c w)"
    unfolding gql_guarded_def rekey_fields by (rule guarded_op_rekey [OF assms])
  moreover have "gql_shape c g (apsnd (rekey key) x) = apsnd (rekey key) (gql_shape c g x)" for x
    by (auto simp: gql_shape_def fail_gql_def Let_def split: prod.split sum.split)
  ultimately show ?thesis by (simp add: resolve_refines [OF False])
qed

section \<open>Whole requests\<close>

lemma gql_run_rekey:
  assumes blind: "key_blind key (lib_transport lib)"
  shows "wf_world lib w \<Longrightarrow> run_plan (resolve lib) n pick acc c (rekey key w) =
    apsnd (rekey key) (run_plan (resolve lib) n pick acc c w)"
proof (induction n arbitrary: acc w)
  case (Suc n)
  show ?case
  proof (cases "pick acc")
    case (Some g)
    obtain r w' where rw: "resolve lib g c w = (r, w')" by (cases "resolve lib g c w")
    have "wf_world lib w'" using gql.run_wf [OF Suc.prems, of g c] rw by simp
    from Suc.IH [OF this] show ?thesis
      by (simp add: Some resolve_rekey [OF blind wf_worldD(1) [OF Suc.prems]] rw)
  qed simp
qed simp

lemma respond_rekey: "respond (apsnd (rekey key) x) = apsnd (rekey key) (respond x)"
  by (cases x) (simp add: respond_def Let_def split: sum.split prod.split)

lemma handle_rekey:
  assumes blind: "key_blind key (lib_transport lib)" and wf: "wf_world lib w"
  shows "handle web lib r (rekey key w) = apsnd (rekey key) (handle web lib r w)"
proof (cases r)
  case (ReadyInfo c)
  then show ?thesis by (simp add: handle_def info_def)
next
  case (ReadySdl c)
  then show ?thesis by (simp add: handle_def graphql_sdl_def)
next
  case (ReadyGraphql c q)
  then show ?thesis
    by (simp add: handle_def graphql_handler_def Let_def gql_run_rekey [OF blind wf] split: prod.split)
next
  case (ReadyRest c k)
  then show ?thesis
    by (simp add: handle_def rest_run_rekey [OF blind wf_worldD(1) [OF wf]] respond_rekey)
qed

lemma ip_step_rekey:
  assumes "wf_world lib w"
  shows "ip_step lib p (rekey key w) = apsnd (rekey key) (ip_step lib p w)"
  using wf_worldD(1) [OF assms] by (simp add: ip_step_def Let_def split: option.split prod.split)

lemma auth_step_rekey:
  assumes "wf_world lib w"
  shows "auth_step lib k (rekey key w) = apsnd (rekey key) (auth_step lib k w)"
  using wf_worldD(1) [OF assms] by (simp add: auth_step_def Let_def split: prod.split)

lemma refuse_rekey: "refuse p who reason st e (rekey key w) = apsnd (rekey key) (refuse p who reason st e w)"
  by (simp add: refuse_def)

lemma extraction_rekey:
  assumes wf: "wf_world lib w"
  shows "from_request_parts lib p (rekey key w) = apsnd (rekey key) (from_request_parts lib p w)"
proof -
  have wf1: "wf_world lib (after_ip lib p w)" using wf by (rule ip_step_wf)
  have li: "current w < length (lives (after_auth lib p k w))" for k
    using order_less_le_trans [OF wf_worldD(1) [OF wf] grows_length [OF after_auth_grows]] by blast
  show ?thesis
    using li
    by (simp add: from_request_parts_steps ip_step_rekey [OF wf] auth_step_rekey [OF wf1] refuse_rekey
        Let_def case_prod_unfold split: option.split)
qed

lemma not_allowed_rekey: "not_allowed p (rekey key w) = apsnd (rekey key) (not_allowed p w)"
  by (simp add: not_allowed_def)

lemma accept_rekey:
  assumes wf: "wf_world lib w"
  shows "accept web lib pg mb rq (rekey key w) = apsnd (rekey key) (accept web lib pg mb rq w)"
proof -
  have r: "respond (Err e, rekey key v) = apsnd (rekey key) (respond (Err e, v))" for e :: proxy_error and v
    using respond_rekey [of key "(Err e, v)"] by simp
  have a: "apfst f (apsnd (rekey key) x) = apsnd (rekey key) (apfst f x)" for f x
    by (cases x) simp
  show ?thesis
    by (simp add: accept_def Let_def extraction_rekey [OF wf] not_allowed_rekey respond_rekey r a
        split: option.split prod.split sum.split endpoint.split)
qed

lemma serve_rekey:
  assumes blind: "key_blind key (lib_transport lib)" and wf: "wf_world lib w"
  shows "serve web lib pg mb rq (rekey key w) = apsnd (rekey key) (serve web lib pg mb rq w)"
proof -
  obtain a w1 where x: "accept web lib pg mb rq w = (a, w1)" by (cases "accept web lib pg mb rq w")
  have "wf_world lib w1" using quiet_accept [OF wf, of web pg mb rq] x by (simp add: quiet_def)
  then show ?thesis
    by (cases a) (simp_all add: serve_def accept_rekey [OF wf] x handle_rekey [OF blind])
qed

section \<open>The property\<close>

text \<open>
  C5. The API key never shows. Replace the controller key in every configuration by another one, in
  front of a controller that does not look at the key: serving any request to either surface gives the same response, and
  leaves the same audit log, operator log, counters, budgets and tokens. The one place the key
  appears is the \<open>X-API-KEY\<close> header of the requests to the controller.
\<close>

theorem api_key_never_shows:
  assumes "key_blind key (lib_transport lib)" and "wf_world lib w"
  shows "fst (serve web lib pg mb rq (rekey key w)) = fst (serve web lib pg mb rq w) \<and>
    snd (serve web lib pg mb rq (rekey key w)) = rekey key (snd (serve web lib pg mb rq w)) \<and>
    audit (rekey key w) = audit w \<and> oplog (rekey key w) = oplog w \<and> counters (rekey key w) = counters w"
  using serve_rekey [OF assms] by simp

end
