(* ===== verification/Command_Line.thy ===== *)
theory Command_Line
  imports Rest_Laws
begin

text \<open>
  \<open>src/main.rs\<close>: the subcommands. What a command prints is one text with \<open>println!\<close>'s newlines;
  a warning or an info line of \<open>tracing\<close> is a constructor with the fields it carries. Standard
  input, the random source, Argon2, the TLS handshake and the file system are parameters.
  SIGHUP, the one part of \<open>main.rs\<close> that runs beside requests, is in the service theory.
\<close>

section \<open>Printing\<close>

definition println :: "rstr \<Rightarrow> rstr" where
  "println s = s @ [10]"

definition quote :: "rstr \<Rightarrow> rstr" where
  "quote s = [34] @ s @ [34]"

text \<open>\<open>{:<width}\<close>: trailing spaces up to the width.\<close>

definition pad_right :: "nat \<Rightarrow> rstr \<Rightarrow> rstr" where
  "pad_right w s = s @ replicate (w - length s) 32"

text \<open>\<open>Display\<close> of \<open>SocketAddr\<close>; an IPv6 address compresses its first longest run of zeros.\<close>

fun show_hex :: "nat \<Rightarrow> rstr" where
  "show_hex n = (let d = (if n mod 16 < 10 then 48 + n mod 16 else 87 + n mod 16)
     in if n < 16 then [d] else show_hex (n div 16) @ [d])"

declare show_hex.simps [simp del]

definition v4_octets :: "32 word \<Rightarrow> nat list" where
  "v4_octets a = map (\<lambda>i. unat (a div 2 ^ (8 * (3 - i))) mod 256) [0..<4]"

definition v6_segments :: "128 word \<Rightarrow> nat list" where
  "v6_segments a = map (\<lambda>i. unat (a div 2 ^ (16 * (7 - i))) mod 65536) [0..<8]"

definition zeros_at :: "nat list \<Rightarrow> nat \<Rightarrow> nat" where
  "zeros_at segs i = length (takeWhile (\<lambda>s. s = 0) (drop i segs))"

text \<open>The start of the first longest run of zeros, and its length.\<close>

definition longest_zeros :: "nat list \<Rightarrow> nat \<times> nat" where
  "longest_zeros segs =
     foldl (\<lambda>(s, n) i. if n < zeros_at segs i then (i, zeros_at segs i) else (s, n))
       (0, 0) [0..<length segs]"

definition show_segments :: "nat list \<Rightarrow> rstr" where
  "show_segments segs = join [58] (map show_hex segs)"

definition show_v6 :: "128 word \<Rightarrow> rstr" where
  "show_v6 a =
     (let segs = v6_segments a; (start, len) = longest_zeros segs in
      if take 6 segs = [0, 0, 0, 0, 0, 65535]
      then str ''::ffff:'' @ join [46] (map show_nat (v4_octets (ucast a)))
      else if 1 < len
      then show_segments (take start segs) @ str ''::'' @ show_segments (drop (start + len) segs)
      else show_segments segs)"

definition show_socket :: "socket_addr \<Rightarrow> rstr" where
  "show_socket s = (case s of
     (V4 a, port) \<Rightarrow> join [46] (map show_nat (v4_octets a)) @ [58] @ show_nat (unat port)
   | (V6 a, port) \<Rightarrow> [91] @ show_v6 a @ [93] @ [58] @ show_nat (unat port))"

section \<open>Commands\<close>

datatype command =
    Serve rstr
  | HashToken rstr "rstr option" bool bool
  | FetchFingerprint rstr
  | Healthcheck rstr
  | CheckConfig rstr

text \<open>What \<open>main\<close> runs for the parsed subcommand.\<close>

definition chosen_command :: "command option \<Rightarrow> command" where
  "chosen_command c = (case c of Some k \<Rightarrow> k | None \<Rightarrow> Serve (str ''config.toml''))"

text \<open>
  \<open>init_tracing\<close>: the log filter and whether lines are JSON. \<open>env\<close> is the process environment,
  \<open>parses\<close> whether \<open>EnvFilter\<close> takes a directive list.
\<close>

definition init_tracing :: "(rstr \<Rightarrow> rstr option) \<Rightarrow> (rstr \<Rightarrow> bool) \<Rightarrow> rstr \<times> bool" where
  "init_tracing env parses =
     (case env (str ''UVP_LOG'') of
        Some f \<Rightarrow> if parses f then f else str ''unifi_voucher_proxy=info,audit=info,warn''
      | None \<Rightarrow> str ''unifi_voucher_proxy=info,audit=info,warn'',
      env (str ''UVP_LOG_FORMAT'') = Some (str ''json''))"

section \<open>serve\<close>

datatype warning =
    UnverifiedController
  | PlaintextController
  | UnlimitedPreAuth
  | EverySite rstr

definition warn_about_weak_settings :: "config \<Rightarrow> warning list" where
  "warn_about_weak_settings cfg =
     (let tl = tls (cfg_controller cfg) in
      (if insecure_skip_verify tl \<and> \<not> silence_insecure_warning tl then [UnverifiedController] else [])
      @ (if allow_plaintext tl \<and> is_plaintext (cfg_controller cfg) then [PlaintextController] else [])
      @ (if rate_limit_per_ip_per_minute (cfg_limits cfg) = 0 then [UnlimitedPreAuth] else [])
      @ filter_map (\<lambda>t. if list_ex (\<lambda>s. s = str ''*'') (tok_sites t)
          then Some (EverySite (tok_name t)) else None) (cfg_tokens cfg))"

text \<open>
  \<open>serve\<close> up to the point where the listeners are bound: the warnings, the shared state, what the
  router is built with, and the metrics listener's address.
\<close>

record ('c, 'l, 'k) started =
  sd_world :: "('c, 'l, 'k) world"
  sd_playground :: bool
  sd_max_body :: nat
  sd_metrics :: "socket_addr option"
  sd_warnings :: "warning list"
  sd_config :: config

definition serve_start :: "('c, 'l, 'k) lib \<Rightarrow> (rstr \<Rightarrow> bool) \<Rightarrow> (rstr option \<Rightarrow> (config, anyhow) result)
    \<Rightarrow> rstr \<Rightarrow> 'c \<Rightarrow> nat \<Rightarrow> int \<Rightarrow> (('c, 'l, 'k) started, anyhow) result" where
  "serve_start lib ex xt path c now today =
     and_then (load ex xt (Some path)) (\<lambda>cfg.
     and_then (with_path lib cfg (Some path) c now today) (\<lambda>w.
       Ok \<lparr>sd_world = w, sd_playground = graphql_playground (cfg_server cfg),
           sd_max_body = max_body_bytes (cfg_server cfg), sd_metrics = metrics_bind (cfg_server cfg),
           sd_warnings = warn_about_weak_settings cfg, sd_config = cfg\<rparr>))"

text \<open>
  The rest of \<open>serve\<close>: the client socket is bound first, then the metrics socket if there is one, and
  only then is anything served. \<open>bind\<close> is the operating system, told which sockets this process
  already holds. The routers are \<open>accept\<close> and \<open>metrics_serve\<close>, the SIGHUP task is \<open>on_sighup\<close>.
\<close>

datatype startup_line =
    MetricsListening socket_addr
  | Listening socket_addr rstr nat bool

definition startup_lines :: "config \<Rightarrow> startup_line list" where
  "startup_lines cfg =
     (case metrics_bind (cfg_server cfg) of None \<Rightarrow> [] | Some m \<Rightarrow> [MetricsListening m])
     @ [Listening (bind_addr (cfg_server cfg)) (host (cfg_controller cfg)) (length (cfg_tokens cfg))
         (fingerprint_sha256 (tls (cfg_controller cfg)) \<noteq> None)]"

definition serve_command :: "('c, 'l, 'k) lib \<Rightarrow> (socket_addr list \<Rightarrow> socket_addr \<Rightarrow> (unit, anyhow) result)
    \<Rightarrow> (rstr \<Rightarrow> bool) \<Rightarrow> (rstr option \<Rightarrow> (config, anyhow) result) \<Rightarrow> rstr \<Rightarrow> 'c \<Rightarrow> nat \<Rightarrow> int
    \<Rightarrow> (('c, 'l, 'k) started \<times> startup_line list, anyhow) result" where
  "serve_command lib bind ex xt path c now today =
     and_then (serve_start lib ex xt path c now today) (\<lambda>st.
       let main = bind_addr (cfg_server (sd_config st)) in
       and_then (with_context (str ''cannot bind '' @ show_socket main) (bind [] main)) (\<lambda>_.
       and_then (case sd_metrics st of
           None \<Rightarrow> Ok ()
         | Some addr \<Rightarrow> with_context (str ''cannot bind '' @ show_socket addr @ str '' for metrics'')
             (bind [main] addr)) (\<lambda>_.
       Ok (st, startup_lines (sd_config st)))))"

section \<open>hash-token\<close>

datatype key_log = KeyAccepted nat nat | KeyWeakAllowed rstr

definition supplied_key :: "rstr option \<Rightarrow> bool \<Rightarrow> (rstr, anyhow) result \<Rightarrow> (rstr option, anyhow) result" where
  "supplied_key custom from_stdin stdin = (case custom of
     Some t \<Rightarrow> Ok (Some t)
   | None \<Rightarrow>
       if from_stdin then
         map_ok (\<lambda>buf. Some (trim_end_matches (\<lambda>c. c = 10 \<or> c = 13) buf))
           (with_context (str ''failed to read the key from stdin'') stdin)
       else Ok None)"

definition judge_key :: "(nat \<Rightarrow> nat \<Rightarrow> rstr) \<Rightarrow> bool \<Rightarrow> rstr \<Rightarrow> (key_log, anyhow) result" where
  "judge_key show_bits allow_weak t = (case assess_strength show_bits t of
     Ok (len, pool) \<Rightarrow> Ok (KeyAccepted len pool)
   | Err why \<Rightarrow>
       if allow_weak then Ok (KeyWeakAllowed why)
       else Err [str ''refusing to hash this key: '' @ why @ str ''.'' @ [10]
         @ str ''This key is the only thing between a client and your controller. ''
         @ str ''Pass --allow-weak to override, or omit --token to have one generated.''])"

text \<open>The lines printed for a hash; a generated token follows, a supplied key never does.\<close>

definition token_snippet :: "rstr \<Rightarrow> rstr \<Rightarrow> rstr option \<Rightarrow> rstr" where
  "token_snippet name hash generated =
     println (str ''Add this to your config.toml:'' @ [10])
     @ println (str ''['' @ str ''[tokens]'' @ str '']'')
     @ println (str ''name = '' @ quote name)
     @ println (str ''hash = '' @ quote hash)
     @ println (str ''sites = ['' @ quote (str ''*'')
         @ str '']              # replace with explicit site ids where you can'')
     @ println (str ''scopes = ['' @ join (str '', '') (map quote
         [str ''sites:read'', str ''vouchers:read'', str ''vouchers:create'', str ''vouchers:revoke''])
         @ str '']'')
     @ (case generated of
          Some token \<Rightarrow>
            println ([10] @ str ''Give this token to the client '' @ em_dash
              @ str '' it is shown once and is not recoverable:'' @ [10])
            @ println (str ''  '' @ token @ [10])
        | None \<Rightarrow>
            println ([10] @ str ''Only the hash is stored. Keep your key wherever you keep your other secrets;'')
            @ println (str ''it cannot be recovered from the config.'' @ [10]))"

text \<open>
  \<open>hash_password salt token\<close> is Argon2id. \<open>generate_token\<close> hashes the token it mints and the
  command hashes it again, each time under a fresh salt.
\<close>

definition mint_key :: "(rstr \<Rightarrow> rstr \<Rightarrow> (rstr, rstr) result) \<Rightarrow> (nat list \<Rightarrow> rstr)
    \<Rightarrow> (nat \<Rightarrow> nat \<Rightarrow> rstr) \<Rightarrow> rstr \<Rightarrow> nat list \<Rightarrow> bool \<Rightarrow> rstr option
    \<Rightarrow> (rstr \<times> bool \<times> key_log list, anyhow) result" where
  "mint_key hash_password base64 show_bits salt random allow_weak supplied = (case supplied of
     Some t \<Rightarrow> map_ok (\<lambda>lg. (t, False, [lg])) (judge_key show_bits allow_weak t)
   | None \<Rightarrow> map_ok (\<lambda>(t, h). (t, True, [])) (generate_token hash_password base64 salt random))"

definition hash_token_command :: "(rstr \<Rightarrow> rstr \<Rightarrow> (rstr, rstr) result) \<Rightarrow> (nat list \<Rightarrow> rstr)
    \<Rightarrow> (nat \<Rightarrow> nat \<Rightarrow> rstr) \<Rightarrow> rstr \<Rightarrow> rstr \<Rightarrow> nat list \<Rightarrow> (rstr, anyhow) result \<Rightarrow> rstr \<Rightarrow> rstr option
    \<Rightarrow> bool \<Rightarrow> bool \<Rightarrow> (rstr \<times> key_log list, anyhow) result" where
  "hash_token_command hash_password base64 show_bits salt salt' random stdin name custom from_stdin
       allow_weak =
     and_then (supplied_key custom from_stdin stdin) (\<lambda>supplied.
     and_then (mint_key hash_password base64 show_bits salt random allow_weak supplied)
       (\<lambda>(token, generated, lg).
     and_then (hash_token hash_password salt' token) (\<lambda>hash.
       Ok (token_snippet name hash (if generated then Some token else None), lg))))"

section \<open>fetch-fingerprint and healthcheck\<close>

definition probe_base :: "rstr \<Rightarrow> rstr" where
  "probe_base h =
     (if starts_with h (str ''http://'') \<or> starts_with h (str ''https://'')
      then trim_end_matches (\<lambda>c. c = 47) h
      else str ''https://'' @ trim_end_matches (\<lambda>c. c = 47) h)"

definition fingerprint_text :: "rstr \<Rightarrow> rstr \<Rightarrow> rstr" where
  "fingerprint_text base fp =
     println (str ''Certificate fingerprint for '' @ base @ str '':'' @ [10])
     @ println (str ''  '' @ fp @ [10])
     @ println (str ''Put it in your config.toml:'' @ [10])
     @ println (str ''[controller.tls]'')
     @ println (str ''fingerprint_sha256 = '' @ quote fp)"

text \<open>\<open>handshake url\<close>: the leaf shown, if there was a handshake, and whether a response arrived.\<close>

definition fetch_fingerprint :: "(certificate \<Rightarrow> rstr)
    \<Rightarrow> (rstr \<Rightarrow> certificate option \<times> (unit, anyhow) result) \<Rightarrow> rstr \<Rightarrow> (rstr, anyhow) result" where
  "fetch_fingerprint digest_hex handshake h =
     (let base = probe_base h;
          url = base @ str ''/proxy/network/integration/v1/sites'';
          (presented, sent_ok) = handshake url
      in map_ok (fingerprint_text base) (probe_fingerprint digest_hex url presented sent_ok))"

text \<open>\<open>fetch mode url\<close> is one request with the given verification: its status, or no answer.\<close>

definition healthcheck :: "(tls_mode \<Rightarrow> anyhow option) \<Rightarrow> (tls_mode \<Rightarrow> rstr \<Rightarrow> (nat, anyhow) result)
    \<Rightarrow> rstr \<Rightarrow> (unit, anyhow) result" where
  "healthcheck builds fetch url =
     and_then (client_config default_tls) (\<lambda>mode.
     and_then (with_context (str ''failed to build the healthcheck client'')
         (case builds mode of None \<Rightarrow> Ok () | Some e \<Rightarrow> Err e)) (\<lambda>_.
     and_then (with_context (url @ str '' is not answering'') (fetch mode url)) (\<lambda>status.
       if is_success status then Ok ()
       else Err [url @ str '' answered HTTP '' @ show_nat status])))"

section \<open>check-config\<close>

definition tls_summary :: "controller_config \<Rightarrow> rstr" where
  "tls_summary c =
     (if is_plaintext c
      then str ''NONE '' @ em_dash @ str '' plaintext http://, the API key travels unencrypted''
      else (case fingerprint_sha256 (tls c) of
          Some fps \<Rightarrow>
            if length fps = 1 then str ''pinned to '' @ hd fps
            else str ''pinned to any of '' @ show_nat (length fps) @ str '': '' @ join (str '', '') fps
        | None \<Rightarrow>
            if insecure_skip_verify (tls c) then
              (if silence_insecure_warning (tls c)
               then str ''INSECURE '' @ em_dash
                 @ str '' certificate not verified (startup warning silenced)''
               else str ''INSECURE '' @ em_dash @ str '' certificate not verified'')
            else str ''standard WebPKI verification''))"

definition pre_auth_summary :: "u32 \<Rightarrow> rstr" where
  "pre_auth_summary n =
     (if n = 0 then str ''UNLIMITED '' @ em_dash
        @ str '' an unauthenticated caller can spend Argon2 time freely''
      else show_nat (unat n) @ str '' req/min per client IP'')"

definition token_line :: "limits \<Rightarrow> token_config \<Rightarrow> rstr" where
  "token_line g t =
     println (str ''    '' @ pad_right 16 (tok_name t)
       @ str '' sites='' @ pad_right 24 (join [44] (tok_sites t))
       @ str '' scopes='' @ join [44] (map scope_as_str (tok_scopes t))
       @ str '' (max '' @ show_nat (unat (effective_max_vouchers t g)) @ str '' vouchers, ''
       @ show_nat (unat (effective_max_validity t g)) @ str '' min, ''
       @ show_nat (unat (effective_rate_limit t g)) @ str '' req/min)'')"

definition config_summary :: "rstr \<Rightarrow> config \<Rightarrow> rstr" where
  "config_summary path cfg =
     println (str ''Config OK: '' @ path @ [10])
     @ println (str ''  controller     '' @ host (cfg_controller cfg))
     @ println (str ''  tls            '' @ tls_summary (cfg_controller cfg))
     @ println (str ''  bind           '' @ show_socket (bind_addr (cfg_server cfg)))
     @ println (str ''  global limits  ''
         @ show_nat (unat (max_vouchers_per_request (cfg_limits cfg))) @ str '' vouchers/request, ''
         @ show_nat (unat (max_validity_minutes (cfg_limits cfg))) @ str '' min validity, ''
         @ show_nat (unat (rate_limit_per_minute (cfg_limits cfg))) @ str '' req/min'')
     @ println (str ''  pre-auth       '' @ pre_auth_summary (rate_limit_per_ip_per_minute (cfg_limits cfg)))
     @ println ([10] @ str ''  tokens ('' @ show_nat (length (cfg_tokens cfg)) @ str ''):'')"

text \<open>The token lines are printed one by one, so an unparsable hash stops in the middle.\<close>

fun check_tokens :: "(rstr \<Rightarrow> (rstr, rstr) result) \<Rightarrow> limits \<Rightarrow> token_config list \<Rightarrow> rstr
    \<Rightarrow> (unit, anyhow) result \<times> rstr" where
  "check_tokens phc g [] out = (Ok (), out)"
| "check_tokens phc g (t # ts) out = (case load_hash_check phc (tok_hash t) of
     Err e \<Rightarrow> (Err e, out)
   | Ok _ \<Rightarrow> check_tokens phc g ts (out @ token_line g t))"

definition check_config :: "(rstr \<Rightarrow> (rstr, rstr) result) \<Rightarrow> (rstr \<Rightarrow> bool)
    \<Rightarrow> (rstr option \<Rightarrow> (config, anyhow) result) \<Rightarrow> rstr \<Rightarrow> (unit, anyhow) result \<times> rstr" where
  "check_config phc ex xt path = (case load ex xt (Some path) of
     Err e \<Rightarrow> (Err e, [])
   | Ok cfg \<Rightarrow> check_tokens phc (cfg_limits cfg) (cfg_tokens cfg) (config_summary path cfg))"

section \<open>Facts about the commands\<close>

lemma load_hash_check_ok_iff: "is_ok (load_hash_check phc h) \<longleftrightarrow> is_ok (phc h)"
  by (simp add: load_hash_check_def with_context_def is_ok_map_err is_ok_map_ok)

lemma check_tokens_ok_iff:
  "is_ok (fst (check_tokens phc g ts out)) \<longleftrightarrow> list_all (\<lambda>t. is_ok (phc (tok_hash t))) ts"
proof (induction ts arbitrary: out)
  case (Cons t ts)
  then show ?case
    using load_hash_check_ok_iff [of phc "tok_hash t"]
    by (cases "load_hash_check phc (tok_hash t)") auto
qed simp

lemma is_ok_and_then_Ok: "is_ok (and_then x (\<lambda>v. Ok (f v))) = is_ok x"
  by (cases x) simp_all

lemma check_config_ok_iff:
  "is_ok (fst (check_config phc ex xt path)) \<longleftrightarrow>
     (\<exists>cfg. load ex xt (Some path) = Ok cfg \<and> list_all (\<lambda>t. is_ok (phc (tok_hash t))) (cfg_tokens cfg))"
  by (cases "load ex xt (Some path)") (simp_all add: check_config_def check_tokens_ok_iff)

lemma authenticator_new_ok_iff:
  "is_ok (authenticator_new phc ts) \<longleftrightarrow> list_all (\<lambda>t. is_ok (phc (tok_hash t))) ts"
  by (simp add: authenticator_new_def is_ok_and_then_Ok is_ok_try_collect is_ok_map_err)

lemma upstream_new_ok:
  assumes "builds = (\<lambda>_. None)" and "valid_pins (tls c)"
  shows "is_ok (upstream_new builds c timeout)"
  using valid_pins_client_config [OF assms(2)]
  by (auto simp: upstream_new_def Let_def assms(1) is_ok_iff with_context_def)

lemma live_build_ok_iff:
  assumes "lib_builds lib = (\<lambda>_. None)" and "valid_config cfg"
  shows "is_ok (live_build lib now cfg) \<longleftrightarrow>
    list_all (\<lambda>t. is_ok (lib_phc lib (tok_hash t))) (cfg_tokens cfg)"
proof -
  have "valid_pins (tls (cfg_controller cfg))" using assms(2) by (simp add: valid_config_def)
  then have "is_ok (upstream_new (lib_builds lib) (cfg_controller cfg) t)" for t
    by (rule upstream_new_ok [OF assms(1)])
  then obtain up where "upstream_new (lib_builds lib) (cfg_controller cfg)
      (upstream_timeout (cfg_server cfg)) = Ok up"
    by (metis is_ok_iff)
  then show ?thesis
    by (simp add: live_build_def is_ok_and_then_Ok authenticator_new_ok_iff)
qed

section \<open>Properties\<close>

text \<open>The sockets a configuration asks for can be had.\<close>

definition sockets_free :: "(socket_addr list \<Rightarrow> socket_addr \<Rightarrow> (unit, anyhow) result) \<Rightarrow> config \<Rightarrow> bool" where
  "sockets_free bind cfg \<longleftrightarrow> is_ok (bind [] (bind_addr (cfg_server cfg))) \<and>
     (case metrics_bind (cfg_server cfg) of None \<Rightarrow> True
      | Some m \<Rightarrow> is_ok (bind [bind_addr (cfg_server cfg)] m))"

lemma is_ok_with_context [simp]: "is_ok (with_context m x) = is_ok x"
  by (cases x) (simp_all add: with_context_def)

lemma is_ok_and_then_const: "is_ok (and_then x (\<lambda>_. y)) \<longleftrightarrow> is_ok x \<and> is_ok y"
  by (cases x) simp_all

lemma serve_command_ok_iff:
  "is_ok (serve_command lib bind ex xt path c now today) \<longleftrightarrow>
     (case load ex xt (Some path) of Err e \<Rightarrow> False
      | Ok cfg \<Rightarrow> is_ok (live_build lib now cfg) \<and> sockets_free bind cfg)"
proof (cases "load ex xt (Some path)")
  case (Inr cfg)
  then show ?thesis
    by (cases "live_build lib now cfg"; cases "metrics_bind (cfg_server cfg)")
       (simp_all add: serve_command_def serve_start_def with_path_def sockets_free_def Let_def
          is_ok_and_then_const)
qed (simp add: serve_command_def serve_start_def)

text \<open>
  C33. \<open>check-config\<close> tells the truth about \<open>serve\<close>: when the HTTP client can be built, a server started
  on a file comes up exactly when \<open>check-config\<close> succeeds on it, bad pins and unparsable hashes
  included, and the sockets it names can be bound, the client socket first.
\<close>

theorem check_config_predicts_serve:
  assumes "lib_builds lib = (\<lambda>_. None)"
  shows "is_ok (serve_command lib bind ex xt path c now today) \<longleftrightarrow>
    is_ok (fst (check_config (lib_phc lib) ex xt path)) \<and>
    (case load ex xt (Some path) of Err e \<Rightarrow> False | Ok cfg \<Rightarrow> sockets_free bind cfg)"
proof (cases "load ex xt (Some path)")
  case (Inr cfg)
  then have "valid_config cfg" by (simp add: load_Ok_iff)
  from live_build_ok_iff [OF assms this] Inr show ?thesis
    by (simp add: check_config_ok_iff serve_command_ok_iff)
qed (simp add: check_config_ok_iff serve_command_ok_iff)

definition with_silence :: "bool \<Rightarrow> config \<Rightarrow> config" where
  "with_silence b cfg = cfg\<lparr>cfg_controller := cfg_controller cfg
     \<lparr>tls := tls (cfg_controller cfg)\<lparr>silence_insecure_warning := b\<rparr>\<rparr>\<rparr>"

text \<open>
  Silencing the insecure warning silences it and nothing else: the configuration is valid or
  not as before, the server built from it is the same, every other warning stays, and
  \<open>check-config\<close> still reports \<open>INSECURE\<close>.
\<close>

theorem silencing_only_silences:
  "valid_config (with_silence b cfg) = valid_config cfg \<and>
   live_build lib now (with_silence b cfg) = live_build lib now cfg \<and>
   filter (\<lambda>x. x \<noteq> UnverifiedController) (warn_about_weak_settings (with_silence b cfg)) =
     filter (\<lambda>x. x \<noteq> UnverifiedController) (warn_about_weak_settings cfg) \<and>
   UnverifiedController \<notin> set (warn_about_weak_settings (with_silence True cfg)) \<and>
   prefix (str ''INSECURE'') (tls_summary (cfg_controller (with_silence b cfg))) =
     prefix (str ''INSECURE'') (tls_summary (cfg_controller cfg))"
proof -
  have pl: "is_plaintext (cfg_controller (with_silence b cfg)) = is_plaintext (cfg_controller cfg)" for b
    by (simp add: with_silence_def is_plaintext_def)
  have cc: "client_config (tls (cfg_controller (with_silence b cfg))) = client_config (tls (cfg_controller cfg))"
    by (simp add: with_silence_def client_config_def)
  have v: "valid_config (with_silence b cfg) = valid_config cfg"
    using pl [of b] by (simp add: with_silence_def valid_config_def valid_pins_def)
  have l: "live_build lib now (with_silence b cfg) = live_build lib now cfg"
    using cc by (simp add: live_build_def upstream_new_def rates_from_config_def with_silence_def)
  have ws: "warn_about_weak_settings (with_silence b cfg) =
      (if insecure_skip_verify (tls (cfg_controller cfg)) \<and> \<not> b then [UnverifiedController] else [])
      @ filter (\<lambda>x. x \<noteq> UnverifiedController) (warn_about_weak_settings cfg)" for b
  proof -
    have all: "filter (\<lambda>x. x \<noteq> UnverifiedController) (filter_map (\<lambda>t. if P t then Some (EverySite (f t)) else None) ts)
        = filter_map (\<lambda>t. if P t then Some (EverySite (f t)) else None) ts"
      for P :: "token_config \<Rightarrow> bool" and f ts
      by (induction ts) auto
    show ?thesis
      using pl [of b] by (simp add: warn_about_weak_settings_def with_silence_def Let_def all)
  qed
  have no: "UnverifiedController \<notin> set (filter (\<lambda>x. x \<noteq> UnverifiedController) xs)" for xs by simp
  have s: "prefix (str ''INSECURE'') (tls_summary (cfg_controller (with_silence b cfg))) =
     prefix (str ''INSECURE'') (tls_summary (cfg_controller cfg))"
    using pl [of b] by (simp add: tls_summary_def with_silence_def prefix_str_iff split: option.split)
  show ?thesis using v l s by (simp add: ws)
qed

text \<open>
  C35. The fingerprint a fetch prints is a pin that works: with SHA-256 rendered as 64 lower-case hex
  digits, a successful \<open>fetch-fingerprint\<close> prints the digest of the certificate the controller
  showed, and a configuration pinned to what was printed accepts that certificate and no
  certificate with another digest.
\<close>

theorem fetched_pin_connects:
  assumes "\<And>c. is_fingerprint (digest_hex c)"
    and "fetch_fingerprint digest_hex handshake h = Ok out"
  shows "\<exists>cert mode.
    fst (handshake (probe_base h @ str ''/proxy/network/integration/v1/sites'')) = Some cert \<and>
    out = fingerprint_text (probe_base h) (digest_hex cert) \<and>
    client_config (default_tls\<lparr>fingerprint_sha256 := Some [digest_hex cert]\<rparr>) = Ok mode \<and>
    (\<forall>c. accepts_cert digest_hex webpki mode c = (digest_hex c = digest_hex cert))"
proof -
  obtain shown answered where hs: "handshake (probe_base h @ str ''/proxy/network/integration/v1/sites'')
      = (shown, answered)"
    by (cases "handshake (probe_base h @ str ''/proxy/network/integration/v1/sites'')")
  with assms(2) obtain cert where cert: "shown = Some cert"
    and out: "out = fingerprint_text (probe_base h) (digest_hex cert)"
    by (auto simp: fetch_fingerprint_def probe_fingerprint_def capturing_verify_server_cert_def
        fingerprint_def Let_def map_ok_Ok_iff and_then_Ok_iff split: option.splits)
  let ?tls = "default_tls\<lparr>fingerprint_sha256 := Some [digest_hex cert]\<rparr>"
  have n: "normalize_fingerprint (digest_hex cert) = Ok (digest_hex cert)"
    by (rule normalize_fingerprint_fixed [OF assms(1)])
  then have mode: "client_config ?tls = Ok (Pinned \<lparr>expected = [digest_hex cert]\<rparr>)"
    by (simp add: client_config_def with_context_def)
  then have "\<forall>c. accepts_cert digest_hex webpki (Pinned \<lparr>expected = [digest_hex cert]\<rparr>) c =
      (digest_hex c = digest_hex cert)"
    using n by (auto simp: accepts_pinned [OF mode])
  with hs cert out mode show ?thesis by auto
qed

theorem fetched_pin_connects_witness:
  "\<exists>out. fetch_fingerprint (\<lambda>c. replicate 64 97) (\<lambda>url. (Some [1], Ok ())) (str ''10.0.0.1/'') = Ok out"
proof -
  have "is_fingerprint (replicate 64 97)" by (simp add: is_fingerprint_def list_all_iff lower_hex_def)
  moreover have "fetch_fingerprint (\<lambda>c. replicate 64 97) (\<lambda>url. (Some [1], Ok ())) (str ''10.0.0.1/'') =
      Ok (fingerprint_text (probe_base (str ''10.0.0.1/'')) (replicate 64 97))"
    by (simp add: fetch_fingerprint_def probe_fingerprint_def capturing_verify_server_cert_def
        fingerprint_def with_context_def)
  ultimately show ?thesis using fetched_pin_connects [of "\<lambda>c. replicate 64 97"] by blast
qed

text \<open>The authenticator of a configuration whose only token has the printed hash.\<close>

definition sole_authenticator :: "token_config \<Rightarrow> rstr \<Rightarrow> authenticator" where
  "sole_authenticator t hash = \<lparr>auth_tokens = [(t, hash)], auth_cache = Map.empty\<rparr>"

lemma sole_authenticates:
  "key \<noteq> [] \<Longrightarrow> verify key hash \<Longrightarrow>
     fst (authenticate sha256 verify (sole_authenticator t hash) key) = Some t"
  by (simp add: authenticate_unfold sole_authenticator_def nth_opt_def)

lemma generate_token_Ok_iff:
  "generate_token hp b64 salt bytes = Ok (t, h) \<longleftrightarrow>
     t = TOKEN_PREFIX @ b64 bytes \<and> hp salt t = Ok h"
  by (auto simp: generate_token_def hash_token_def Let_def and_then_Ok_iff map_err_Ok_iff)

lemma trim_end_matches_split:
  "\<exists>tl. s = trim_end_matches P s @ tl \<and> list_all P tl \<and>
     (trim_end_matches P s = [] \<or> \<not> P (last (trim_end_matches P s)))"
proof (intro exI conjI)
  have "rev (dropWhile P (rev s)) @ rev (takeWhile P (rev s)) = rev (rev s)"
    by (simp only: flip: rev_append) simp
  then show "s = trim_end_matches P s @ rev (takeWhile P (rev s))" by (simp add: trim_end_matches_def)
  show "list_all P (rev (takeWhile P (rev s)))" by (auto simp: list_all_iff dest: set_takeWhileD)
  show "trim_end_matches P s = [] \<or> \<not> P (last (trim_end_matches P s))"
    using hd_dropWhile [of P "rev s"] by (auto simp: trim_end_matches_def last_rev)
qed

text \<open>
  C34. Without \<open>--allow-weak\<close>, what \<open>hash-token\<close> prints stands for a key worth having, and works. The
  key is the one given with \<open>--token\<close>, to the last character; otherwise, with \<open>--stdin\<close>, what was read
  less the line ends at its end and nothing else; otherwise a fresh one. A fresh key is printed once, a
  supplied one has at least 16 characters of 8 kinds and 80 bits, and the output depends on it
  through its hash alone. A server whose configuration holds the printed hash authenticates the key. Argon2
  is used as documented: it verifies what it hashed.
\<close>

theorem minted_keys_work:
  assumes "\<And>salt t h. hash_password salt t = Ok h \<Longrightarrow> verify t h"
    and "hash_token_command hash_password base64 show_bits salt salt' random stdin name custom
      from_stdin False = Ok (out, lg)"
  shows "\<exists>key hash. hash_password salt' key = Ok hash \<and>
    (case custom of
       Some t \<Rightarrow> key = t
     | None \<Rightarrow>
         if from_stdin
         then (\<exists>ends. stdin = Ok (key @ ends) \<and> set ends \<subseteq> {10, 13} \<and> last key \<notin> {10, 13})
         else key = TOKEN_PREFIX @ base64 random) \<and>
    (if custom = None \<and> \<not> from_stdin
     then out = token_snippet name hash (Some key)
     else 16 \<le> length key \<and> 8 \<le> card (set key) \<and> 2 ^ MIN_ENTROPY_BITS \<le> char_pool key ^ length key \<and>
       out = token_snippet name hash None) \<and>
    fst (authenticate sha256 verify (sole_authenticator t hash) key) = Some t"
proof -
  from assms(2) obtain supplied key gen where sup: "supplied_key custom from_stdin stdin = Ok supplied"
    and k: "mint_key hash_password base64 show_bits salt random False supplied = Ok (key, gen, lg)"
    and h: "\<exists>hash. hash_password salt' key = Ok hash \<and>
      out = token_snippet name hash (if gen then Some key else None)"
    by (auto simp: hash_token_command_def hash_token_def and_then_Ok_iff map_err_Ok_iff)
  from h obtain hash where hash: "hash_password salt' key = Ok hash"
    and out: "out = token_snippet name hash (if gen then Some key else None)" by blast
  have fresh: "gen \<and> key = TOKEN_PREFIX @ base64 random" if "supplied = None"
    using k that by (auto simp: mint_key_def map_ok_Ok_iff generate_token_Ok_iff)
  have given: "\<not> gen \<and> key = u \<and> 16 \<le> length key \<and> 8 \<le> card (set key) \<and>
      2 ^ MIN_ENTROPY_BITS \<le> char_pool key ^ length key" if "supplied = Some u" for u
  proof -
    from k that have "judge_key show_bits False key = Ok (hd lg)" "\<not> gen" "key = u"
      by (auto simp: mint_key_def map_ok_Ok_iff)
    then show ?thesis by (auto simp: judge_key_def assess_Ok_iff split: sum.splits)
  qed
  have "key \<noteq> []" using fresh given by (cases supplied) (auto simp: TOKEN_PREFIX_def)
  then have auth: "fst (authenticate sha256 verify (sole_authenticator t hash) key) = Some t"
    using assms(1) [OF hash] by (rule sole_authenticates)
  have source: "case custom of
       Some t \<Rightarrow> key = t \<and> supplied \<noteq> None
     | None \<Rightarrow>
         if from_stdin
         then supplied \<noteq> None \<and> (\<exists>ends. stdin = Ok (key @ ends) \<and> set ends \<subseteq> {10, 13} \<and> last key \<notin> {10, 13})
         else key = TOKEN_PREFIX @ base64 random \<and> supplied = None"
  proof (cases custom)
    case None
    show ?thesis
    proof (cases from_stdin)
      case True
      with sup None obtain buf where buf: "stdin = Ok buf"
        "supplied = Some (trim_end_matches (\<lambda>c. c = 10 \<or> c = 13) buf)"
        by (auto simp: supplied_key_def map_ok_Ok_iff with_context_Ok_iff)
      with given have "key = trim_end_matches (\<lambda>c. c = 10 \<or> c = 13) buf" by simp
      with trim_end_matches_split [of buf "\<lambda>c. c = 10 \<or> c = 13"] \<open>key \<noteq> []\<close> buf
      have "\<exists>ends. stdin = Ok (key @ ends) \<and> set ends \<subseteq> {10, 13} \<and> last key \<notin> {10, 13}"
        by (auto simp: list_all_iff)
      with None True buf show ?thesis by simp
    next
      case False
      with sup None fresh show ?thesis by (simp add: supplied_key_def)
    qed
  next
    case (Some u)
    with sup have "supplied = Some u" by (simp add: supplied_key_def)
    with given [OF this] Some show ?thesis by simp
  qed
  then show ?thesis using fresh given hash out auth
    by (cases custom; cases from_stdin; cases supplied) auto
qed

theorem minted_keys_work_witness:
  "\<exists>key hash. fst (authenticate id (\<lambda>p h. h = str ''$argon2'' @ p)
     (sole_authenticator (bare_token [] [] [] []) hash) key) = Some (bare_token [] [] [] [])"
proof -
  have "hash_token_command (\<lambda>salt t. Ok (str ''$argon2'' @ t)) id (\<lambda>n p. []) [] [] [1, 2]
      (Ok []) (str ''kiosk'') None False False = Ok (token_snippet (str ''kiosk'')
        (str ''$argon2'' @ TOKEN_PREFIX @ [1, 2]) (Some (TOKEN_PREFIX @ [1, 2])), [])"
    by (simp add: hash_token_command_def supplied_key_def mint_key_def generate_token_def hash_token_def Let_def)
  from minted_keys_work [OF _ this, of "\<lambda>p h. h = str ''$argon2'' @ p"] show ?thesis by blast
qed

end
