(* ===== verification/Fake_Console.thy ===== *)
theory Fake_Console
  imports Controller_Laws Client_Auth Voucher_Policy Voucher_Model
begin

text \<open>
  \<open>src/bin/fake_controller.rs\<close>: the stand-in console the proxy is developed against, its store
  and its four handlers. Its routing, query parsing and TLS listener are \<open>axum\<close>'s; a request
  arrives here as the call the route table maps it to. The delay is a duration each answer takes.
\<close>

section \<open>The console\<close>

record fake_settings =
  fk_bind :: socket_addr
  fk_api_key :: rstr
  fk_always_401 :: bool
  fk_delay_ms :: nat
  fk_print_fingerprint :: bool

record fake_voucher =
  fv_id :: rstr
  fv_code :: rstr
  fv_name :: rstr
  fv_time_limit_minutes :: u64
  fv_authorized_guest_limit :: u32

record fake_console =
  fc_cfg :: fake_settings
  fc_vouchers :: "rstr \<rightharpoonup> fake_voucher list"
  fc_next :: u64

definition fake_to_json :: "fake_voucher \<Rightarrow> json" where
  "fake_to_json v = json_object [
     (str ''id'', JString (fv_id v)),
     (str ''code'', JString (fv_code v)),
     (str ''name'', JString (fv_name v)),
     (str ''timeLimitMinutes'', ser_u64 (fv_time_limit_minutes v)),
     (str ''authorizedGuestLimit'', ser_u32 (fv_authorized_guest_limit v)),
     (str ''authorizedGuestCount'', JNumber (PosInt 0)),
     (str ''expired'', JBool False),
     (str ''createdAt'', JString (str ''2026-01-01T00:00:00Z''))]"

definition SITE_ID :: rstr where
  "SITE_ID = str ''default''"

definition fake_unauthorized :: "status_code \<times> json" where
  "fake_unauthorized = (401, json_object [(str ''message'', JString (str ''Unauthorized''))])"

definition fake_check :: "fake_console \<Rightarrow> headers \<Rightarrow> (unit, status_code \<times> json) result" where
  "fake_check s hs =
     (if fk_always_401 (fc_cfg s) then Err fake_unauthorized
      else if Option.bind (map_of hs (str ''x-api-key'')) header_to_str = Some (fk_api_key (fc_cfg s))
        then Ok ()
      else Err fake_unauthorized)"

text \<open>\<open>pause\<close>, which every handler awaits after the key check: how long a call waits, in milliseconds.\<close>

definition fake_pause :: "headers \<Rightarrow> fake_console \<Rightarrow> nat" where
  "fake_pause hs s = (if is_ok (fake_check s hs) then fk_delay_ms (fc_cfg s) else 0)"

section \<open>Handlers\<close>

type_synonym reply = "(json, status_code \<times> json) result"

definition fake_list_sites :: "headers \<Rightarrow> fake_console \<Rightarrow> reply \<times> fake_console" where
  "fake_list_sites hs s =
     (map_ok (\<lambda>_. json_object [(str ''data'', JArray [json_object [
        (str ''id'', JString SITE_ID), (str ''name'', JString (str ''Default'')),
        (str ''internalReference'', JString (str ''default''))]])]) (fake_check s hs), s)"

text \<open>A key that repeats in the query keeps its last value: the pairs are collected into a \<open>HashMap\<close>.\<close>

definition fake_limit :: "(rstr \<times> rstr) list \<Rightarrow> nat" where
  "fake_limit q = min (case Option.bind (map_of (rev q) (str ''limit'')) parse_u64 of
     Some n \<Rightarrow> n | None \<Rightarrow> 100) 1000"

definition fake_list_vouchers :: "headers \<Rightarrow> rstr \<Rightarrow> (rstr \<times> rstr) list \<Rightarrow> fake_console
    \<Rightarrow> reply \<times> fake_console" where
  "fake_list_vouchers hs site q s =
     (map_ok (\<lambda>_. json_object [(str ''data'', JArray
        (case fc_vouchers s site of
           Some v \<Rightarrow> map fake_to_json (take (fake_limit q) v) | None \<Rightarrow> []))]) (fake_check s hs), s)"

definition make_voucher :: "rstr \<Rightarrow> u64 \<Rightarrow> u32 \<Rightarrow> u64 \<Rightarrow> fake_voucher" where
  "make_voucher name minutes guests n =
     \<lparr>fv_id = str ''v'' @ show_nat (unat n),
      fv_code = pad_zero 10 (show_nat (unat (1000000000 + n))),
      fv_name = name, fv_time_limit_minutes = minutes, fv_authorized_guest_limit = guests\<rparr>"

text \<open>The loop \<open>for _ in 0..count\<close>: the vouchers made, and the counter after it.\<close>

fun make_vouchers :: "rstr \<Rightarrow> u64 \<Rightarrow> u32 \<Rightarrow> nat \<Rightarrow> u64 \<Rightarrow> fake_voucher list \<times> u64" where
  "make_vouchers name minutes guests 0 n = ([], n)"
| "make_vouchers name minutes guests (Suc i) n =
     (let (vs, n') = make_vouchers name minutes guests i (n + 1)
      in (make_voucher name minutes guests n # vs, n'))"

definition fake_create_vouchers :: "headers \<Rightarrow> rstr \<Rightarrow> json \<Rightarrow> fake_console
    \<Rightarrow> reply \<times> fake_console" where
  "fake_create_vouchers hs site body s =
     (case fake_check s hs of
        Err e \<Rightarrow> (Err e, s)
      | Ok _ \<Rightarrow>
          (let cnt = unwrap_or (Option.bind (get body (str ''count'')) value_as_u64) 1;
               minutes = unwrap_or (Option.bind (get body (str ''timeLimitMinutes'')) value_as_u64) 60;
               name = unwrap_or (Option.bind (get body (str ''name'')) value_as_str) (str ''Voucher'');
               guests = ucast (unwrap_or
                 (Option.bind (get body (str ''authorizedGuestLimit'')) value_as_u64) 1)
           in if minutes = 0 \<or> minutes > 1000000 then
                (Err (400, json_object [(str ''message'', JString (str ''timeLimitMinutes out of range''))]), s)
              else
                (let (made, n) = make_vouchers name minutes guests (unat cnt) (fc_next s);
                     old = unwrap_or (fc_vouchers s site) []
                 in (Ok (json_object [(str ''vouchers'', JArray (map fake_to_json made))]),
                     s\<lparr>fc_vouchers := (fc_vouchers s)(site \<mapsto> old @ made), fc_next := n\<rparr>))))"

definition fake_delete_voucher :: "headers \<Rightarrow> rstr \<Rightarrow> rstr \<Rightarrow> fake_console \<Rightarrow> reply \<times> fake_console" where
  "fake_delete_voucher hs site i s =
     (case fake_check s hs of
        Err e \<Rightarrow> (Err e, s)
      | Ok _ \<Rightarrow>
          (let list = unwrap_or (fc_vouchers s site) [];
               kept = filter (\<lambda>v. fv_id v \<noteq> i) list;
               s' = s\<lparr>fc_vouchers := (fc_vouchers s)(site \<mapsto> kept)\<rparr>
           in if length kept = length list then
                (Err (404, json_object [(str ''message'', JString (str ''Voucher not found''))]), s')
              else (Ok (json_object []), s')))"

text \<open>The calls the route table distinguishes.\<close>

datatype fake_call =
    FakeListSites
  | FakeListVouchers rstr "(rstr \<times> rstr) list"
  | FakeCreateVouchers rstr json
  | FakeDeleteVoucher rstr rstr

fun fake_serve :: "fake_call \<Rightarrow> headers \<Rightarrow> fake_console \<Rightarrow> reply \<times> fake_console" where
  "fake_serve FakeListSites hs s = fake_list_sites hs s"
| "fake_serve (FakeListVouchers site q) hs s = fake_list_vouchers hs site q s"
| "fake_serve (FakeCreateVouchers site b) hs s = fake_create_vouchers hs site b s"
| "fake_serve (FakeDeleteVoucher site i) hs s = fake_delete_voucher hs site i s"

section \<open>The route table\<close>

datatype fake_endpoint = EpListSites | EpListVouchers | EpCreateVouchers | EpDeleteVoucher

definition FAKE_API :: rstr where
  "FAKE_API = str ''/proxy/network/integration/v1''"

definition fake_routes :: "(rstr \<times> (http_method \<times> fake_endpoint) list) list" where
  "fake_routes =
     [(FAKE_API @ str ''/sites'', [(GET, EpListSites), (HEAD, EpListSites)]),
      (FAKE_API @ str ''/sites/{site}/hotspot/vouchers'',
        [(GET, EpListVouchers), (HEAD, EpListVouchers), (POST, EpCreateVouchers)]),
      (FAKE_API @ str ''/sites/{site}/hotspot/vouchers/{id}'', [(DELETE, EpDeleteVoucher)])]"

text \<open>
  \<open>matches\<close> is axum's matching of a path against the templates, with the decoded captures. A call
  the table does not name, or a creation without a JSON body, is \<open>axum\<close>'s to refuse.
\<close>

definition fake_dispatch :: "(rstr list \<Rightarrow> rstr \<Rightarrow> (rstr \<times> rstr list) option) \<Rightarrow> http_method
    \<Rightarrow> rstr \<times> (rstr \<times> rstr) list \<Rightarrow> json option \<Rightarrow> fake_call option" where
  "fake_dispatch matches m target body =
     Option.bind (matches (map fst fake_routes) (fst target)) (\<lambda>(tpl, caps).
     Option.bind (map_of fake_routes tpl) (\<lambda>ms.
     Option.bind (map_of ms m) (\<lambda>ep. (case (ep, caps) of
         (EpListSites, []) \<Rightarrow> Some FakeListSites
       | (EpListVouchers, [site]) \<Rightarrow> Some (FakeListVouchers site (snd target))
       | (EpCreateVouchers, [site]) \<Rightarrow> map_option (FakeCreateVouchers site) body
       | (EpDeleteVoucher, [site, i]) \<Rightarrow> Some (FakeDeleteVoucher site i)
       | _ \<Rightarrow> None))))"

section \<open>The console's own guarantees\<close>

text \<open>
  \<open>console_ok\<close>: every stored id was issued from the counter, which is still above it, and ids do
  not repeat within a site.
\<close>

definition issued_below :: "u64 \<Rightarrow> fake_voucher \<Rightarrow> bool" where
  "issued_below n v \<longleftrightarrow> (\<exists>m < unat n. fv_id v = str ''v'' @ show_nat m)"

definition console_ok :: "fake_console \<Rightarrow> bool" where
  "console_ok s \<longleftrightarrow> (\<forall>site vs. fc_vouchers s site = Some vs \<longrightarrow>
     list_all (issued_below (fc_next s)) vs \<and> distinct (map fv_id vs))"

lemma make_vouchers_spec:
  "unat n + i < 2 ^ 64 \<Longrightarrow> make_vouchers name mins g i n =
     (map (\<lambda>k. make_voucher name mins g (n + of_nat k)) [0..<i], n + of_nat i)"
proof (induction i arbitrary: n)
  case 0
  then show ?case by simp
next
  case (Suc i)
  have "unat n + unat (1 :: u64) < 2 ^ LENGTH(64)" using Suc.prems by simp
  then have "unat (n + 1) = unat n + unat (1 :: u64)" by (simp only: unat_add_lem)
  then have "unat (n + 1) = unat n + 1" by simp
  with Suc have IH: "make_vouchers name mins g i (n + 1) =
      (map (\<lambda>k. make_voucher name mins g (n + 1 + of_nat k)) [0..<i], n + 1 + of_nat i)"
    by (intro Suc.IH) simp
  have "[0..<Suc i] = 0 # map Suc [0..<i]" by (simp add: map_Suc_upt upt_conv_Cons del: upt_Suc)
  then show ?case by (simp add: IH o_def add.assoc del: upt_Suc)
qed

lemma unat_add_small: "unat (n :: u64) + k < 2 ^ 64 \<Longrightarrow> unat (n + of_nat k) = unat n + k"
proof -
  assume k: "unat n + k < 2 ^ 64"
  then have u: "unat (of_nat k :: u64) = k" by (simp add: unsigned_of_nat take_bit_nat_eq_self)
  with k have "unat n + unat (of_nat k :: u64) < 2 ^ LENGTH(64)" by simp
  then have "unat (n + of_nat k) = unat n + unat (of_nat k :: u64)" by (simp only: unat_add_lem)
  with u show ?thesis by simp
qed

lemma made_ids:
  assumes "unat n + i < 2 ^ 64"
  shows "map fv_id (fst (make_vouchers name mins g i n)) =
      map (\<lambda>k. str ''v'' @ show_nat (unat n + k)) [0..<i]"
    and "unat (snd (make_vouchers name mins g i n)) = unat n + i"
  using assms unat_add_small
  by (simp_all add: make_vouchers_spec make_voucher_def)

lemma issued_below_mono: "issued_below n v \<Longrightarrow> unat n \<le> unat m \<Longrightarrow> issued_below m v"
  unfolding issued_below_def by (meson order_less_le_trans)

lemma console_okD:
  "console_ok s \<Longrightarrow> list_all (issued_below (fc_next s)) (unwrap_or (fc_vouchers s site) []) \<and>
     distinct (map fv_id (unwrap_or (fc_vouchers s site) []))"
  by (cases "fc_vouchers s site") (auto simp: console_ok_def)

text \<open>New vouchers next to old ones: fresh, distinct, below the new counter.\<close>

lemma append_made:
  assumes old: "list_all (issued_below n) old" "distinct (map fv_id old)" and n: "unat n + i < 2 ^ 64"
    and m: "make_vouchers name mins g i n = (made, n')"
  shows "list_all (issued_below n') (old @ made) \<and> distinct (map fv_id (old @ made)) \<and>
    length made = i \<and> set (map fv_id made) \<inter> set (map fv_id old) = {}"
proof -
  have ids: "map fv_id made = map (\<lambda>k. str ''v'' @ show_nat (unat n + k)) [0..<i]"
    and n': "unat n' = unat n + i"
    using made_ids [OF n, of name mins g] m by simp_all
  have len: "length made = i" using ids by (metis length_map length_upt minus_nat.diff_0)
  have "list_all (issued_below n') old"
    using old(1) n' by (auto simp: list_all_iff intro: issued_below_mono)
  moreover have "issued_below n' v" if "v \<in> set made" for v
  proof -
    from that have "fv_id v \<in> set (map fv_id made)" by simp
    then obtain k where "k < i" "fv_id v = str ''v'' @ show_nat (unat n + k)" unfolding ids by auto
    then show ?thesis using n' by (auto simp: issued_below_def)
  qed
  moreover have d: "distinct (map fv_id made)"
    unfolding ids by (simp add: distinct_map inj_on_def)
  moreover have x: "set (map fv_id made) \<inter> set (map fv_id old) = {}"
    unfolding ids using old(1) by (auto simp: list_all_iff issued_below_def)
  ultimately show ?thesis using old(2) len by (auto simp: list_all_iff)
qed

lemma fake_create_cases:
  assumes "fst (fake_create_vouchers hs site b s) = Ok r"
  shows "\<exists>name mins g made n. make_vouchers name mins g
         (unat (unwrap_or (Option.bind (get b (str ''count'')) value_as_u64) 1)) (fc_next s) = (made, n) \<and>
       r = json_object [(str ''vouchers'', JArray (map fake_to_json made))] \<and>
       snd (fake_create_vouchers hs site b s) = s\<lparr>fc_vouchers := (fc_vouchers s)(site \<mapsto>
         unwrap_or (fc_vouchers s site) [] @ made), fc_next := n\<rparr>"
proof -
  let ?minutes = "unwrap_or (Option.bind (get b (str ''timeLimitMinutes'')) value_as_u64) 60"
  let ?name = "unwrap_or (Option.bind (get b (str ''name'')) value_as_str) (str ''Voucher'')"
  let ?guests = "ucast (unwrap_or (Option.bind (get b (str ''authorizedGuestLimit'')) value_as_u64) 1)"
  let ?cnt = "unat (unwrap_or (Option.bind (get b (str ''count'')) value_as_u64) 1)"
  obtain made n where m: "make_vouchers ?name ?minutes ?guests ?cnt (fc_next s) = (made, n)"
    by (cases "make_vouchers ?name ?minutes ?guests ?cnt (fc_next s)")
  with assms have "r = json_object [(str ''vouchers'', JArray (map fake_to_json made))]"
    "snd (fake_create_vouchers hs site b s) = s\<lparr>fc_vouchers := (fc_vouchers s)(site \<mapsto>
       unwrap_or (fc_vouchers s site) [] @ made), fc_next := n\<rparr>"
    by (auto simp: fake_create_vouchers_def Let_def split: sum.splits if_splits)
  with m show ?thesis by blast
qed

lemma fake_serve_keeps_cfg: "fc_cfg (snd (fake_serve k hs s)) = fc_cfg s"
  by (cases k)
     (auto simp: fake_list_sites_def fake_list_vouchers_def fake_create_vouchers_def
        fake_delete_voucher_def Let_def split: sum.split prod.split)

lemma fake_check_cong: "fc_cfg s = fc_cfg s' \<Longrightarrow> fake_check s hs = fake_check s' hs"
  by (simp add: fake_check_def)

lemma fake_serve_checked: "is_ok (fst (fake_serve k hs s)) \<Longrightarrow> fake_check s hs = Ok ()"
  by (cases k)
     (auto simp: fake_list_sites_def fake_list_vouchers_def fake_create_vouchers_def
        fake_delete_voucher_def is_ok_iff map_ok_Ok_iff Let_def split: sum.splits)

lemma filter_distinct_one:
  "distinct (map f xs) \<Longrightarrow> x \<in> set xs \<Longrightarrow> length (filter (\<lambda>y. f y \<noteq> f x) xs) = length xs - 1"
proof (induction xs)
  case (Cons y ys)
  show ?case
  proof (cases "x = y")
    case True
    with Cons.prems(1) have "\<forall>y' \<in> set ys. f y' \<noteq> f x" by (metis distinct.simps(2) image_eqI list.simps(9) set_map)
    then have "filter (\<lambda>y'. f y' \<noteq> f x) ys = ys" by (simp add: filter_id_conv)
    with True show ?thesis by simp
  next
    case False
    with Cons.prems have x: "x \<in> set ys" and ne: "f y \<noteq> f x" by auto
    from Cons x have "length (filter (\<lambda>y. f y \<noteq> f x) ys) = length ys - 1" by simp
    with ne x show ?thesis by (cases ys) simp_all
  qed
qed simp

text \<open>A revocation that succeeds removes exactly the one voucher with the id.\<close>

lemma fake_delete_cases:
  assumes "console_ok s" and "fake_delete_voucher hs site i s = (Ok r, s')"
  shows "fc_vouchers s' = (fc_vouchers s)(site \<mapsto>
      filter (\<lambda>v. fv_id v \<noteq> i) (unwrap_or (fc_vouchers s site) []))"
    and "\<exists>v \<in> set (unwrap_or (fc_vouchers s site) []). fv_id v = i"
    and "length (filter (\<lambda>v. fv_id v \<noteq> i) (unwrap_or (fc_vouchers s site) [])) =
      length (unwrap_or (fc_vouchers s site) []) - 1"
proof -
  let ?old = "unwrap_or (fc_vouchers s site) []"
  from assms(2) have s': "s' = s\<lparr>fc_vouchers := (fc_vouchers s)(site \<mapsto> filter (\<lambda>v. fv_id v \<noteq> i) ?old)\<rparr>"
    and ne: "length (filter (\<lambda>v. fv_id v \<noteq> i) ?old) \<noteq> length ?old"
    by (auto simp: fake_delete_voucher_def Let_def split: sum.splits if_splits)
  from s' show "fc_vouchers s' = (fc_vouchers s)(site \<mapsto> filter (\<lambda>v. fv_id v \<noteq> i) ?old)" by simp
  have "\<not> (\<forall>v \<in> set ?old. fv_id v \<noteq> i)" using ne filter_id_conv [of "\<lambda>v. fv_id v \<noteq> i" ?old] by metis
  then obtain v where v: "v \<in> set ?old" "fv_id v = i" by blast
  then show "\<exists>v \<in> set ?old. fv_id v = i" by blast
  have "distinct (map fv_id ?old)" using console_okD [OF assms(1)] by simp
  from filter_distinct_one [OF this v(1)] v(2)
  show "length (filter (\<lambda>v. fv_id v \<noteq> i) ?old) = length ?old - 1" by simp
qed

section \<open>Properties\<close>

text \<open>How many vouchers a call may add.\<close>

fun fake_adds :: "fake_call \<Rightarrow> nat" where
  "fake_adds (FakeCreateVouchers site b) =
     unat (unwrap_or (Option.bind (get b (str ''count'')) value_as_u64) 1)"
| "fake_adds _ = 0"

text \<open>
  The stand-in console keeps its voucher ids unique: whatever call it serves, ids do not repeat
  within a site and stay below the counter, as long as the counter does not wrap; so a voucher it
  has just created is never confused with an older one.
\<close>

theorem console_ids_unique:
  assumes ok: "console_ok s" and room: "unat (fc_next s) + fake_adds k < 2 ^ 64"
  shows "console_ok (snd (fake_serve k hs s))"
proof (cases k)
  case FakeListSites
  with ok show ?thesis by (simp add: fake_list_sites_def)
next
  case (FakeListVouchers site q)
  with ok show ?thesis by (simp add: fake_list_vouchers_def)
next
  case (FakeCreateVouchers site b)
  show ?thesis
  proof (cases "fst (fake_create_vouchers hs site b s)")
    case (Inl e)
    then have "snd (fake_create_vouchers hs site b s) = s"
      by (auto simp: fake_create_vouchers_def Let_def split: sum.splits if_splits prod.splits)
    with ok FakeCreateVouchers show ?thesis by simp
  next
    case (Inr r)
    from fake_create_cases [OF this] obtain name mins g made n where
      m: "make_vouchers name mins g (fake_adds k) (fc_next s) = (made, n)"
      and s': "snd (fake_create_vouchers hs site b s) = s\<lparr>fc_vouchers := (fc_vouchers s)(site \<mapsto>
         unwrap_or (fc_vouchers s site) [] @ made), fc_next := n\<rparr>"
      by (auto simp: FakeCreateVouchers)
    have n: "unat n = unat (fc_next s) + fake_adds k"
      using made_ids(2) [OF room, of name mins g] m by simp
    have old: "list_all (issued_below n) vs \<and> distinct (map fv_id vs)"
      if "fc_vouchers s x = Some vs" for x vs
    proof -
      have "unat (fc_next s) \<le> unat n" using n by simp
      then show ?thesis
        using ok that unfolding console_ok_def list_all_iff by (blast intro: issued_below_mono)
    qed
    have "list_all (issued_below (fc_next s)) (unwrap_or (fc_vouchers s site) [])"
      "distinct (map fv_id (unwrap_or (fc_vouchers s site) []))"
      using console_okD [OF ok] by simp_all
    from append_made [OF this room m] old show ?thesis
      unfolding FakeCreateVouchers fake_serve.simps s' console_ok_def by auto
  qed
next
  case (FakeDeleteVoucher site i)
  have keep: "list_all (issued_below (fc_next s)) (filter P (unwrap_or (fc_vouchers s site) [])) \<and>
      distinct (map fv_id (filter P (unwrap_or (fc_vouchers s site) [])))" for P
    using console_okD [OF ok, of site] by (auto simp: list_all_iff distinct_map_filter)
  show ?thesis
    using ok keep
    by (auto simp: FakeDeleteVoucher fake_delete_voucher_def Let_def console_ok_def split: sum.split)
qed

text \<open>
  With the right key, after a creation of \<open>n\<close> vouchers the list of the site is the old rows followed
  by exactly the rows the creation returned, \<open>n\<close> of them with ids no old row has, when the page limit
  leaves room.
\<close>

lemma created_then_listed:
  assumes "console_ok s" and "unat (fc_next s) + fake_adds (FakeCreateVouchers site b) < 2 ^ 64"
    and made: "fake_create_vouchers hs site b s = (Ok r, s')"
    and "length (unwrap_or (fc_vouchers s site) []) + fake_adds (FakeCreateVouchers site b) \<le> fake_limit q"
  shows "\<exists>old new. list_field r = map fake_to_json new \<and>
    fst (fake_list_vouchers hs site q s') =
      Ok (json_object [(str ''data'', JArray (map fake_to_json old @ list_field r))]) \<and>
    old = unwrap_or (fc_vouchers s site) [] \<and>
    length new = fake_adds (FakeCreateVouchers site b) \<and> set (map fv_id new) \<inter> set (map fv_id old) = {}"
proof -
  from made have "fst (fake_create_vouchers hs site b s) = Ok r" by simp
  from fake_create_cases [OF this] made obtain name mins g new n where
    m: "make_vouchers name mins g (fake_adds (FakeCreateVouchers site b)) (fc_next s) = (new, n)"
    and r: "r = json_object [(str ''vouchers'', JArray (map fake_to_json new))]"
    and s': "s' = s\<lparr>fc_vouchers := (fc_vouchers s)(site \<mapsto>
         unwrap_or (fc_vouchers s site) [] @ new), fc_next := n\<rparr>"
    by auto
  have chk: "fake_check s' hs = Ok ()"
    using made by (auto simp: fake_create_vouchers_def s' fake_check_def split: sum.splits if_splits)
  have "list_all (issued_below (fc_next s)) (unwrap_or (fc_vouchers s site) [])"
    "distinct (map fv_id (unwrap_or (fc_vouchers s site) []))"
    using console_okD [OF assms(1)] by simp_all
  from append_made [OF this assms(2) m]
  have new: "length new = fake_adds (FakeCreateVouchers site b)"
    "set (map fv_id new) \<inter> set (map fv_id (unwrap_or (fc_vouchers s site) [])) = {}" by simp_all
  have "fst (fake_list_vouchers hs site q s') = Ok (json_object [(str ''data'', JArray
      (map fake_to_json (unwrap_or (fc_vouchers s site) []) @ map fake_to_json new))])"
    using chk assms(4) new(1) by (simp add: fake_list_vouchers_def s')
  with new show ?thesis by (auto simp: r)
qed

end
