(* ===== verification/Console_Link.thy ===== *)
theory Console_Link
  imports Rest_Laws Fake_Console
begin

text \<open>
  The proxy in front of the stand-in console, as the integration tests run them. The locale
  \<open>console_link\<close> says what joins them: an exchange whose handshake the client accepts and that ends
  before its timeout is the console's, another is an error; JSON survives the wire, and URLs and route
  templates match the way \<open>reqwest\<close> and \<open>axum\<close> match them. From it every proxied operation is the
  console's own operation behind the proxy's guards, its pin and its timeout.
\<close>

section \<open>An operation as a call of the console\<close>

fun fake_call_of :: "upstream_op \<Rightarrow> fake_call" where
  "fake_call_of OpListSites = FakeListSites"
| "fake_call_of (OpListVouchers s) = FakeListVouchers s [(str ''limit'', str ''1000'')]"
| "fake_call_of (OpCreateVouchers s b) = FakeCreateVouchers s b"
| "fake_call_of (OpDeleteVoucher s v) = FakeDeleteVoucher s v"

fun op_query_pairs :: "upstream_op \<Rightarrow> (rstr \<times> rstr) list" where
  "op_query_pairs (OpListVouchers s) = [(str ''limit'', str ''1000'')]"
| "op_query_pairs _ = []"

definition op_route :: "upstream_op \<Rightarrow> rstr" where
  "op_route op = FAKE_API @ concat (map (\<lambda>seg. 47 # seg) (op_segments op))"

text \<open>The template of an operation's path and the ids it captures.\<close>

fun op_template :: "upstream_op \<Rightarrow> rstr" where
  "op_template OpListSites = FAKE_API @ str ''/sites''"
| "op_template (OpListVouchers s) = FAKE_API @ str ''/sites/{site}/hotspot/vouchers''"
| "op_template (OpCreateVouchers s b) = FAKE_API @ str ''/sites/{site}/hotspot/vouchers''"
| "op_template (OpDeleteVoucher s v) = FAKE_API @ str ''/sites/{site}/hotspot/vouchers/{id}''"

fun op_ids :: "upstream_op \<Rightarrow> rstr list" where
  "op_ids OpListSites = []"
| "op_ids (OpListVouchers s) = [s]"
| "op_ids (OpCreateVouchers s b) = [s]"
| "op_ids (OpDeleteVoucher s v) = [s, v]"

section \<open>What the console answers\<close>

definition key_headers :: "upstream \<Rightarrow> headers" where
  "key_headers up = [(str ''x-api-key'', expose (up_api_key up)), (str ''accept'', str ''application/json'')]"

lemma lower_headers:
  "map (apfst to_ascii_lowercase) (req_headers (op_request up op)) = key_headers up"
  by (simp add: op_request_def build_request_def key_headers_def) code_simp

lemma set_bt_insert: "set (bt_insert k v m) \<subseteq> insert (k, v) (set m)"
  by (induction k v m rule: bt_insert.induct) auto

lemma values_bt_of_list: "snd ` set (bt_of_list es) \<subseteq> snd ` set es"
proof (induction es rule: bt_of_list.induct)
  case (2 k v rest)
  have "snd ` set (bt_insert k v (bt_of_list rest)) \<subseteq> snd ` insert (k, v) (set (bt_of_list rest))"
    by (rule image_mono) (rule set_bt_insert)
  then have ins: "snd ` set (bt_insert k v (bt_of_list rest)) \<subseteq> insert v (snd ` set (bt_of_list rest))"
    by simp
  show ?case
  proof (cases "k \<in> fst ` set rest")
    case True
    with 2(1) show ?thesis by auto
  next
    case False
    with 2(2) have "snd ` set (bt_of_list rest) \<subseteq> snd ` set rest" .
    from order_trans [OF ins insert_mono [OF this]] False show ?thesis by simp
  qed
qed simp

lemma wf_json_object: "list_all wf_json (map snd es) \<Longrightarrow> wf_json (json_object es)"
  using values_bt_of_list [of es] by (fastforce simp: json_object_def list_all_iff)

lemma wf_fake_to_json [simp]: "wf_json (fake_to_json v)"
  unfolding fake_to_json_def by (rule wf_json_object) (simp add: ser_u32_def ser_u64_def wf_num_def)

definition reply_body :: "reply \<Rightarrow> json" where
  "reply_body r = (case r of Ok v \<Rightarrow> v | Err e \<Rightarrow> snd e)"

lemma wf_reply: "wf_json (reply_body (fst (fake_serve k hs s)))"
proof -
  have o: "wf_json (json_object [(str x, JString y)])" for x y by (rule wf_json_object) simp
  have a: "wf_json (json_object [(str x, JArray ys)])" if "list_all wf_json ys" for x ys
    by (rule wf_json_object) (simp add: that)
  have e: "wf_json (json_object [])" by (rule wf_json_object) simp
  have m: "list_all wf_json (map fake_to_json vs)" for vs by (simp add: list_all_iff)
  have sites: "wf_json (json_object [(str ''data'', JArray [json_object [(str ''id'', JString SITE_ID),
      (str ''name'', JString (str ''Default'')), (str ''internalReference'', JString (str ''default''))]])])"
    by (rule a) (simp, rule wf_json_object, simp)
  show ?thesis
    by (cases k)
       (auto simp: reply_body_def fake_list_sites_def fake_list_vouchers_def fake_create_vouchers_def
          fake_delete_voucher_def fake_check_def fake_unauthorized_def Let_def o e
          intro!: a m sites split: option.split prod.split)
qed

lemma fake_error_status:
  "fst (fake_serve k hs s) = Err (st, v) \<Longrightarrow> st = 400 \<or> st = 401 \<or> st = 404"
  by (cases k)
     (auto simp: fake_list_sites_def fake_list_vouchers_def fake_create_vouchers_def
        fake_delete_voucher_def fake_check_def fake_unauthorized_def Let_def
        split: sum.splits if_splits prod.splits)

text \<open>The result the proxy hands on for an answer of the console.\<close>

definition as_upstream_result :: "(json \<Rightarrow> rstr) \<Rightarrow> reply \<Rightarrow> (json, proxy_error) result" where
  "as_upstream_result enc r = (case r of
     Ok v \<Rightarrow> Ok v
   | Err (st, v) \<Rightarrow> Err (Upstream st (fst (failure_message st (enc v) v))))"



section \<open>The wire\<close>

text \<open>
  What is between the two programs: axum's matching of a path against the templates, the split of a URL
  into path and decoded query, the printer of a JSON body, SHA-256 and WebPKI, the certificate the
  console shows, and the milliseconds that connecting takes and the rest of an exchange, but for the
  console's pause.
\<close>

record wire =
  wr_matches :: "rstr list \<Rightarrow> rstr \<Rightarrow> (rstr \<times> rstr list) option"
  wr_target :: "rstr \<Rightarrow> rstr \<times> (rstr \<times> rstr) list"
  wr_enc :: "json \<Rightarrow> rstr"
  wr_digest :: "certificate \<Rightarrow> rstr"
  wr_webpki :: "certificate \<Rightarrow> bool"
  wr_cert :: certificate
  wr_connect :: nat
  wr_latency :: nat

text \<open>
  The client connects before its timeouts, accepts the console's certificate, and the whole exchange
  ends before the timeout of a request.
\<close>

definition connects :: "wire \<Rightarrow> http_client \<Rightarrow> bool" where
  "connects wr cl \<longleftrightarrow>
     wr_connect wr * 10 ^ 6 < client_connect_timeout cl \<and> wr_connect wr * 10 ^ 6 < client_timeout cl"

definition trusts :: "wire \<Rightarrow> http_client \<Rightarrow> bool" where
  "trusts wr cl \<longleftrightarrow> accepts_cert (wr_digest wr) (wr_webpki wr) (client_tls cl) (wr_cert wr)"

definition in_time :: "wire \<Rightarrow> http_client \<Rightarrow> nat \<Rightarrow> bool" where
  "in_time wr cl ms \<longleftrightarrow> (wr_connect wr + ms + wr_latency wr) * 10 ^ 6 < client_timeout cl"

text \<open>
  A request at the console: names of headers arrive in lower case, and what no route takes is a 404
  without a pause.
\<close>

definition console_call :: "wire \<Rightarrow> http_request \<Rightarrow> fake_call option" where
  "console_call wr r = fake_dispatch (wr_matches wr) (req_method r) (wr_target wr (req_url r)) (req_body r)"

definition console_headers :: "http_request \<Rightarrow> headers" where
  "console_headers r = map (apfst to_ascii_lowercase) (req_headers r)"

definition console_pause :: "wire \<Rightarrow> http_request \<Rightarrow> fake_console \<Rightarrow> nat" where
  "console_pause wr r s =
     (case console_call wr r of None \<Rightarrow> 0 | Some k \<Rightarrow> fake_pause (console_headers r) s)"

definition console_reply :: "wire \<Rightarrow> http_request \<Rightarrow> fake_console
    \<Rightarrow> (status_code \<times> rstr option) \<times> fake_console" where
  "console_reply wr r s =
     (case console_call wr r of
        None \<Rightarrow> ((404, Some []), s)
      | Some k \<Rightarrow> (case fake_serve k (console_headers r) s of
            (Ok v, s') \<Rightarrow> ((200, Some (wr_enc wr v)), s')
          | (Err (st, v), s') \<Rightarrow> ((st, Some (wr_enc wr v)), s')))"

section \<open>The link\<close>

text \<open>
  The laws on an exchange are what \<open>reqwest\<close> and \<open>rustls\<close> document: a deadline that passes is a
  timeout, while connecting before anything is sent, and later with the console's work done or not; a
  certificate the verifier refuses ends the exchange before anything is sent, with the verifier's words
  in the chain of errors.
\<close>

locale console_link =
  fixes lib :: "(fake_console, 'l, 'k) lib"
    and wr :: wire
    and base :: rstr
  assumes exchange: "connects wr cl \<Longrightarrow> trusts wr cl \<Longrightarrow> in_time wr cl (console_pause wr r s) \<Longrightarrow>
      \<exists>ms. lib_transport lib cl r s = ((Ok (fst (console_reply wr r s)), ms), snd (console_reply wr r s))"
    and untrusted: "connects wr cl \<Longrightarrow> \<not> trusts wr cl \<Longrightarrow> \<exists>e ms. lib_transport lib cl r s = ((Err e, ms), s) \<and>
      (case client_tls cl of
         Pinned v \<Rightarrow> (\<exists>m. pinned_verify_server_cert (wr_digest wr) v (wr_cert wr) = Err m \<and>
           contains (join (str '': '') (err_chain e)) m)
       | _ \<Rightarrow> True)"
    and overdue: "\<not> connects wr cl \<or> trusts wr cl \<and> \<not> in_time wr cl (console_pause wr r s) \<Longrightarrow>
      \<exists>e ms s'. lib_transport lib cl r s = ((Err e, ms), s') \<and> err_is_timeout e \<and>
        \<not> contains (join (str '': '') (err_chain e)) (str ''fingerprint mismatch'') \<and>
        (s' = s \<or> connects wr cl \<and> s' = snd (console_reply wr r s))"
    and wire: "wf_json v \<Longrightarrow> lib_parse_json lib (wr_enc wr v) = Some v"
    and not_blank: "trim (wr_enc wr v) \<noteq> []"
    and url: "op_valid op \<Longrightarrow> wr_target wr (base @ op_path op) = (op_route op, op_query_pairs op)"
    and template: "op_valid op \<Longrightarrow>
      wr_matches wr (map fst fake_routes) (op_route op) = Some (op_template op, op_ids op)"

text \<open>
  What becomes of a call: given up while connecting, refused at the handshake, given up at the deadline,
  or the console's. A refusal is reported as a fingerprint mismatch when the client is pinned.
\<close>

definition pin_mismatch :: rstr where
  "pin_mismatch = str ''certificate fingerprint mismatch '' @ em_dash
     @ str '' the controller is not the one this proxy is pinned to''"

definition call_outcome :: "wire \<Rightarrow> upstream \<Rightarrow> fake_call \<Rightarrow> fake_console
    \<Rightarrow> (json, proxy_error) result \<Rightarrow> fake_console \<Rightarrow> bool" where
  "call_outcome wr up k s r s' \<longleftrightarrow>
     (let (reply, served) = fake_serve k (key_headers up) s; cl = up_client up in
      if \<not> connects wr cl then r = Err (UpstreamUnreachable (str ''timed out'')) \<and> s' = s
      else if \<not> trusts wr cl then s' = s \<and> (\<exists>m. r = Err (UpstreamUnreachable m) \<and>
        (case client_tls cl of Pinned v \<Rightarrow> m = pin_mismatch | _ \<Rightarrow> True))
      else if \<not> in_time wr cl (fake_pause (key_headers up) s)
      then r = Err (UpstreamUnreachable (str ''timed out'')) \<and> (s' = s \<or> s' = served)
      else r = as_upstream_result (wr_enc wr) reply \<and> s' = served)"

text \<open>\<open>tls.rs\<close> words a mismatch the way \<open>upstream.rs\<close> looks for it.\<close>

lemma pin_error_recognised:
  assumes "pinned_verify_server_cert dh v c = Err m" and "contains (join (str '': '') (err_chain e)) m"
  shows "short_reqwest_error e = pin_mismatch"
proof -
  have "m = str ''controller certificate '' @ str ''fingerprint mismatch'' @ (str '': pinned ''
      @ join (str '' or '') (expected v) @ str '', presented '' @ fingerprint dh c)"
    using assms(1) by (auto simp: pinned_verify_server_cert_def Let_def str_def split: if_splits)
  then have "sublist (str ''fingerprint mismatch'') m" by (metis sublist_appendI)
  with assms(2) have "contains (join (str '': '') (err_chain e)) (str ''fingerprint mismatch'')"
    unfolding contains_def by (rule sublist_order.order_trans [rotated])
  then show ?thesis by (simp add: short_reqwest_error_def pin_mismatch_def Let_def)
qed

context console_link
begin

lemma dispatch:
  assumes "op_valid op" and "up_base up = base"
  shows "console_call wr (op_request up op) = Some (fake_call_of op)"
proof -
  have d: "str ''/sites'' \<noteq> str ''/sites/{site}/hotspot/vouchers''"
    "str ''/sites'' \<noteq> str ''/sites/{site}/hotspot/vouchers/{id}''"
    "str ''/sites/{site}/hotspot/vouchers'' \<noteq> str ''/sites/{site}/hotspot/vouchers/{id}''"
    by (simp_all add: str_def)
  have "wr_target wr (req_url (op_request up op)) = (op_route op, op_query_pairs op)"
    using url [OF assms(1)] assms(2) by (simp add: op_request_def build_request_def)
  then show ?thesis
    using template [OF assms(1)] d
    by (cases op) (simp_all add: console_call_def op_request_def build_request_def fake_dispatch_def fake_routes_def)
qed

lemma at_console:
  assumes "op_valid op" and "up_base up = base"
  shows "console_pause wr (op_request up op) s = fake_pause (key_headers up) s"
    and "console_reply wr (op_request up op) s = (case fake_serve (fake_call_of op) (key_headers up) s of
       (Ok v, s') \<Rightarrow> ((200, Some (wr_enc wr v)), s')
     | (Err (st, v), s') \<Rightarrow> ((st, Some (wr_enc wr v)), s'))"
  using lower_headers [of up op] dispatch [OF assms]
  by (simp_all add: console_pause_def console_reply_def console_headers_def)

lemma answered_call:
  assumes tr: "lib_transport lib (up_client up) (op_request up op) (console w) =
      (case (reply, s') of
         (Ok v, s') \<Rightarrow> ((Ok (200, Some (wr_enc wr v)), ms), s')
       | (Err (st, v), s') \<Rightarrow> ((Ok (st, Some (wr_enc wr v)), ms), s'))"
    and fs: "fake_serve (fake_call_of op) (key_headers up) (console w) = (reply, s')"
  shows "fst (send (lib_transport lib) (lib_parse_json lib) up (op_method op) (op_path op) (op_body op) w) =
      as_upstream_result (wr_enc wr) reply \<and>
    console (snd (send (lib_transport lib) (lib_parse_json lib) up (op_method op) (op_path op) (op_body op) w)) = s'"
proof -
  have wf: "wf_json (reply_body reply)"
    using wf_reply [of "fake_call_of op" "key_headers up" "console w"] fs by simp
  show ?thesis
  proof (cases reply)
    case (Inr v)
    with tr wf show ?thesis
      using not_blank [of v] wire [of v]
      by (simp add: send_def op_request_def Let_def as_upstream_result_def reply_body_def is_success_def)
  next
    case (Inl e)
    obtain st v where e: "e = (st, v)" by (cases e)
    then have st: "st = 400 \<or> st = 401 \<or> st = 404"
      using fake_error_status [of "fake_call_of op" "key_headers up" "console w" st v] fs Inl by simp
    then have "\<not> is_success st" "status_from_u16 st = Some st"
      by (auto simp: is_success_def status_from_u16_def)
    with tr wf Inl e show ?thesis
      using not_blank [of v] wire [of v]
      by (simp add: send_def op_request_def Let_def as_upstream_result_def reply_body_def split: prod.split)
  qed
qed

lemma call_console:
  assumes "op_valid op" and "up_base (lv_upstream (live_at w li)) = base"
  shows "call_outcome wr (lv_upstream (live_at w li)) (fake_call_of op) (console w)
    (fst (upstream_call lib li op w)) (console (snd (upstream_call lib li op w)))"
proof -
  let ?up = "lv_upstream (live_at w li)" and ?s = "console w"
  let ?cl = "up_client ?up" and ?rq = "op_request ?up op"
  obtain reply s' where fs: "fake_serve (fake_call_of op) (key_headers ?up) ?s = (reply, s')"
    by (metis prod.exhaust)
  note at = at_console [OF assms(1,2)]
  have call: "upstream_call lib li op w = send (lib_transport lib) (lib_parse_json lib) ?up
      (op_method op) (op_path op) (op_body op) w"
    by (simp add: upstream_call_def perform_valid [OF assms(1)])
  have failed: "fst (upstream_call lib li op w) = Err (UpstreamUnreachable (short_reqwest_error e)) \<and>
      console (snd (upstream_call lib li op w)) = s2"
    if "lib_transport lib ?cl ?rq ?s = ((Err e, ms), s2)" for e ms s2
    using that by (simp add: call send_def op_request_def Let_def)
  consider (refused) "connects wr ?cl" "\<not> trusts wr ?cl"
    | (late) "\<not> connects wr ?cl \<or> trusts wr ?cl \<and> \<not> in_time wr ?cl (fake_pause (key_headers ?up) ?s)"
    | (served) "connects wr ?cl" "trusts wr ?cl" "in_time wr ?cl (fake_pause (key_headers ?up) ?s)" by blast
  then show ?thesis
  proof cases
    case refused
    from untrusted [OF this, of ?rq ?s] obtain e ms where tr: "lib_transport lib ?cl ?rq ?s = ((Err e, ms), ?s)"
      and pin: "case client_tls ?cl of Pinned v \<Rightarrow> \<exists>m. pinned_verify_server_cert (wr_digest wr) v (wr_cert wr) = Err m \<and>
           contains (join (str '': '') (err_chain e)) m | _ \<Rightarrow> True" by blast
    from pin have "case client_tls ?cl of Pinned v \<Rightarrow> short_reqwest_error e = pin_mismatch | _ \<Rightarrow> True"
      by (auto intro: pin_error_recognised split: tls_mode.splits)
    with failed [OF tr] refused show ?thesis by (simp add: call_outcome_def fs)
  next
    case late
    from overdue [of ?cl ?rq ?s] late obtain e ms s2 where tr: "lib_transport lib ?cl ?rq ?s = ((Err e, ms), s2)"
      and t: "err_is_timeout e" "\<not> contains (join (str '': '') (err_chain e)) (str ''fingerprint mismatch'')"
      and s2: "s2 = ?s \<or> connects wr ?cl \<and> s2 = snd (console_reply wr ?rq ?s)"
      by (auto simp: at)
    from t have "short_reqwest_error e = str ''timed out''" by (simp add: short_reqwest_error_def Let_def)
    moreover have "snd (console_reply wr ?rq ?s) = s'" by (simp add: at fs split: sum.split prod.split)
    ultimately show ?thesis using failed [OF tr] late s2 by (auto simp: call_outcome_def fs)
  next
    case served
    from exchange [of ?cl ?rq ?s] served obtain ms where tr: "lib_transport lib ?cl ?rq ?s =
        ((Ok (fst (console_reply wr ?rq ?s)), ms), snd (console_reply wr ?rq ?s))"
      by (auto simp: at)
    have "lib_transport lib ?cl ?rq ?s = (case (reply, s') of
         (Ok v, s') \<Rightarrow> ((Ok (200, Some (wr_enc wr v)), ms), s')
       | (Err (st, v), s') \<Rightarrow> ((Ok (st, Some (wr_enc wr v)), ms), s'))"
      by (simp add: tr at fs split: sum.split prod.split)
    from answered_call [OF this fs] served show ?thesis by (simp add: call_outcome_def fs call)
  qed
qed

end

section \<open>A REST operation through the proxy\<close>

lemma guarded_op_console:
  assumes link: "console_link lib wr base" and li: "li < length (lives w)"
    and base: "up_base (lv_upstream (live_at w li)) = base"
  shows "if goes_out lib li c sc site prep w
    then call_outcome wr (lv_upstream (live_at w li)) (fake_call_of (projr prep)) (console w)
      (fst (fst (guarded_op lib li c sc site a prep w))) (console (snd (guarded_op lib li c sc site a prep w)))
    else \<not> is_ok (fst (fst (guarded_op lib li c sc site a prep w))) \<and>
      console (snd (guarded_op lib li c sc site a prep w)) = console w"
proof (cases rule: guarded_op_cases [where lib = lib and li = li and c = c and sc = sc
      and site = site and a = a and prep = prep and w = w])
  case (performed op r w2)
  let ?w1 = "snd (charge lib li c a w)"
  have up: "lv_upstream (live_at ?w1 li) = lv_upstream (live_at w li)" by (rule charge_upstream [OF li])
  show ?thesis
  proof (cases "op_valid op")
    case True
    have b: "up_base (lv_upstream (live_at ?w1 li)) = base" by (simp add: up base)
    from console_link.call_console [OF link True b] performed True show ?thesis
      by (simp add: goes_out_def up)
  next
    case False
    then obtain m where "upstream_call lib li op ?w1 = (Err (BadRequest m), ?w1)"
      using perform_invalid [OF False] unfolding upstream_call_def by blast
    with performed have "r = Err (BadRequest m)" "w2 = ?w1" by simp_all
    with performed False show ?thesis by (simp add: goes_out_def)
  qed
qed (auto simp: goes_out_def)

lemma rest_run_console:
  assumes "console_link lib wr base" and "current w < length (lives w)"
    and "up_base (lv_upstream (current_live w)) = base"
  shows "if goes_out lib (current w) c (rest_scope k) (rest_site k) (rest_prep lib c k) w
    then \<exists>r. fst (rest_run lib k c w) = map_ok (rest_view c k) r \<and>
      call_outcome wr (lv_upstream (current_live w)) (fake_call_of (projr (rest_prep lib c k))) (console w)
        r (console (snd (rest_run lib k c w)))
    else \<not> is_ok (fst (rest_run lib k c w)) \<and> console (snd (rest_run lib k c w)) = console w"
  using guarded_op_console [OF assms(1,2) assms(3) [unfolded current_live_def], of c "rest_scope k"
      "rest_site k" "rest_prep lib c k" "rest_action k"]
  by (auto simp: rest_run_refines rest_finish_def rest_guarded_def current_live_def case_prod_unfold
      split: if_splits)

text \<open>When the certificate is accepted and the console is quick enough, it is the console's operation.\<close>

lemma rest_run_answered:
  assumes "console_link lib wr base" and "current w < length (lives w)"
    and "up_base (lv_upstream (current_live w)) = base"
    and "connects wr (up_client (lv_upstream (current_live w)))"
    and "trusts wr (up_client (lv_upstream (current_live w)))"
    and "in_time wr (up_client (lv_upstream (current_live w)))
      (fake_pause (key_headers (lv_upstream (current_live w))) (console w))"
    and "goes_out lib (current w) c (rest_scope k) (rest_site k) (rest_prep lib c k) w"
  shows "fst (rest_run lib k c w) = map_ok (rest_view c k) (as_upstream_result (wr_enc wr)
        (fst (fake_serve (fake_call_of (projr (rest_prep lib c k)))
          (key_headers (lv_upstream (current_live w))) (console w))))"
    and "console (snd (rest_run lib k c w)) = snd (fake_serve (fake_call_of (projr (rest_prep lib c k)))
          (key_headers (lv_upstream (current_live w))) (console w))"
  using rest_run_console [OF assms(1,2,3), of c k] assms(4-7)
  by (auto simp: call_outcome_def case_prod_unfold Let_def)


section \<open>Properties\<close>




end
