(* ===== verification/Config_Decode.thy ===== *)
theory Config_Decode
  imports Voucher_Policy
begin

text \<open>
  What the \<open>serde\<close> attributes of \<open>src/config.rs\<close> declare: the keys of every section, which are
  required, what a missing one means, and that an unknown one is an error (\<open>deny_unknown_fields\<close>). The
  input is the table \<open>figment\<close> hands over after merging the file with the environment, as a value with
  dictionaries; a section written as an array instead of a table, which a derived struct would read
  by position, is outside the model. Address, duration and timestamp texts are read by \<open>std\<close>,
  \<open>humantime\<close> and \<open>time\<close> and are parameters.
\<close>

section \<open>Reading values\<close>

record formats =
  fm_addr :: "rstr \<Rightarrow> socket_addr option"
  fm_duration :: "rstr \<Rightarrow> nat option"
  fm_instant :: "rstr \<Rightarrow> int option"

text \<open>A table none of whose keys is unknown.\<close>

definition strict_table :: "rstr list \<Rightarrow> json \<Rightarrow> (rstr \<Rightarrow> json option) option" where
  "strict_table known v = (case v of
     JObject fs \<Rightarrow> if list_all (\<lambda>(k, _). k \<in> set known) fs then Some (bt_get fs) else None
   | _ \<Rightarrow> None)"

definition de_text :: "(rstr \<Rightarrow> 'a option) \<Rightarrow> json \<Rightarrow> 'a option" where
  "de_text read v = Option.bind (value_as_str v) read"

definition de_list :: "(json \<Rightarrow> 'a option) \<Rightarrow> json \<Rightarrow> 'a list option" where
  "de_list de v = Option.bind (value_as_array v) (\<lambda>xs. those (map de xs))"

definition de_opt :: "(json \<Rightarrow> 'a option) \<Rightarrow> json \<Rightarrow> 'a option option" where
  "de_opt de v = (case v of JNull \<Rightarrow> Some None | _ \<Rightarrow> map_option Some (de v))"

definition de_usize :: "json \<Rightarrow> nat option" where
  "de_usize v = map_option unat (de_u64 v)"

section \<open>The sections\<close>

definition server_keys :: "rstr list" where
  "server_keys = map str [''bind'', ''upstream_timeout'', ''max_body_bytes'', ''metrics_bind'',
     ''graphql_playground'']"

definition decode_server :: "formats \<Rightarrow> json \<Rightarrow> server_config option" where
  "decode_server fm v =
     Option.bind (strict_table server_keys v) (\<lambda>f.
     Option.bind (field_or (Some default_bind) (de_text (fm_addr fm)) (f (str ''bind''))) (\<lambda>b.
     Option.bind (field_or (Some default_timeout) (de_text (fm_duration fm)) (f (str ''upstream_timeout''))) (\<lambda>t.
     Option.bind (field_or (Some default_body_limit) de_usize (f (str ''max_body_bytes''))) (\<lambda>n.
     Option.bind (field_or (Some None) (de_opt (de_text (fm_addr fm))) (f (str ''metrics_bind''))) (\<lambda>m.
     Option.bind (field_or (Some False) value_as_bool (f (str ''graphql_playground''))) (\<lambda>g.
       Some \<lparr>bind_addr = b, upstream_timeout = t, max_body_bytes = n, metrics_bind = m,
         graphql_playground = g\<rparr>))))))"

definition tls_keys :: "rstr list" where
  "tls_keys = map str [''fingerprint_sha256'', ''insecure_skip_verify'', ''silence_insecure_warning'',
     ''allow_plaintext'']"

definition decode_tls :: "json \<Rightarrow> tls_config option" where
  "decode_tls v =
     Option.bind (strict_table tls_keys v) (\<lambda>f.
     Option.bind (field_or (Some None) (\<lambda>x. map_option Some (one_or_many x)) (f (str ''fingerprint_sha256''))) (\<lambda>fp.
     Option.bind (field_or (Some False) value_as_bool (f (str ''insecure_skip_verify''))) (\<lambda>i.
     Option.bind (field_or (Some False) value_as_bool (f (str ''silence_insecure_warning''))) (\<lambda>s.
     Option.bind (field_or (Some False) value_as_bool (f (str ''allow_plaintext''))) (\<lambda>p.
       Some \<lparr>fingerprint_sha256 = fp, insecure_skip_verify = i, silence_insecure_warning = s,
         allow_plaintext = p\<rparr>)))))"

definition controller_keys :: "rstr list" where
  "controller_keys = map str [''host'', ''api_key'', ''tls'']"

definition decode_controller :: "json \<Rightarrow> controller_config option" where
  "decode_controller v =
     Option.bind (strict_table controller_keys v) (\<lambda>f.
     Option.bind (field_or None value_as_str (f (str ''host''))) (\<lambda>h.
     Option.bind (field_or None secret_deserialize (f (str ''api_key''))) (\<lambda>k.
     Option.bind (field_or (Some default_tls) decode_tls (f (str ''tls''))) (\<lambda>t.
       Some \<lparr>host = h, api_key = k, tls = t\<rparr>))))"

definition limits_keys :: "rstr list" where
  "limits_keys = map str [''max_vouchers_per_request'', ''max_validity_minutes'',
     ''rate_limit_per_minute'', ''rate_limit_per_ip_per_minute'']"

definition decode_limits :: "json \<Rightarrow> limits option" where
  "decode_limits v =
     Option.bind (strict_table limits_keys v) (\<lambda>f.
     Option.bind (field_or (Some default_max_vouchers) de_u32 (f (str ''max_vouchers_per_request''))) (\<lambda>mv.
     Option.bind (field_or (Some default_max_validity) de_u64 (f (str ''max_validity_minutes''))) (\<lambda>mm.
     Option.bind (field_or (Some default_rate_limit) de_u32 (f (str ''rate_limit_per_minute''))) (\<lambda>r.
     Option.bind (field_or (Some default_pre_auth_rate_limit) de_u32 (f (str ''rate_limit_per_ip_per_minute''))) (\<lambda>ip.
       Some \<lparr>max_vouchers_per_request = mv, max_validity_minutes = mm, rate_limit_per_minute = r,
         rate_limit_per_ip_per_minute = ip\<rparr>)))))"

definition token_keys :: "rstr list" where
  "token_keys = map str [''name'', ''hash'', ''sites'', ''scopes'', ''max_vouchers_per_request'',
     ''max_validity_minutes'', ''rate_limit_per_minute'', ''expires_at'']"

definition decode_token :: "formats \<Rightarrow> json \<Rightarrow> token_config option" where
  "decode_token fm v =
     Option.bind (strict_table token_keys v) (\<lambda>f.
     Option.bind (field_or None value_as_str (f (str ''name''))) (\<lambda>n.
     Option.bind (field_or None value_as_str (f (str ''hash''))) (\<lambda>h.
     Option.bind (field_or (Some default_sites) (de_list value_as_str) (f (str ''sites''))) (\<lambda>ss.
     Option.bind (field_or (Some default_scopes) (de_list (de_text scope_of_wire)) (f (str ''scopes''))) (\<lambda>scs.
     Option.bind (field_or (Some None) (de_opt de_u32) (f (str ''max_vouchers_per_request''))) (\<lambda>mv.
     Option.bind (field_or (Some None) (de_opt de_u64) (f (str ''max_validity_minutes''))) (\<lambda>mm.
     Option.bind (field_or (Some None) (de_opt de_u32) (f (str ''rate_limit_per_minute''))) (\<lambda>r.
     Option.bind (field_or (Some None) (de_opt (de_text (fm_instant fm))) (f (str ''expires_at''))) (\<lambda>e.
       Some \<lparr>tok_name = n, tok_hash = h, tok_sites = ss, tok_scopes = scs, tok_max_vouchers = mv,
         tok_max_validity = mm, tok_rate_limit = r, tok_expires_at = e\<rparr>)))))))))"

definition config_keys :: "rstr list" where
  "config_keys = map str [''server'', ''controller'', ''limits'', ''tokens'']"

definition decode_config :: "formats \<Rightarrow> json \<Rightarrow> config option" where
  "decode_config fm v =
     Option.bind (strict_table config_keys v) (\<lambda>f.
     Option.bind (field_or (Some default_server) (decode_server fm) (f (str ''server''))) (\<lambda>s.
     Option.bind (field_or None decode_controller (f (str ''controller''))) (\<lambda>c.
     Option.bind (field_or (Some default_limits) decode_limits (f (str ''limits''))) (\<lambda>l.
     Option.bind (field_or (Some []) (de_list (decode_token fm)) (f (str ''tokens''))) (\<lambda>ts.
       Some \<lparr>cfg_server = s, cfg_controller = c, cfg_limits = l, cfg_tokens = ts\<rparr>)))))"

text \<open>
  The \<open>extract\<close> of \<open>Config::load\<close>: \<open>merged\<close> is figment's table for the path, \<open>why\<close> the wording of its
  error.
\<close>

definition figment_extract :: "formats \<Rightarrow> (json \<Rightarrow> rstr) \<Rightarrow> (rstr option \<Rightarrow> (json, anyhow) result)
    \<Rightarrow> rstr option \<Rightarrow> (config, anyhow) result" where
  "figment_extract fm why merged path = and_then (merged path) (\<lambda>v. case decode_config fm v of
     None \<Rightarrow> Err [why v] | Some cfg \<Rightarrow> Ok cfg)"

section \<open>Unknown keys\<close>

definition keys_of :: "json \<Rightarrow> rstr set" where
  "keys_of v = (case v of JObject fs \<Rightarrow> fst ` set fs | _ \<Rightarrow> {})"

text \<open>Every section present has only keys of its struct.\<close>

definition known_keys :: "json \<Rightarrow> bool" where
  "known_keys v \<longleftrightarrow> keys_of v \<subseteq> set config_keys \<and>
     (\<forall>s. get v (str ''server'') = Some s \<longrightarrow> keys_of s \<subseteq> set server_keys) \<and>
     (\<forall>c. get v (str ''controller'') = Some c \<longrightarrow> keys_of c \<subseteq> set controller_keys \<and>
        (\<forall>t. get c (str ''tls'') = Some t \<longrightarrow> keys_of t \<subseteq> set tls_keys)) \<and>
     (\<forall>l. get v (str ''limits'') = Some l \<longrightarrow> keys_of l \<subseteq> set limits_keys) \<and>
     (\<forall>ts. get v (str ''tokens'') = Some (JArray ts) \<longrightarrow> (\<forall>t \<in> set ts. keys_of t \<subseteq> set token_keys))"

lemma strict_table_Some: "strict_table known v = Some f \<Longrightarrow> f = get v \<and> keys_of v \<subseteq> set known"
  by (auto simp: strict_table_def keys_of_def get_def list_all_iff split: json.splits if_splits)

lemma field_or_present: "field_or missing de (Some x) = de x" "field_or missing de None = missing"
  by (simp_all add: field_or_def)

lemma decode_server_keys: "decode_server fm v = Some s \<Longrightarrow> keys_of v \<subseteq> set server_keys"
  by (auto simp: decode_server_def bind_eq_Some_conv dest: strict_table_Some)

lemma decode_tls_keys: "decode_tls v = Some t \<Longrightarrow> keys_of v \<subseteq> set tls_keys"
  by (auto simp: decode_tls_def bind_eq_Some_conv dest: strict_table_Some)

lemma decode_limits_keys: "decode_limits v = Some l \<Longrightarrow> keys_of v \<subseteq> set limits_keys"
  by (auto simp: decode_limits_def bind_eq_Some_conv dest: strict_table_Some)

lemma decode_token_keys: "decode_token fm v = Some t \<Longrightarrow> keys_of v \<subseteq> set token_keys"
  by (auto simp: decode_token_def bind_eq_Some_conv dest: strict_table_Some)

lemma decode_controller_keys:
  assumes "decode_controller v = Some c"
  shows "keys_of v \<subseteq> set controller_keys \<and>
    (\<forall>t. get v (str ''tls'') = Some t \<longrightarrow> keys_of t \<subseteq> set tls_keys)"
proof -
  from assms obtain f t where f: "strict_table controller_keys v = Some f"
    and t: "field_or (Some default_tls) decode_tls (f (str ''tls'')) = Some t"
    by (auto simp: decode_controller_def bind_eq_Some_conv)
  from strict_table_Some [OF f] t show ?thesis
    by (auto simp: field_or_present dest!: decode_tls_keys)
qed

lemma de_list_Some: "de_list de (JArray xs) = Some ys \<Longrightarrow> x \<in> set xs \<Longrightarrow> \<exists>y. de x = Some y"
proof -
  have "those (map de xs) = Some ys \<Longrightarrow> x \<in> set xs \<Longrightarrow> \<exists>y. de x = Some y" for ys
    by (induction xs arbitrary: ys) (auto split: option.splits)
  then show "de_list de (JArray xs) = Some ys \<Longrightarrow> x \<in> set xs \<Longrightarrow> \<exists>y. de x = Some y"
    by (simp add: de_list_def value_as_array_def)
qed

lemma decode_config_known:
  assumes "decode_config fm v = Some cfg"
  shows "known_keys v"
proof -
  from assms obtain f s c l ts where f: "strict_table config_keys v = Some f"
    and s: "field_or (Some default_server) (decode_server fm) (f (str ''server'')) = Some s"
    and c: "field_or None decode_controller (f (str ''controller'')) = Some c"
    and l: "field_or (Some default_limits) decode_limits (f (str ''limits'')) = Some l"
    and ts: "field_or (Some []) (de_list (decode_token fm)) (f (str ''tokens'')) = Some ts"
    by (auto simp: decode_config_def bind_eq_Some_conv)
  from strict_table_Some [OF f] have g: "f = get v" "keys_of v \<subseteq> set config_keys" by simp_all
  have "keys_of x \<subseteq> set server_keys" if "get v (str ''server'') = Some x" for x
    using s that decode_server_keys by (simp add: g(1) field_or_present)
  moreover have "keys_of x \<subseteq> set limits_keys" if "get v (str ''limits'') = Some x" for x
    using l that decode_limits_keys by (simp add: g(1) field_or_present)
  moreover have "keys_of x \<subseteq> set controller_keys \<and>
      (\<forall>t. get x (str ''tls'') = Some t \<longrightarrow> keys_of t \<subseteq> set tls_keys)"
    if "get v (str ''controller'') = Some x" for x
    using c that decode_controller_keys by (simp add: g(1) field_or_present)
  moreover have "keys_of t \<subseteq> set token_keys" if "get v (str ''tokens'') = Some (JArray xs)" "t \<in> set xs"
    for xs t
    using ts that de_list_Some [of "decode_token fm" xs ts t] decode_token_keys
    by (auto simp: g(1) field_or_present)
  ultimately show ?thesis using g(2) by (simp add: known_keys_def)
qed

section \<open>Writing a configuration\<close>

text \<open>A configuration file that says everything, an absent optional value by leaving its key out.\<close>

record printers =
  pr_addr :: "socket_addr \<Rightarrow> rstr"
  pr_duration :: "nat \<Rightarrow> rstr"
  pr_instant :: "int \<Rightarrow> rstr"

definition reads_back :: "formats \<Rightarrow> printers \<Rightarrow> bool" where
  "reads_back fm pr \<longleftrightarrow> (\<forall>a. fm_addr fm (pr_addr pr a) = Some a) \<and>
     (\<forall>d. fm_duration fm (pr_duration pr d) = Some d) \<and> (\<forall>t. fm_instant fm (pr_instant pr t) = Some t)"

lemma reads_backD:
  assumes "reads_back fm pr"
  shows "fm_addr fm (pr_addr pr a) = Some a" "fm_duration fm (pr_duration pr d) = Some d"
    "fm_instant fm (pr_instant pr t) = Some t"
  using assms unfolding reads_back_def by blast+

definition opt_entry :: "rstr \<Rightarrow> ('a \<Rightarrow> json) \<Rightarrow> 'a option \<Rightarrow> (rstr \<times> json) list" where
  "opt_entry k en v = (case v of None \<Rightarrow> [] | Some x \<Rightarrow> [(k, en x)])"

definition en_list :: "('a \<Rightarrow> json) \<Rightarrow> 'a list \<Rightarrow> json" where
  "en_list en xs = JArray (map en xs)"

definition server_entries :: "printers \<Rightarrow> server_config \<Rightarrow> (rstr \<times> json) list" where
  "server_entries pr s =
     [(str ''bind'', JString (pr_addr pr (bind_addr s))),
      (str ''upstream_timeout'', JString (pr_duration pr (upstream_timeout s))),
      (str ''max_body_bytes'', ser_u64 (of_nat (max_body_bytes s))),
      (str ''graphql_playground'', JBool (graphql_playground s))]
     @ opt_entry (str ''metrics_bind'') (\<lambda>a. JString (pr_addr pr a)) (metrics_bind s)"

definition tls_entries :: "tls_config \<Rightarrow> (rstr \<times> json) list" where
  "tls_entries t =
     [(str ''insecure_skip_verify'', JBool (insecure_skip_verify t)),
      (str ''silence_insecure_warning'', JBool (silence_insecure_warning t)),
      (str ''allow_plaintext'', JBool (allow_plaintext t))]
     @ opt_entry (str ''fingerprint_sha256'') (en_list JString) (fingerprint_sha256 t)"

definition controller_entries :: "controller_config \<Rightarrow> (rstr \<times> json) list" where
  "controller_entries c =
     [(str ''host'', JString (host c)), (str ''api_key'', JString (expose (api_key c))),
      (str ''tls'', json_object (tls_entries (tls c)))]"

definition limits_entries :: "limits \<Rightarrow> (rstr \<times> json) list" where
  "limits_entries l =
     [(str ''max_vouchers_per_request'', ser_u32 (max_vouchers_per_request l)),
      (str ''max_validity_minutes'', ser_u64 (max_validity_minutes l)),
      (str ''rate_limit_per_minute'', ser_u32 (rate_limit_per_minute l)),
      (str ''rate_limit_per_ip_per_minute'', ser_u32 (rate_limit_per_ip_per_minute l))]"

definition token_entries :: "printers \<Rightarrow> token_config \<Rightarrow> (rstr \<times> json) list" where
  "token_entries pr t =
     [(str ''name'', JString (tok_name t)), (str ''hash'', JString (tok_hash t)),
      (str ''sites'', en_list JString (tok_sites t)),
      (str ''scopes'', en_list (\<lambda>s. JString (scope_as_str s)) (tok_scopes t))]
     @ opt_entry (str ''max_vouchers_per_request'') ser_u32 (tok_max_vouchers t)
     @ opt_entry (str ''max_validity_minutes'') ser_u64 (tok_max_validity t)
     @ opt_entry (str ''rate_limit_per_minute'') ser_u32 (tok_rate_limit t)
     @ opt_entry (str ''expires_at'') (\<lambda>e. JString (pr_instant pr e)) (tok_expires_at t)"

definition write_config :: "printers \<Rightarrow> config \<Rightarrow> json" where
  "write_config pr cfg = json_object
     [(str ''server'', json_object (server_entries pr (cfg_server cfg))),
      (str ''controller'', json_object (controller_entries (cfg_controller cfg))),
      (str ''limits'', json_object (limits_entries (cfg_limits cfg))),
      (str ''tokens'', en_list (\<lambda>t. json_object (token_entries pr t)) (cfg_tokens cfg))]"

subsection \<open>One law per combinator\<close>

lemma strict_json_object:
  assumes "distinct (map fst es)" and "fst ` set es \<subseteq> set known"
  shows "strict_table known (json_object es) = Some (map_of es)"
proof -
  have "fst ` set (bt_of_list es) \<subseteq> set known" using assms(2) by (simp only: keys_bt_of_list)
  then have "\<forall>p \<in> set (bt_of_list es). fst p \<in> set known" by blast
  then have "list_all (\<lambda>(k, _). k \<in> set known) (bt_of_list es)"
    by (simp add: list_all_iff case_prod_unfold)
  then show ?thesis
    by (simp add: strict_table_def json_object_def bt_get_of_list [OF assms(1)])
qed

lemma de_en_list: "(\<And>x. de (en x) = Some x) \<Longrightarrow> de_list de (en_list en xs) = Some xs"
proof -
  assume d: "\<And>x. de (en x) = Some x"
  have "those (map (de \<circ> en) xs) = Some xs" by (induction xs) (simp_all add: d)
  then show ?thesis by (simp add: de_list_def en_list_def value_as_array_def)
qed

lemma de_text_JString [simp]: "de_text read (JString s) = read s"
  by (simp add: de_text_def value_as_str_def)

lemma scope_wire [simp]: "scope_of_wire (scope_as_str s) = Some s"
  by (cases s) (simp_all add: scope_of_wire_def)

lemma one_or_many_list [simp]: "one_or_many (en_list JString xs) = Some xs"
proof -
  have "filter_map (value_as_str \<circ> JString) xs = xs" for xs
    by (induction xs) (simp_all add: value_as_str_def)
  moreover have "filter_map value_as_str (map JString xs) = filter_map (value_as_str \<circ> JString) xs"
    by (induction xs) simp_all
  ultimately show ?thesis by (simp add: one_or_many_def en_list_def list_all_iff value_as_str_def)
qed

lemma de_opt_value: "v \<noteq> JNull \<Longrightarrow> de_opt de v = map_option Some (de v)"
  by (cases v) (simp_all add: de_opt_def)

lemma de_opt_some [simp]:
  "de_opt (de_text read) (JString s) = map_option Some (read s)"
  "de_opt de_u32 (ser_u32 w) = Some (Some w)" "de_opt de_u64 (ser_u64 v) = Some (Some v)"
proof -
  have "ser_u32 w \<noteq> JNull" "ser_u64 v \<noteq> JNull" by (simp_all add: ser_u32_def ser_u64_def)
  then show "de_opt de_u32 (ser_u32 w) = Some (Some w)" "de_opt de_u64 (ser_u64 v) = Some (Some v)"
    by (simp_all add: de_opt_value)
qed (simp add: de_opt_value)

lemma de_usize_ser: "n < 2 ^ 64 \<Longrightarrow> de_usize (ser_u64 (of_nat n)) = Some n"
  by (simp add: de_usize_def unsigned_of_nat take_bit_nat_eq_self)

lemma map_of_opt_entry [simp]:
  "map_of (opt_entry k en v) = (\<lambda>k'. if k' = k then map_option en v else None)"
  by (auto simp: opt_entry_def fun_eq_iff split: option.split)

lemma fst_opt_entry [simp]: "fst ` set (opt_entry k en v) = (if v = None then {} else {k})"
  by (cases v) (simp_all add: opt_entry_def)

lemma field_or_map_option:
  "(\<And>x. de (en x) = Some (Some x)) \<Longrightarrow> field_or (Some None) de (map_option en v) = Some v"
  by (cases v) (simp_all add: field_or_def)

lemma opt_entry_key: "(a, b) \<in> set (opt_entry k en v) \<Longrightarrow> a = k"
  by (cases v) (simp_all add: opt_entry_def)

lemma distinct_opt_entry [simp]: "distinct (map fst (opt_entry k en v))"
  by (cases v) (simp_all add: opt_entry_def)

subsection \<open>One law per section\<close>

lemma decode_server_entries:
  assumes "reads_back fm pr" and "max_body_bytes s < 2 ^ 64"
  shows "decode_server fm (json_object (server_entries pr s)) = Some s"
proof -
  have "strict_table server_keys (json_object (server_entries pr s)) = Some (map_of (server_entries pr s))"
    by (rule strict_json_object) (auto simp: server_entries_def server_keys_def dest: opt_entry_key)
  then show ?thesis
    using assms(2)
    by (simp add: decode_server_def server_entries_def reads_backD [OF assms(1)] field_or_present
        field_or_map_option de_usize_ser value_as_bool_def)
qed

lemma decode_tls_entries: "decode_tls (json_object (tls_entries t)) = Some t"
proof -
  have "strict_table tls_keys (json_object (tls_entries t)) = Some (map_of (tls_entries t))"
    by (rule strict_json_object) (auto simp: tls_entries_def tls_keys_def dest: opt_entry_key)
  then show ?thesis
    by (simp add: decode_tls_def tls_entries_def field_or_present field_or_map_option value_as_bool_def)
qed

lemma decode_controller_entries: "decode_controller (json_object (controller_entries c)) = Some c"
proof -
  have "strict_table controller_keys (json_object (controller_entries c)) = Some (map_of (controller_entries c))"
    by (rule strict_json_object) (auto simp: controller_entries_def controller_keys_def)
  moreover have "Secret (expose (api_key c)) = api_key c" by (cases "api_key c") simp
  ultimately show ?thesis
    by (simp add: decode_controller_def controller_entries_def field_or_present decode_tls_entries
        secret_deserialize_def value_as_str_def)
qed

lemma decode_limits_entries: "decode_limits (json_object (limits_entries l)) = Some l"
proof -
  have "strict_table limits_keys (json_object (limits_entries l)) = Some (map_of (limits_entries l))"
    by (rule strict_json_object) (auto simp: limits_entries_def limits_keys_def)
  then show ?thesis by (simp add: decode_limits_def limits_entries_def field_or_present)
qed

lemma decode_token_entries:
  assumes "reads_back fm pr"
  shows "decode_token fm (json_object (token_entries pr t)) = Some t"
proof -
  have "strict_table token_keys (json_object (token_entries pr t)) = Some (map_of (token_entries pr t))"
    by (rule strict_json_object) (auto simp: token_entries_def token_keys_def dest: opt_entry_key)
  then show ?thesis
    by (cases "tok_max_vouchers t"; cases "tok_max_validity t"; cases "tok_rate_limit t")
       (simp_all add: decode_token_def token_entries_def reads_backD [OF assms] field_or_present
          map_add_def field_or_map_option de_en_list value_as_str_def)
qed

lemma decode_write_config:
  assumes "reads_back fm pr" and "max_body_bytes (cfg_server cfg) < 2 ^ 64"
  shows "decode_config fm (write_config pr cfg) = Some cfg"
proof -
  let ?es = "[(str ''server'', json_object (server_entries pr (cfg_server cfg))),
      (str ''controller'', json_object (controller_entries (cfg_controller cfg))),
      (str ''limits'', json_object (limits_entries (cfg_limits cfg))),
      (str ''tokens'', en_list (\<lambda>t. json_object (token_entries pr t)) (cfg_tokens cfg))]"
  have "strict_table config_keys (json_object ?es) = Some (map_of ?es)"
    by (rule strict_json_object) (auto simp: config_keys_def)
  then show ?thesis
    using decode_server_entries [OF assms] decode_token_entries [OF assms(1)]
    by (simp add: decode_config_def write_config_def field_or_present decode_controller_entries
        decode_limits_entries de_en_list)
qed

section \<open>Properties\<close>

text \<open>
  C32. A misspelt key stops the proxy from starting. Whatever the file and the environment merge to, a
  configuration that loads came from a table in which every key of every section, of the TLS section
  and of every token is one the program knows.
\<close>

theorem misspelt_keys_refused:
  assumes "load ex (figment_extract fm why merged) path = Ok cfg"
  shows "\<exists>v. merged path = Ok v \<and> decode_config fm v = Some cfg \<and> known_keys v"
proof -
  from assms obtain v where "merged path = Ok v" "decode_config fm v = Some cfg"
    by (auto simp: load_Ok_iff figment_extract_def and_then_Ok_iff split: option.splits)
  then show ?thesis using decode_config_known by blast
qed

text \<open>
  C31. Every configuration can be written down, and what was written is what runs: when addresses,
  durations and timestamps read back as printed, loading the file that spells a valid configuration
  out yields exactly that configuration.
\<close>

theorem written_config_loads_back:
  assumes "reads_back fm pr" and "max_body_bytes (cfg_server cfg) < 2 ^ 64" and "valid_config cfg"
    and "ex p"
  shows "load ex (figment_extract fm why (\<lambda>_. Ok (write_config pr cfg))) (Some p) = Ok cfg"
  using decode_write_config [OF assms(1,2)] assms(3,4) by (simp add: load_Ok_iff figment_extract_def)

text \<open>
  The smallest file: a host, a key and tokens with a name and a hash. Everything else has the
  documented default; in particular such a token has every site and every scope.
\<close>

definition smallest_file :: "rstr \<Rightarrow> rstr \<Rightarrow> (rstr \<times> rstr) list \<Rightarrow> json" where
  "smallest_file h k ts = json_object
     [(str ''controller'', json_object [(str ''host'', JString h), (str ''api_key'', JString k)]),
      (str ''tokens'', en_list (\<lambda>(n, hash). json_object [(str ''name'', JString n),
         (str ''hash'', JString hash)]) ts)]"

lemma decode_smallest_token:
  "decode_token fm (json_object [(str ''name'', JString n), (str ''hash'', JString hash)]) =
     Some (bare_token n hash default_sites default_scopes)"
  by (simp add: decode_token_def strict_json_object token_keys_def field_or_def value_as_str_def
      bare_token_def)

lemma decode_smallest_file:
  "decode_config fm (smallest_file h k ts) = Some \<lparr>cfg_server = default_server,
     cfg_controller = \<lparr>host = h, api_key = Secret k, tls = default_tls\<rparr>, cfg_limits = default_limits,
     cfg_tokens = map (\<lambda>(n, hash). bare_token n hash default_sites default_scopes) ts\<rparr>"
proof -
  have "de_list (decode_token fm) (en_list (\<lambda>(n, hash). json_object [(str ''name'', JString n),
      (str ''hash'', JString hash)]) ts) =
      Some (map (\<lambda>(n, hash). bare_token n hash default_sites default_scopes) ts)"
  proof -
    have "those (map (decode_token fm \<circ> (\<lambda>(n, hash). json_object [(str ''name'', JString n),
        (str ''hash'', JString hash)])) ts) =
        Some (map (\<lambda>(n, hash). bare_token n hash default_sites default_scopes) ts)"
      by (induction ts) (simp_all add: case_prod_unfold decode_smallest_token)
    then show ?thesis by (simp add: de_list_def en_list_def value_as_array_def)
  qed
  then show ?thesis
    by (simp add: decode_config_def smallest_file_def strict_json_object config_keys_def field_or_def
        decode_controller_def controller_keys_def value_as_str_def secret_deserialize_def)
qed

end
