(* ===== verification/Console_Startup.thy ===== *)
theory Console_Startup
  imports Console_Link Command_Line Config_Decode
begin

text \<open>
  The \<open>main\<close> of \<open>src/bin/fake_controller.rs\<close>: what the stand-in console prints and the state it starts
  with, and that the settings it prints make the proxy trust it, reach it and be let in. The
  generated certificate (\<open>rcgen\<close>) and the listener (\<open>axum_server\<close>) are the caller's.
\<close>

section \<open>main\<close>

definition fake_banner :: "fake_settings \<Rightarrow> rstr \<Rightarrow> rstr list" where
  "fake_banner cfg fp =
     [str ''fake UniFi console on https://'' @ show_socket (fk_bind cfg),
      str ''  api key      '' @ fk_api_key cfg,
      str ''  fingerprint  '' @ fp,
      [],
      str ''Point the proxy at it:'',
      str ''  UVP_CONTROLLER__HOST=https://'' @ show_socket (fk_bind cfg) @ [32, 92],
      str ''  UVP_CONTROLLER__API_KEY='' @ fk_api_key cfg @ [32, 92],
      str ''  UVP_CONTROLLER__TLS__FINGERPRINT_SHA256='' @ fp @ [32, 92],
      str ''    unifi-voucher-proxy serve --config config.toml'']"

text \<open>
  Up to the listener: the console to serve, unless only the fingerprint was asked for, and what was
  printed. \<open>cert\<close> is the generated certificate.
\<close>

definition fake_main :: "(certificate \<Rightarrow> rstr) \<Rightarrow> (certificate, anyhow) result \<Rightarrow> fake_settings
    \<Rightarrow> (fake_console option, anyhow) result \<times> rstr" where
  "fake_main digest_hex cert cfg = (case cert of
     Err e \<Rightarrow> (Err e, [])
   | Ok der \<Rightarrow>
       (let fp = digest_hex der in
        if fk_print_fingerprint cfg then (Ok None, println fp)
        else (Ok (Some \<lparr>fc_cfg = cfg, fc_vouchers = Map.empty, fc_next = 1\<rparr>),
              concat (map println (fake_banner cfg fp)))))"

section \<open>Reading the banner\<close>

text \<open>
  The values on the printed lines that name a variable of the proxy: what stands between the equals
  sign and the blank before the backslash. What a shell and the environment reader of figment do to
  such a text on its way into the configuration is theirs and not modelled.
\<close>

definition assignment :: "rstr \<Rightarrow> (rstr \<times> rstr) option" where
  "assignment printed =
     (let l = drop 2 printed in
      if starts_with l (str ''UVP_'')
      then Some (takeWhile (\<lambda>c. c \<noteq> 61) l,
             takeWhile (\<lambda>c. c \<noteq> 32) (drop 1 (dropWhile (\<lambda>c. c \<noteq> 61) l)))
      else None)"

definition printed_value :: "rstr \<Rightarrow> rstr \<Rightarrow> rstr option" where
  "printed_value text name = map_of (filter_map assignment (split_on 10 text)) name"

text \<open>A \<open>[controller]\<close> table with these texts as its values.\<close>

definition controller_table :: "rstr \<Rightarrow> rstr \<Rightarrow> rstr \<Rightarrow> json" where
  "controller_table h key fp = json_object
     [(str ''host'', JString h), (str ''api_key'', JString key),
      (str ''tls'', json_object [(str ''fingerprint_sha256'', JString fp)])]"

section \<open>What is printed has no blanks in it\<close>

abbreviation visible :: "nat \<Rightarrow> bool" where
  "visible c \<equiv> 33 \<le> c \<and> c < 127"

lemma visible_show_hex: "list_all visible (show_hex n)"
proof (induction n rule: show_hex.induct)
  case (1 n)
  have "n mod 16 < 16" by simp
  then have d: "visible (if n mod 16 < 10 then 48 + n mod 16 else 87 + n mod 16)" by auto
  show ?case
  proof (cases "n < 16")
    case True
    with d show ?thesis by (subst show_hex.simps) (simp add: Let_def)
  next
    case False
    with d 1 [OF refl] show ?thesis by (subst show_hex.simps) (simp add: Let_def)
  qed
qed

lemma visible_show_nat: "list_all visible (show_nat n)"
  using show_nat_digits [of n] by (rule list.pred_mono_strong) (simp add: is_ascii_digit_def)

lemma list_all_join: "list_all P sep \<Longrightarrow> list_all (list_all P) xs \<Longrightarrow> list_all P (join sep xs)"
  by (induction sep xs rule: join.induct) simp_all

lemma visible_join_nat: "list_all visible (join [46] (map show_nat ns))"
  by (rule list_all_join) (use visible_show_nat in \<open>auto simp: list_all_iff\<close>)

lemma visible_segments: "list_all visible (show_segments segs)"
  unfolding show_segments_def
  by (rule list_all_join) (use visible_show_hex in \<open>auto simp: list_all_iff\<close>)

lemma visible_show_v6: "list_all visible (show_v6 a)"
proof -
  have "list_all visible (str ''::ffff:'')" "list_all visible (str ''::'')" by (simp_all add: str_def)
  then show ?thesis
    using visible_join_nat visible_segments
    by (simp add: show_v6_def Let_def case_prod_unfold)
qed

lemma visible_show_socket: "list_all visible (show_socket a)"
  using visible_join_nat visible_show_nat visible_show_v6
  by (cases a; cases "fst a") (auto simp: show_socket_def)

lemma show_socket_last: "is_ascii_digit (last (show_socket a)) \<and> show_socket a \<noteq> []"
proof -
  have "last (show_nat n) \<in> set (show_nat n)" for n by (rule last_in_set) simp
  then have "is_ascii_digit (last (show_nat n))" for n
    using show_nat_digits [of n] unfolding list_all_iff by blast
  then show ?thesis by (cases a; cases "fst a") (simp_all add: show_socket_def)
qed

lemma visible_no_blank: "list_all visible s \<Longrightarrow> 10 \<notin> set s \<and> 32 \<notin> set s"
  by (auto simp: list_all_iff)

lemma takeWhile_value: "c \<notin> set s \<Longrightarrow> takeWhile (\<lambda>x. x \<noteq> c) (s @ c # t) = s"
  by (induction s) auto

section \<open>The banner read back\<close>

lemma split_on_lines: "list_all (\<lambda>l. 10 \<notin> set l) ls \<Longrightarrow> split_on 10 (concat (map println ls)) = ls @ [[]]"
  by (induction ls) (simp_all add: println_def split_on_append)

lemma banner_values:
  assumes "list_all visible (fk_api_key cfg)" and "list_all visible fp"
  shows "printed_value (concat (map println (fake_banner cfg fp))) (str ''UVP_CONTROLLER__HOST'') =
      Some (str ''https://'' @ show_socket (fk_bind cfg))"
    and "printed_value (concat (map println (fake_banner cfg fp))) (str ''UVP_CONTROLLER__API_KEY'') =
      Some (fk_api_key cfg)"
    and "printed_value (concat (map println (fake_banner cfg fp)))
      (str ''UVP_CONTROLLER__TLS__FINGERPRINT_SHA256'') = Some fp"
proof -
  note blanks = visible_no_blank [OF assms(1)] visible_no_blank [OF assms(2)]
    visible_no_blank [OF visible_show_socket [of "fk_bind cfg"]]
  have "list_all (\<lambda>l. 10 \<notin> set l) (fake_banner cfg fp)"
    using blanks by (simp add: fake_banner_def str_def)
  moreover have "filter_map assignment (fake_banner cfg fp @ [[]]) =
     [(str ''UVP_CONTROLLER__HOST'', str ''https://'' @ show_socket (fk_bind cfg)),
      (str ''UVP_CONTROLLER__API_KEY'', fk_api_key cfg),
      (str ''UVP_CONTROLLER__TLS__FINGERPRINT_SHA256'', fp)]"
    using blanks
    by (simp add: fake_banner_def assignment_def starts_with_def str_def takeWhile_value Let_def)
  ultimately show "printed_value (concat (map println (fake_banner cfg fp))) (str ''UVP_CONTROLLER__HOST'') =
      Some (str ''https://'' @ show_socket (fk_bind cfg))"
    "printed_value (concat (map println (fake_banner cfg fp))) (str ''UVP_CONTROLLER__API_KEY'') =
      Some (fk_api_key cfg)"
    "printed_value (concat (map println (fake_banner cfg fp)))
      (str ''UVP_CONTROLLER__TLS__FINGERPRINT_SHA256'') = Some fp"
    by (simp_all add: printed_value_def split_on_lines str_def)
qed

definition pasted_controller :: "fake_settings \<Rightarrow> rstr \<Rightarrow> controller_config" where
  "pasted_controller cfg fp = \<lparr>host = str ''https://'' @ show_socket (fk_bind cfg),
     api_key = Secret (fk_api_key cfg), tls = default_tls\<lparr>fingerprint_sha256 := Some [fp]\<rparr>\<rparr>"

lemma decode_pasted:
  "decode_controller (controller_table (str ''https://'' @ show_socket (fk_bind cfg)) (fk_api_key cfg) fp) =
     Some (pasted_controller cfg fp)"
proof -
  let ?tls = "[(str ''fingerprint_sha256'', JString fp)]"
  let ?es = "[(str ''host'', JString (str ''https://'' @ show_socket (fk_bind cfg))),
      (str ''api_key'', JString (fk_api_key cfg)), (str ''tls'', json_object ?tls)]"
  have "strict_table tls_keys (json_object ?tls) = Some (map_of ?tls)"
    by (rule strict_json_object) (auto simp: tls_keys_def)
  then have "decode_tls (json_object ?tls) = Some (default_tls\<lparr>fingerprint_sha256 := Some [fp]\<rparr>)"
    by (simp add: decode_tls_def field_or_def one_or_many_def value_as_str_def default_tls_def)
  moreover have "strict_table controller_keys (json_object ?es) = Some (map_of ?es)"
    by (rule strict_json_object) (auto simp: controller_keys_def)
  ultimately show ?thesis
    by (simp add: controller_table_def decode_controller_def field_or_def value_as_str_def
        secret_deserialize_def pasted_controller_def)
qed

lemma trim_end_matches_last: "s \<noteq> [] \<Longrightarrow> \<not> P (last s) \<Longrightarrow> trim_end_matches P s = s"
  by (cases s rule: rev_cases) (simp_all add: trim_end_matches_def)

lemma normalize_pasted_host:
  "normalize_host (str ''https://'' @ show_socket a) = str ''https://'' @ show_socket a"
proof -
  let ?h = "str ''https://'' @ show_socket a"
  have "list_all visible (str ''https://'')" by (simp add: str_def)
  then have "list_all visible ?h" using visible_show_socket [of a] by simp
  then have "list_all (\<lambda>c. \<not> is_whitespace c) ?h"
    by (rule list.pred_mono_strong) (auto simp: is_whitespace_def)
  then have t: "trim ?h = ?h" by (rule trim_none)
  have "last ?h = last (show_socket a)" using show_socket_last [of a] by simp
  then have "\<not> last ?h = 47" using show_socket_last [of a] by (auto simp: is_ascii_digit_def)
  then have "trim_end_matches (\<lambda>c. c = 47) ?h = ?h"
    using show_socket_last [of a] by (intro trim_end_matches_last) simp_all
  then show ?thesis by (simp add: normalize_host_def t Let_def starts_with_def)
qed

section \<open>Properties\<close>

text \<open>
  C36. The settings the stand-in console prints are the right ones. With SHA-256 rendered as 64
  lower-case hex digits, a key of visible characters and an HTTP client that builds, the three values on
  the printed lines, put as text into a \<open>[controller]\<close> table, decode to a controller section from which
  the proxy's client is built: it calls exactly the console's API root at the address the console
  binds, it accepts the console's certificate and no certificate with another digest, and the console's
  key check lets its calls through unless it was told to refuse everything.
\<close>

theorem printed_settings_connect:
  assumes "\<And>c. is_fingerprint (digest_hex c)" and "list_all visible (fk_api_key cfg)"
    and "\<And>client. builds client = None" and "fake_main digest_hex cert cfg = (Ok (Some s), out)"
  shows "\<exists>der h key fp c up. cert = Ok der \<and>
    printed_value out (str ''UVP_CONTROLLER__HOST'') = Some h \<and>
    printed_value out (str ''UVP_CONTROLLER__API_KEY'') = Some key \<and>
    printed_value out (str ''UVP_CONTROLLER__TLS__FINGERPRINT_SHA256'') = Some fp \<and>
    decode_controller (controller_table h key fp) = Some c \<and>
    upstream_new builds c timeout = Ok up \<and>
    up_base up = str ''https://'' @ show_socket (fk_bind cfg) @ FAKE_API \<and>
    is_ok (fake_check s (key_headers up)) = (\<not> fk_always_401 cfg) \<and>
    (\<forall>leaf. accepts_cert digest_hex webpki (client_tls (up_client up)) leaf =
       (digest_hex leaf = digest_hex der))"
proof -
  from assms(4) obtain der where der: "cert = Ok der"
    and out: "out = concat (map println (fake_banner cfg (digest_hex der)))"
    and s: "s = \<lparr>fc_cfg = cfg, fc_vouchers = Map.empty, fc_next = 1\<rparr>"
    by (auto simp: fake_main_def Let_def split: sum.splits if_splits)
  let ?fp = "digest_hex der" and ?c = "pasted_controller cfg (digest_hex der)"
  have "list_all lower_hex ?fp" using assms(1) [of der] by (simp add: is_fingerprint_def)
  then have "list_all visible ?fp" by (rule list.pred_mono_strong) (auto simp: lower_hex_def)
  note printed = banner_values [OF assms(2) this, folded out]
  have n: "normalize_fingerprint ?fp = Ok ?fp" by (rule normalize_fingerprint_fixed [OF assms(1)])
  then have mode: "client_config (tls ?c) = Ok (Pinned \<lparr>expected = [?fp]\<rparr>)"
    by (simp add: client_config_def pasted_controller_def with_context_def)
  have "is_ok (upstream_new builds ?c timeout)"
    by (simp add: upstream_new_def mode assms(3) with_context_def Let_def)
  then obtain up where up: "upstream_new builds ?c timeout = Ok up" by (auto simp: is_ok_iff)
  note fields = upstream_new_fields [OF up]
  have base: "up_base up = str ''https://'' @ show_socket (fk_bind cfg) @ FAKE_API"
    by (simp add: fields(1) pasted_controller_def normalize_pasted_host FAKE_API_def)
  have "header_to_str (fk_api_key cfg) = Some (fk_api_key cfg)"
  proof -
    have "list_all (\<lambda>c. 32 \<le> c \<and> c < 127 \<or> c = 9) (fk_api_key cfg)"
      using assms(2) by (rule list.pred_mono_strong) auto
    then show ?thesis by (simp add: header_to_str_def)
  qed
  then have chk: "is_ok (fake_check s (key_headers up)) = (\<not> fk_always_401 cfg)"
    by (simp add: fake_check_def key_headers_def fields(2) pasted_controller_def s)
  have "fingerprint_sha256 (tls ?c) = Some [?fp]" by (simp add: pasted_controller_def)
  from accepts_pinned [OF fields(4) this]
  have "accepts_cert digest_hex webpki (client_tls (up_client up)) leaf = (digest_hex leaf = ?fp)" for leaf
    using n by auto
  with der printed decode_pasted up base chk show ?thesis by blast
qed

theorem printed_settings_connect_witness:
  "\<exists>s out h key fp c. fake_main (\<lambda>c. replicate 64 97) (Ok [1])
      \<lparr>fk_bind = (V4 2130706433, 8443), fk_api_key = str ''test-api-key'', fk_always_401 = False,
        fk_delay_ms = 0, fk_print_fingerprint = False\<rparr> = (Ok (Some s), out) \<and>
     printed_value out (str ''UVP_CONTROLLER__API_KEY'') = Some key \<and>
     decode_controller (controller_table h key fp) = Some c"
proof -
  let ?cfg = "\<lparr>fk_bind = (V4 2130706433, 8443), fk_api_key = str ''test-api-key'', fk_always_401 = False,
        fk_delay_ms = 0, fk_print_fingerprint = False\<rparr>"
  have fp: "is_fingerprint (replicate 64 97)" by (simp add: is_fingerprint_def list_all_iff lower_hex_def)
  have key: "list_all visible (fk_api_key ?cfg)" by (simp add: str_def)
  obtain s out where m: "fake_main (\<lambda>c. replicate 64 97) (Ok [1]) ?cfg = (Ok (Some s), out)"
    by (simp add: fake_main_def)
  from printed_settings_connect [where builds = "\<lambda>client. None", OF fp key refl m] m
  show ?thesis by blast
qed

end
