(* ===== verification/Demo_Console.thy ===== *)
theory Demo_Console
  imports Console_Link "HOL-Library.Code_Target_Nat"
begin

text \<open>
  A concrete instance of what joins the proxy to the stand-in console: a wire format for JSON that
  reads back, a router and a URL splitter, and the library built from them. The interpretation of
  \<open>console_link\<close> discharges its assumptions.
\<close>

section \<open>A wire format for JSON\<close>

text \<open>Every value as a tag, then lengths and parts; the reader takes fuel, one unit per node.\<close>

fun demo_enc :: "json \<Rightarrow> rstr" and demo_enc_list :: "json list \<Rightarrow> rstr"
  and demo_enc_fields :: "(rstr \<times> json) list \<Rightarrow> rstr" where
  "demo_enc JNull = [0]"
| "demo_enc (JBool b) = [1, if b then 1 else 0]"
| "demo_enc (JNumber n) = (case n of PosInt w \<Rightarrow> [2, unat w] | NegInt i \<Rightarrow> [3, nat (- i)]
     | Float s \<Rightarrow> 4 # length s # s)"
| "demo_enc (JString s) = 5 # length s # s"
| "demo_enc (JArray xs) = 6 # length xs # demo_enc_list xs"
| "demo_enc (JObject fs) = 7 # length fs # demo_enc_fields fs"
| "demo_enc_list [] = []"
| "demo_enc_list (x # xs) = demo_enc x @ demo_enc_list xs"
| "demo_enc_fields [] = []"
| "demo_enc_fields ((k, v) # fs) = length k # k @ demo_enc v @ demo_enc_fields fs"

definition demo_leaf :: "nat \<Rightarrow> nat \<Rightarrow> rstr \<Rightarrow> json \<times> rstr" where
  "demo_leaf t n r =
     (if t = 1 then (JBool (n = 1), r)
      else if t = 2 then (JNumber (PosInt (of_nat n)), r)
      else if t = 3 then (JNumber (NegInt (- int n)), r)
      else if t = 4 then (JNumber (Float (take n r)), drop n r)
      else (JString (take n r), drop n r))"

fun demo_dec :: "nat \<Rightarrow> rstr \<Rightarrow> (json \<times> rstr) option"
  and demo_dec_list :: "nat \<Rightarrow> nat \<Rightarrow> rstr \<Rightarrow> (json list \<times> rstr) option"
  and demo_dec_fields :: "nat \<Rightarrow> nat \<Rightarrow> rstr \<Rightarrow> ((rstr \<times> json) list \<times> rstr) option" where
  "demo_dec 0 s = None"
| "demo_dec (Suc f) s =
     (if s = [] then None
      else if hd s = 0 then Some (JNull, tl s)
      else if tl s = [] then None
      else if hd s = 6 then map_option (apfst JArray) (demo_dec_list f (hd (tl s)) (tl (tl s)))
      else if hd s = 7 then map_option (apfst JObject) (demo_dec_fields f (hd (tl s)) (tl (tl s)))
      else Some (demo_leaf (hd s) (hd (tl s)) (tl (tl s))))"
| "demo_dec_list 0 n s = None"
| "demo_dec_list (Suc f) n s =
     (if n = 0 then Some ([], s)
      else case demo_dec f s of None \<Rightarrow> None
        | Some (x, r) \<Rightarrow> map_option (apfst ((#) x)) (demo_dec_list f (n - 1) r))"
| "demo_dec_fields 0 n s = None"
| "demo_dec_fields (Suc f) n s =
     (if n = 0 then Some ([], s)
      else if s = [] then None
      else case demo_dec f (drop (hd s) (tl s)) of None \<Rightarrow> None
        | Some (x, r) \<Rightarrow>
            map_option (apfst ((#) (take (hd s) (tl s), x))) (demo_dec_fields f (n - 1) r))"

definition demo_parse :: "rstr \<Rightarrow> json option" where
  "demo_parse s = map_option fst (demo_dec (length s + 1) s)"

section \<open>The wire format reads back\<close>

lemma demo_enc_not_Nil [simp]: "demo_enc v \<noteq> []"
  by (cases v) (auto split: jnum.split)

lemma demo_enc_tag: "\<exists>t r. demo_enc v = t # r \<and> t \<le> 7"
  by (cases v) (auto split: jnum.split)

lemma demo_dec_enc:
  "wf_json v \<Longrightarrow> length (demo_enc v) \<le> f \<Longrightarrow> demo_dec f (demo_enc v @ r) = Some (v, r)"
  "list_all wf_json xs \<Longrightarrow> length (demo_enc_list xs) < f \<Longrightarrow>
     demo_dec_list f (length xs) (demo_enc_list xs @ r) = Some (xs, r)"
  "list_all wf_json (map snd fs) \<Longrightarrow> length (demo_enc_fields fs) < f \<Longrightarrow>
     demo_dec_fields f (length fs) (demo_enc_fields fs @ r) = Some (fs, r)"
proof (induction v and xs and fs arbitrary: f r and f r and f r
    rule: demo_enc_demo_enc_list_demo_enc_fields.induct)
  case (3 n)
  then show ?case
    by (cases f; cases n) (auto simp: demo_leaf_def wf_num_def)
next
  case (8 x xs)
  obtain m where "length (demo_enc x) = Suc m" by (cases "demo_enc x") auto
  with 8 show ?case by (cases f) auto
next
  case (10 k v fs)
  obtain m where "length (demo_enc v) = Suc m" by (cases "demo_enc v") auto
  with 10 show ?case by (cases f) auto
next
  case 1
  then show ?case by (cases f) auto
next
  case (2 b)
  then show ?case by (cases f) (auto simp: demo_leaf_def)
next
  case (4 s)
  then show ?case by (cases f) (auto simp: demo_leaf_def)
next
  case (5 xs)
  then show ?case by (cases f) (auto simp: demo_leaf_def)
next
  case (6 fs)
  then show ?case by (cases f) (auto simp: demo_leaf_def)
next
  case 7
  then show ?case by (cases f) auto
next
  case 9
  then show ?case by (cases f) auto
qed

lemma demo_parse_enc: "wf_json v \<Longrightarrow> demo_parse (demo_enc v) = Some v"
  using demo_dec_enc(1) [of v "Suc (length (demo_enc v))" "[]"] by (simp add: demo_parse_def)

lemma demo_not_blank: "trim (demo_enc v) \<noteq> []"
proof -
  obtain t r where e: "demo_enc v = t # r" "t \<le> 7" using demo_enc_tag by blast
  then have "\<not> is_whitespace t" by (auto simp: is_whitespace_def)
  with e show ?thesis by (auto simp: trim_eq_Nil_iff)
qed

section \<open>URLs and templates\<close>

definition demo_host :: rstr where
  "demo_host = str ''https://10.0.0.1''"

definition demo_base :: rstr where
  "demo_base = demo_host @ FAKE_API"

definition demo_target :: "rstr \<Rightarrow> rstr \<times> (rstr \<times> rstr) list" where
  "demo_target u =
     (let p = drop (length demo_host) u; q = dropWhile (\<lambda>c. c \<noteq> 63) p
      in (takeWhile (\<lambda>c. c \<noteq> 63) p,
          if starts_with q (str ''?limit='') then [(str ''limit'', drop 7 q)] else []))"

text \<open>A template matches segment by segment; a segment that starts with a brace captures.\<close>

fun demo_captures :: "rstr list \<Rightarrow> rstr list \<Rightarrow> rstr list option" where
  "demo_captures [] [] = Some []"
| "demo_captures (t # ts) (p # ps) =
     (if t \<noteq> [] \<and> hd t = 123 then map_option ((#) p) (demo_captures ts ps)
      else if t = p then demo_captures ts ps else None)"
| "demo_captures _ _ = None"

definition demo_matches :: "rstr list \<Rightarrow> rstr \<Rightarrow> (rstr \<times> rstr list) option" where
  "demo_matches tpls p = find_map (\<lambda>t.
     map_option (\<lambda>caps. (t, caps)) (demo_captures (split_on 47 t) (split_on 47 p))) tpls"

lemma demo_url:
  assumes "op_valid op"
  shows "demo_target (demo_base @ op_path op) = (op_route op, op_query_pairs op)"
proof -
  let ?p = "FAKE_API @ concat (map (\<lambda>seg. 47 # seg) (op_segments op))"
  have "63 \<notin> set (concat (map (\<lambda>seg. 47 # seg) (op_segments op)))"
    using op_segments_plain [OF assms] by (fastforce simp: list_all_iff dest: id_char_plain)
  moreover have "63 \<notin> set FAKE_API" by (simp add: FAKE_API_def str_def)
  ultimately have "63 \<notin> set ?p" by simp
  from takeWhile_query [OF this, of op]
  have t: "takeWhile (\<lambda>c. c \<noteq> 63) (FAKE_API @ op_path op) = ?p"
    "dropWhile (\<lambda>c. c \<noteq> 63) (FAKE_API @ op_path op) = op_query op"
    by (simp_all only: op_path_def append_assoc)
  have d: "drop (length demo_host) (demo_base @ op_path op) = FAKE_API @ op_path op"
    by (simp add: demo_base_def)
  have q: "(if starts_with (op_query op) (str ''?limit='') then [(str ''limit'', drop 7 (op_query op))]
      else []) = op_query_pairs op"
    by (cases op) (simp_all add: starts_with_def str_def)
  show ?thesis by (simp only: demo_target_def Let_def d t q op_route_def)
qed

lemma demo_route_segments:
  assumes "op_valid op"
  shows "split_on 47 (op_route op) =
    [] # map str [''proxy'', ''network'', ''integration'', ''v1''] @ op_segments op"
proof -
  let ?segs = "map str [''proxy'', ''network'', ''integration'', ''v1''] @ op_segments op"
  have "op_route op = concat (map (\<lambda>seg. 47 # seg) ?segs)"
    by (simp add: op_route_def FAKE_API_def str_def)
  moreover have "list_all (\<lambda>seg. 47 \<notin> set seg) ?segs"
    using op_segments_plain [OF assms] by (auto simp: list_all_iff str_def dest: id_char_plain)
  ultimately show ?thesis using split_on_segments [of ?segs 47] by simp
qed

lemma demo_template:
  assumes "op_valid op"
  shows "demo_matches (map fst fake_routes) (op_route op) = Some (op_template op, op_ids op)"
  using demo_route_segments [OF assms]
  by (cases op) (simp_all add: demo_matches_def fake_routes_def FAKE_API_def str_def)

section \<open>The library\<close>

text \<open>The console shows a certificate WebPKI takes, and an exchange takes no time but the pause.\<close>

definition demo_wire :: wire where
  "demo_wire = \<lparr>wr_matches = demo_matches, wr_target = demo_target, wr_enc = demo_enc,
     wr_digest = (\<lambda>c. replicate 64 97), wr_webpki = (\<lambda>c. True), wr_cert = [1], wr_connect = 0, wr_latency = 0\<rparr>"

definition demo_refusal :: "http_client \<Rightarrow> reqwest_error" where
  "demo_refusal cl = \<lparr>err_chain = [case client_tls cl of
       Pinned v \<Rightarrow> projl (pinned_verify_server_cert (wr_digest demo_wire) v (wr_cert demo_wire))
     | _ \<Rightarrow> str ''invalid peer certificate''], err_is_timeout = False, err_is_connect = True\<rparr>"

definition demo_transport :: "fake_console transport" where
  "demo_transport cl r s =
     (if connects demo_wire cl \<and> \<not> trusts demo_wire cl then ((Err (demo_refusal cl), 0), s)
      else if \<not> connects demo_wire cl \<or> \<not> in_time demo_wire cl (console_pause demo_wire r s)
      then ((Err \<lparr>err_chain = [str ''operation timed out''], err_is_timeout = True, err_is_connect = False\<rparr>,
        client_timeout cl div 10 ^ 6), s)
      else (let (a, s') = console_reply demo_wire r s in ((Ok a, console_pause demo_wire r s), s')))"

definition demo_lib :: "(fake_console, nat, ip_addr \<Rightarrow> nat) lib" where
  "demo_lib = \<lparr>lib_transport = demo_transport, lib_parse_json = demo_parse, lib_json_text = demo_enc,
     lib_from_value = deserialize_request (\<lambda>v. []), lib_to_value = serialize_request,
     lib_governor = tick_governor, lib_sha256 = (\<lambda>p. p),
     lib_verify = (\<lambda>p h. h = str ''$argon2'' @ p), lib_phc = (\<lambda>h. Ok h), lib_builds = (\<lambda>c. None),
     lib_rfc3339 = (\<lambda>t. None)\<rparr>"

lemma demo_wire_simps [simp]:
  "wr_matches demo_wire = demo_matches" "wr_target demo_wire = demo_target" "wr_enc demo_wire = demo_enc"
  by (simp_all add: demo_wire_def)

lemma demo_overdue: "\<not> contains (str ''operation timed out'') (str ''fingerprint mismatch'')"
  by code_simp

lemma demo_untrusted:
  "\<not> trusts demo_wire cl \<Longrightarrow> client_tls cl = Pinned v \<Longrightarrow>
     pinned_verify_server_cert (wr_digest demo_wire) v (wr_cert demo_wire) = Err (hd (err_chain (demo_refusal cl)))"
  by (cases "pinned_verify_server_cert (wr_digest demo_wire) v (wr_cert demo_wire)")
     (auto simp: trusts_def accepts_cert_def demo_refusal_def)

interpretation link: console_link demo_lib demo_wire demo_base
proof unfold_locales
  fix cl r s
  assume "connects demo_wire cl" and "\<not> trusts demo_wire cl"
  then show "\<exists>e ms. lib_transport demo_lib cl r s = ((Err e, ms), s) \<and>
      (case client_tls cl of
         Pinned v \<Rightarrow> (\<exists>m. pinned_verify_server_cert (wr_digest demo_wire) v (wr_cert demo_wire) = Err m \<and>
           contains (join (str '': '') (err_chain e)) m)
       | _ \<Rightarrow> True)"
    using demo_untrusted [of cl]
    by (auto simp: demo_lib_def demo_transport_def demo_refusal_def contains_def split: tls_mode.split)
qed (auto simp: demo_lib_def demo_transport_def demo_overdue demo_parse_enc demo_not_blank demo_url demo_template
    case_prod_unfold Let_def)

end
