(* ===== verification/Demo_Instance.thy ===== *)
theory Demo_Instance
  imports Service_Progress Metric_Labels Key_Secrecy Command_Line Console_Startup Demo_Console
begin

text \<open>
  A concrete instance of every parameter: the stand-in console behind a transport, a wire format
  for JSON, a governor that never replenishes, a digest without collisions, and a router for the
  proxy's own table. The witnesses of the other theories evaluate the model on it, and it shows
  that what they assume of third-party code can be met.
\<close>

section \<open>The framework\<close>

definition demo_web :: web where
  "demo_web = \<lparr>
     web_match = demo_matches,
     web_path1 = (\<lambda>caps. case caps of [s] \<Rightarrow> Ok s | _ \<Rightarrow> Err (500, [])),
     web_path2 = (\<lambda>caps. case caps of [s, v] \<Rightarrow> Ok (s, v) | _ \<Rightarrow> Err (500, [])),
     web_json = (\<lambda>p body. case demo_parse body of Some v \<Rightarrow> Ok v | None \<Rightarrow> Err (400, [])),
     web_gql_request = (\<lambda>p body. Ok \<lparr>gq_query = body, gq_variables = JNull, gq_operation = None\<rparr>),
     web_limit = (\<lambda>n p body. if n < length body
        then Some \<lparr>rs_status = 413, rs_body = EmptyBody\<rparr> else None),
     web_engine = (\<lambda>g outcomes flying. if outcomes = [] \<and> flying = [] then Some GqlSites else None),
     web_fails = (\<lambda>g outcomes. list_ex (\<lambda>(k, r). \<not> is_ok r) outcomes),
     web_gql_response = (\<lambda>g outcomes. (list_all (\<lambda>(k, r). is_ok r) outcomes, JNull)),
     web_sdl = [], web_graphiql = (\<lambda>s. s)\<rparr>"

section \<open>A configuration and a world\<close>

definition demo_token :: token_config where
  "demo_token = (bare_token (str ''phone'') (str ''$argon2k'') [SITE_ID] default_scopes)
     \<lparr>tok_rate_limit := Some 2\<rparr>"

definition demo_config :: config where
  "demo_config = sample_config [demo_token] default_limits"

definition demo_console :: fake_console where
  "demo_console = \<lparr>fc_cfg = \<lparr>fk_bind = (V4 2130706433, 8443), fk_api_key = str ''k'',
       fk_always_401 = False, fk_delay_ms = 5, fk_print_fingerprint = False\<rparr>,
     fc_vouchers = Map.empty, fc_next = 1\<rparr>"

definition demo_world :: "(fake_console, nat, ip_addr \<Rightarrow> nat) world" where
  "demo_world = projr (with_path demo_lib demo_config (Some (str ''config.toml'')) demo_console 0 0)"

text \<open>A request with the demo token's key.\<close>

definition demo_request :: "http_method \<Rightarrow> rstr \<Rightarrow> nat list \<Rightarrow> request" where
  "demo_request m path body = \<lparr>rq_parts = \<lparr>pt_method = m, pt_path = path,
     pt_headers = [(str ''x-api-key'', str ''k'')], pt_peer = Some (V4 1, 1), pt_matched = None\<rparr>,
     rq_body = body\<rparr>"

definition demo_body :: json where
  "demo_body = json_object [(str ''name'', JString (str ''Guest'')),
     (str ''timeLimitMinutes'', JNumber (PosInt 60)), (str ''count'', JNumber (PosInt 2))]"

definition demo_path :: rstr where
  "demo_path = API @ str ''/sites/default/hotspot/vouchers''"

section \<open>Evaluated facts\<close>

definition demo_settings :: settings where
  "demo_settings = \<lparr>st_playground = False, st_max_body = 65536\<rparr>"

definition demo_serve :: "request \<Rightarrow> (fake_console, nat, ip_addr \<Rightarrow> nat) world
    \<Rightarrow> response \<times> (fake_console, nat, ip_addr \<Rightarrow> nat) world" where
  "demo_serve = serve demo_web demo_lib False 65536"

definition demo_created :: "(fake_console, nat, ip_addr \<Rightarrow> nat) world" where
  "demo_created = snd (demo_serve (demo_request POST demo_path (demo_enc demo_body)) demo_world)"

lemma demo_starts: "with_path demo_lib demo_config (Some (str ''config.toml'')) demo_console 0 0 = Ok demo_world"
proof -
  have "is_ok (with_path demo_lib demo_config (Some (str ''config.toml'')) demo_console 0 0)"
    by code_simp
  then show ?thesis by (auto simp: demo_world_def is_ok_iff)
qed

lemma demo_created_runs:
  "reachable demo_web demo_lib demo_settings (demo_world, []) (demo_created, [])"
  using reachable_serve [OF reachable.start, of demo_web demo_lib demo_settings demo_world "[]"]
  by (simp add: demo_created_def demo_serve_def demo_settings_def)

definition demo_summary :: "('c, 'l, 'k) world \<Rightarrow> nat \<times> rstr list \<times> nat" where
  "demo_summary w = (length (sent w), charged w, length (audit w))"

lemma demo_created_summary: "demo_summary demo_created = (1, [str ''phone''], 1)"
  by code_simp

lemma demo_created_effects:
  "length (sent demo_created) = 1" "charged demo_created = [str ''phone'']"
  "length (audit demo_created) = 1"
  using demo_created_summary by (simp_all add: demo_summary_def)

lemma demo_world_wf: "wf_world demo_lib demo_world"
  using service_inv_start [OF demo_starts] by (simp add: service_inv_def)

end
