(* ===== verification/Demo_Witnesses.thy ===== *)
theory Demo_Witnesses
  imports Demo_Instance
begin

text \<open>
  The properties whose hypotheses need a whole state, applied to the concrete instance: the
  hypotheses are evaluated there and the theorems used.
\<close>

section \<open>A caller and a creation\<close>

definition demo_caller :: caller where
  "demo_caller = \<lparr>caller_token = demo_token,
     caller_ceilings = caller_ceilings_for demo_token default_limits\<rparr>"

definition demo_req :: create_voucher_request where
  "demo_req = \<lparr>cv_name = str ''Guest'', cv_count = 2, cv_time_limit_minutes = 60,
     cv_authorized_guest_limit = 1, cv_data_usage_limit_m_bytes = None,
     cv_rx_rate_limit_kbps = None, cv_tx_rate_limit_kbps = None\<rparr>"

lemma demo_decodes: "lib_from_value demo_lib demo_body = Ok demo_req"
  by code_simp
lemma demo_encodes: "lib_to_value demo_lib demo_req = Ok (projr (serialize_request demo_req))"
  by code_simp
lemma demo_admitted: "permitted demo_caller VouchersCreate (Some SITE_ID)"
  by code_simp
lemma demo_quota: "quota_allows demo_lib (current demo_world) demo_caller demo_world"
  by code_simp
lemma demo_within: "admissible (caller_ceilings demo_caller) demo_req"
  by code_simp
lemma demo_site: "valid_id SITE_ID"
  by code_simp

lemma demo_current: "current demo_world < length (lives demo_world)"
  by (rule wf_worldD(1) [OF demo_world_wf])

theorem creation_sends_witness:
  "\<exists>out. sent (snd (create_vouchers demo_lib demo_caller SITE_ID demo_body demo_world)) =
     sent demo_world @ [op_request (lv_upstream (current_live demo_world)) (OpCreateVouchers SITE_ID out)]"
  using creation_sends [OF demo_current, of demo_lib demo_caller SITE_ID demo_body]
  by (auto simp: demo_decodes demo_encodes demo_admitted demo_quota demo_within demo_site)

theorem surfaces_send_the_same_witness:
  "sent (snd (rest_run demo_lib (RestListVouchers SITE_ID) demo_caller demo_world)) =
   sent (snd (resolve demo_lib (GqlVouchers SITE_ID) demo_caller demo_world))"
proof -
  have "same_call demo_lib (RestListVouchers SITE_ID) (GqlVouchers SITE_ID)" by simp
  from surfaces_send_the_same [OF this demo_current] show ?thesis by blast
qed

lemma demo_extracts: "is_ok (fst (from_request_parts demo_lib (rq_parts (demo_request GET demo_path [])) demo_world))"
  by code_simp

theorem callers_are_entitled_witness:
  "\<exists>c w'. from_request_parts demo_lib (rq_parts (demo_request GET demo_path [])) demo_world = (Ok c, w') \<and>
     caller_ceilings c = caller_ceilings_for (caller_token c) (lv_limits (current_live demo_world)) \<and>
     sent w' = sent demo_world"
proof -
  obtain c w' where x: "from_request_parts demo_lib (rq_parts (demo_request GET demo_path [])) demo_world = (Ok c, w')"
    using demo_extracts by (cases "from_request_parts demo_lib (rq_parts (demo_request GET demo_path [])) demo_world")
      (auto simp: is_ok_iff)
  from callers_are_entitled [OF demo_world_wf x] x show ?thesis by blast
qed

definition demo_strict_world :: "(fake_console, nat, ip_addr \<Rightarrow> nat) world" where
  "demo_strict_world = snd (from_request_parts demo_lib (rq_parts (demo_request GET demo_path []))
     (projr (with_path demo_lib (demo_config\<lparr>cfg_limits := default_limits\<lparr>rate_limit_per_ip_per_minute := 1\<rparr>\<rparr>)
        None demo_console 0 0)))"

lemma demo_strict:
  "\<not> fst (check_ip (lib_governor demo_lib) (mono demo_strict_world) (V4 1)
     (lv_rate (current_live demo_strict_world)))"
  by code_simp

theorem over_budget_address_is_cheap_witness:
  "argon (snd (from_request_parts demo_lib (rq_parts (demo_request GET demo_path [])) demo_strict_world))
     = argon demo_strict_world"
proof -
  have "pt_peer (rq_parts (demo_request GET demo_path [])) = Some (V4 1, 1)"
    by (simp add: demo_request_def)
  from over_budget_address_is_cheap [OF this demo_strict] show ?thesis by blast
qed

text \<open>An operating system on which a socket can be bound once.\<close>

definition bind_once :: "socket_addr list \<Rightarrow> socket_addr \<Rightarrow> (unit, anyhow) result" where
  "bind_once taken a = (if a \<in> set taken then Err [str ''Address already in use''] else Ok ())"

theorem check_config_predicts_serve_witness:
  "is_ok (serve_command demo_lib bind_once (\<lambda>_. True) (\<lambda>_. Ok demo_config) (str ''config.toml'')
     demo_console 0 0) \<longleftrightarrow>
   is_ok (fst (check_config (lib_phc demo_lib) (\<lambda>_. True) (\<lambda>_. Ok demo_config) (str ''config.toml''))) \<and>
   (case load (\<lambda>_. True) (\<lambda>_. Ok demo_config) (Some (str ''config.toml'')) of Err e \<Rightarrow> False
    | Ok cfg \<Rightarrow> sockets_free bind_once cfg)"
  by (rule check_config_predicts_serve) (simp add: demo_lib_def)

theorem metric_labels_bounded_witness:
  "length (requests (counters demo_created)) \<le> Suc (card (token_names demo_created)) * 210"
  using metric_labels_bounded [OF demo_starts demo_created_runs] by blast

section \<open>Extraction and a reload between the phases\<close>

lemma demo_extraction_inputs:
  "ip_admits demo_lib (rq_parts (demo_request GET demo_path [])) demo_world"
  "token_from_headers (pt_headers (rq_parts (demo_request GET demo_path []))) = Some (str ''k'')"
  "reference_auth (lib_verify demo_lib) (auth_tokens (lv_auth (current_live demo_world))) (str ''k'')
     = Some demo_token"
  "\<not> is_expired_at demo_token (wall demo_world)"
  by code_simp+

theorem extraction_decides_witness:
  "fst (from_request_parts demo_lib (rq_parts (demo_request GET demo_path [])) demo_world) =
     Ok \<lparr>caller_token = demo_token,
         caller_ceilings = caller_ceilings_for demo_token (lv_limits (current_live demo_world))\<rparr>"
proof -
  have "inj (lib_sha256 demo_lib)" by (simp add: demo_lib_def inj_def)
  from extraction_decides [OF demo_world_wf this, of "rq_parts (demo_request GET demo_path [])"]
  show ?thesis by (simp add: demo_extraction_inputs)
qed

definition demo_renamed :: config where
  "demo_renamed = demo_config\<lparr>cfg_tokens := [demo_token\<lparr>tok_name := str ''other''\<rparr>]\<rparr>"

definition demo_accepted :: "(fake_console, nat, ip_addr \<Rightarrow> nat) world" where
  "demo_accepted = snd (accept demo_web demo_lib False 65536 (demo_request GET demo_path []) demo_world)"

definition demo_reloaded :: "(fake_console, nat, ip_addr \<Rightarrow> nat) world" where
  "demo_reloaded = snd (reload demo_lib (\<lambda>_. True) (\<lambda>_. Ok demo_renamed) demo_accepted)"

lemma demo_accepts:
  "fst (accept demo_web demo_lib False 65536 (demo_request GET demo_path []) demo_world) =
     Ok (ReadyRest demo_caller (RestListVouchers SITE_ID))"
  by code_simp

lemma demo_reloads:
  "fst (reload demo_lib (\<lambda>_. True) (\<lambda>_. Ok demo_renamed) demo_accepted) = Ok 1"
  by code_simp

lemma demo_reloaded_names:
  "map (\<lambda>(t, h). tok_name t) (auth_tokens (lv_auth (current_live demo_reloaded))) = [str ''other'']"
  by code_simp

lemma demo_listing_permitted:
  "permitted demo_caller VouchersRead (Some SITE_ID)" "caller_name demo_caller \<noteq> str ''other''"
  by code_simp+

theorem revoked_caller_served_unmetered_witness:
  "sent (snd (handle demo_web demo_lib (ReadyRest demo_caller (RestListVouchers SITE_ID)) demo_reloaded)) =
     sent demo_reloaded @ [op_request (lv_upstream (current_live demo_reloaded)) (OpListVouchers SITE_ID)]"
proof -
  have a: "accept demo_web demo_lib False 65536 (demo_request GET demo_path []) demo_world =
      (Ok (ReadyRest demo_caller (RestListVouchers SITE_ID)), demo_accepted)"
    using demo_accepts by (simp add: demo_accepted_def prod_eq_iff)
  have r: "reload demo_lib (\<lambda>_. True) (\<lambda>_. Ok demo_renamed) demo_accepted = (Ok 1, demo_reloaded)"
    using demo_reloads by (simp add: demo_reloaded_def prod_eq_iff)
  have "tok_name ` fst ` set (auth_tokens (lv_auth (current_live demo_reloaded))) =
      set (map (\<lambda>(t, h). tok_name t) (auth_tokens (lv_auth (current_live demo_reloaded))))"
    by (auto simp: case_prod_unfold image_image)
  then have "caller_name demo_caller \<notin> tok_name ` fst ` set (auth_tokens (lv_auth (current_live demo_reloaded)))"
    using demo_listing_permitted(2) by (simp add: demo_reloaded_names)
  from revoked_caller_served_unmetered [OF demo_world_wf a r this] demo_listing_permitted(1) demo_site
  show ?thesis by simp
qed

section \<open>Another key\<close>

definition demo_blind_lib :: "(fake_console, nat, ip_addr \<Rightarrow> nat) lib" where
  "demo_blind_lib = demo_lib\<lparr>lib_transport := (\<lambda>client r s. ((Ok (200, Some []), 5), s))\<rparr>"

theorem api_key_never_shows_witness:
  "fst (serve demo_web demo_blind_lib False 65536 (demo_request GET demo_path [])
      (rekey (str ''other-key'') demo_world)) =
   fst (serve demo_web demo_blind_lib False 65536 (demo_request GET demo_path []) demo_world)"
proof -
  have "key_blind (str ''other-key'') (lib_transport demo_blind_lib)"
    by (simp add: key_blind_def demo_blind_lib_def)
  moreover have "wf_world demo_blind_lib demo_world"
    using demo_world_wf by (simp add: wf_world_def demo_blind_lib_def)
  ultimately show ?thesis using api_key_never_shows by blast
qed

section \<open>A creation whose client disconnects\<close>

fun about_to_call :: "response + task \<Rightarrow> bool" where
  "about_to_call (Inr (RestCalling c k started cnt up li op)) = op_valid op"
| "about_to_call _ = False"

definition demo_begun :: "(response + task) \<times> (fake_console, nat, ip_addr \<Rightarrow> nat) world" where
  "demo_begun = (case accept demo_web demo_lib False 65536 (demo_request POST demo_path (demo_enc demo_body))
       demo_world of
     (Err resp, w) \<Rightarrow> (Inl resp, w)
   | (Ok r, w) \<Rightarrow> advance demo_web demo_lib 0 (Waiting r) w)"

lemma demo_begun_calls: "about_to_call (fst demo_begun)"
  by code_simp

lemma demo_begun_summary: "demo_summary (snd demo_begun) = (0, [str ''phone''], 0)"
  by code_simp

lemma demo_pending:
  obtains c k started cnt up li op w where "op_valid op" and "demo_summary w = (0, [str ''phone''], 0)"
    and "reachable demo_web demo_lib demo_settings (demo_world, [])
      (w, [] @ [RestCalling c k started cnt up li op])"
proof -
  let ?rq = "demo_request POST demo_path (demo_enc demo_body)"
  obtain a w1 where acc: "accept demo_web demo_lib (st_playground demo_settings)
      (st_max_body demo_settings) ?rq demo_world = (a, w1)"
    by (metis prod.exhaust)
  with demo_begun_calls obtain r where r: "a = Ok r"
    by (cases a) (simp_all add: demo_begun_def demo_settings_def)
  obtain x w2 where adv: "advance demo_web demo_lib 0 (Waiting r) w1 = (x, w2)" by (metis prod.exhaust)
  have "about_to_call x"
    using demo_begun_calls acc adv
    by (simp add: demo_begun_def demo_settings_def r del: advance.simps)
  then obtain c k started cnt up li op where x: "x = Inr (RestCalling c k started cnt up li op)"
    and valid: "op_valid op"
    by (cases x rule: about_to_call.cases) simp_all
  have books: "demo_summary w2 = (0, [str ''phone''], 0)"
    using demo_begun_summary acc adv
    by (simp add: demo_begun_def demo_settings_def r del: advance.simps)
  from svc_step.accepted [OF acc [unfolded r], of "[]"]
  have "reachable demo_web demo_lib demo_settings (demo_world, []) (w1, [Waiting r])"
    by (auto intro: reachable.intros)
  moreover from svc_step.advanced [OF adv [unfolded x], of demo_settings "[]" "[]"]
  have "svc_step demo_web demo_lib demo_settings (w1, [Waiting r])
      (w2, [] @ [RestCalling c k started cnt up li op])"
    by simp
  ultimately show ?thesis by (rule that [OF valid books reachable.step])
qed

text \<open>The admission of a creation whose guards pass.\<close>

definition demo_admission :: "(ready, response) result \<times> (fake_console, nat, ip_addr \<Rightarrow> nat) world" where
  "demo_admission = accept demo_web demo_lib (st_playground demo_settings) (st_max_body demo_settings)
     (demo_request POST demo_path (demo_enc demo_body)) demo_world"

definition guards_pass :: "(ready, response) result \<times> (fake_console, nat, ip_addr \<Rightarrow> nat) world \<Rightarrow> bool" where
  "guards_pass x = (case fst x of
     Err e \<Rightarrow> False
   | Ok r \<Rightarrow> (case r of
         ReadyRest c k \<Rightarrow> goes_out demo_lib (current (snd x)) c (rest_scope k) (rest_site k)
           (rest_prep demo_lib c k) (snd x)
       | _ \<Rightarrow> False))"

lemma demo_admission_passes: "guards_pass demo_admission"
  by code_simp

lemma demo_world_summary: "demo_summary demo_world = (0, [], 0)"
  by code_simp

theorem disconnect_leaves_no_record_witness:
  "\<exists>w. reachable demo_web demo_lib demo_settings (demo_world, []) (w, []) \<and>
     length (sent w) = 1 \<and> length (charged w) = 1 \<and> audit w = []"
proof -
  obtain a w1 where aw: "demo_admission = (a, w1)" by (metis prod.exhaust)
  then have "guards_pass (a, w1)" using demo_admission_passes by simp
  then obtain c k where "a = Ok (ReadyRest c k)"
    and g: "goes_out demo_lib (current w1) c (rest_scope k) (rest_site k) (rest_prep demo_lib c k) w1"
    by (auto simp: guards_pass_def split: sum.splits ready.splits)
  with aw have a: "demo_admission = (Ok (ReadyRest c k), w1)" by simp
  from disconnect_leaves_no_record [OF demo_starts reachable.start a [unfolded demo_admission_def] g]
  obtain w' q where "reachable demo_web demo_lib demo_settings (demo_world, []) (w', [])"
    and "sent w' = sent demo_world @ [q]" "charged w' = charged demo_world @ [caller_name c]"
    and "audit w' = audit demo_world"
    by blast
  with demo_world_summary show ?thesis by (auto simp: demo_summary_def)
qed

theorem waiting_tasks_are_well_formed_witness:
  "\<exists>c k started cnt up li op w. reachable demo_web demo_lib demo_settings (demo_world, [])
      (w, [RestCalling c k started cnt up li op]) \<and>
    li < length (lives w) \<and> permitted c (op_scope op) (op_site op)"
proof -
  obtain c k started cnt up li op w where
    r: "reachable demo_web demo_lib demo_settings (demo_world, [])
      (w, [] @ [RestCalling c k started cnt up li op])"
    by (rule demo_pending)
  from waiting_tasks_are_well_formed [OF demo_starts r]
  have "li < length (lives w) \<and> permitted c (op_scope op) (op_site op)" by simp
  with r show ?thesis by (metis append_Nil)
qed

lemma demo_pending_run:
  obtains k n t w where "run_of demo_web demo_lib demo_settings (demo_world, []) k n (w, [t])"
proof -
  obtain c k started cnt up li op w where
    r: "reachable demo_web demo_lib demo_settings (demo_world, [])
      (w, [] @ [RestCalling c k started cnt up li op])"
    by (rule demo_pending)
  from reachable_run_of [OF this] show ?thesis by (auto intro: that)
qed

theorem every_request_gets_answered_witness:
  "\<exists>k n t w. run_of demo_web demo_lib demo_settings (demo_world, []) k n (w, [t]) \<and>
    (\<exists>i w2. stretches demo_web demo_lib (w, [t]) i (w2, []) \<and> k + i \<le> 770 * n)"
proof -
  obtain k n t w where r: "run_of demo_web demo_lib demo_settings (demo_world, []) k n (w, [t])"
    by (rule demo_pending_run)
  from every_request_gets_answered [OF r stretches.none]
  have "\<exists>i w2. stretches demo_web demo_lib (w, [t]) i (w2, []) \<and> k + i \<le> 770 * n" by simp
  with r show ?thesis by blast
qed

theorem amplification_is_bounded_witness:
  "\<exists>k n t w. run_of demo_web demo_lib demo_settings (demo_world, []) k n (w, [t]) \<and>
    length (sent w) + calls_left t \<le> 256 * n"
proof -
  obtain k n t w where r: "run_of demo_web demo_lib demo_settings (demo_world, []) k n (w, [t])"
    by (rule demo_pending_run)
  with amplification_is_bounded [OF demo_starts r] show ?thesis by auto
qed

section \<open>The demo configuration as a file\<close>

definition demo_printers :: printers where
  "demo_printers = \<lparr>
     pr_addr = \<lambda>(ip, port). (case ip of V4 a \<Rightarrow> [4, unat a] | V6 a \<Rightarrow> [6, unat a]) @ [unat port],
     pr_duration = (\<lambda>n. [n]),
     pr_instant = (\<lambda>i. [if i < 0 then 1 else 0, nat \<bar>i\<bar>])\<rparr>"

definition demo_formats :: formats where
  "demo_formats = \<lparr>
     fm_addr = (\<lambda>s. if length s = 3 then Some (if s ! 0 = 4 then V4 (of_nat (s ! 1)) else V6 (of_nat (s ! 1)),
       of_nat (s ! 2)) else None),
     fm_duration = (\<lambda>s. if length s = 1 then Some (s ! 0) else None),
     fm_instant = (\<lambda>s. if length s = 2 then Some (if s ! 0 = 1 then - int (s ! 1) else int (s ! 1))
       else None)\<rparr>"

lemma demo_reads_back: "reads_back demo_formats demo_printers"
proof -
  have "fm_addr demo_formats (pr_addr demo_printers a) = Some a" for a
    by (cases a; cases "fst a") (simp_all add: demo_formats_def demo_printers_def)
  then show ?thesis by (simp add: reads_back_def demo_formats_def demo_printers_def)
qed

lemma demo_config_valid: "valid_config demo_config"
proof -
  have "is_ok (validate demo_config)" by code_simp
  then show ?thesis by (auto simp: is_ok_iff validate_Ok_iff)
qed

lemma demo_body_limit: "max_body_bytes (cfg_server demo_config) < 2 ^ 64"
  by (simp add: demo_config_def sample_config_def default_server_def default_body_limit_def)

theorem written_config_loads_back_witness:
  "load (\<lambda>_. True) (figment_extract demo_formats (\<lambda>v. [])
      (\<lambda>_. Ok (write_config demo_printers demo_config))) (Some (str ''config.toml'')) = Ok demo_config"
  by (rule written_config_loads_back [OF demo_reads_back demo_body_limit demo_config_valid]) simp

theorem misspelt_keys_refused_witness:
  "known_keys (write_config demo_printers demo_config)"
proof -
  have "load (\<lambda>_. True) (figment_extract demo_formats (\<lambda>v. [])
      (\<lambda>_. Ok (write_config demo_printers demo_config))) (Some (str ''config.toml'')) = Ok demo_config"
    using decode_write_config [OF demo_reads_back demo_body_limit] demo_config_valid
    by (simp add: load_Ok_iff figment_extract_def)
  from misspelt_keys_refused [OF this] show ?thesis by auto
qed

section \<open>The demo proxy in front of the console\<close>








theorem key_goes_where_configured_witness:
  "\<exists>up r w' qs. upstream_new (\<lambda>c. None) (cfg_controller demo_config) 0 = Ok up \<and>
     perform demo_transport demo_parse up OpListSites
       \<lparr>console = demo_console, sent = [], oplog = [], mono = 0\<rparr> = (r, w') \<and> sent w' = qs \<and> length qs \<le> 1"
proof -
  let ?w = "\<lparr>console = demo_console, sent = [], oplog = [], mono = 0\<rparr> :: fake_console net"
  have "is_ok (load (\<lambda>_. True) (\<lambda>_. Ok demo_config) None)"
    "is_ok (upstream_new (\<lambda>c. None) (cfg_controller demo_config) 0)"
    by code_simp+
  then obtain cfg up where l: "load (\<lambda>_. True) (\<lambda>_. Ok demo_config) None = Ok cfg"
    and up: "upstream_new (\<lambda>c. None) (cfg_controller demo_config) 0 = Ok up"
    by (auto simp: is_ok_iff)
  from l have "cfg = demo_config" by (simp add: load_Ok_iff)
  obtain r w' where p: "perform demo_transport demo_parse up OpListSites ?w = (r, w')" by (metis prod.exhaust)
  from key_goes_where_configured [OF l [unfolded \<open>cfg = demo_config\<close>] up p] up p show ?thesis by auto
qed







lemma is_ok_as_upstream_result [simp]: "is_ok (as_upstream_result enc r) = is_ok r"
  by (cases r) (simp_all add: as_upstream_result_def case_prod_unfold)



















end
