(* ===== verification/Exposition.thy ===== *)
theory Exposition
  imports Metrics_Counters Controller_Laws
begin

text \<open>
  The text of \<open>Metrics::render\<close> read the way a scraper reads it: lines, comments, and samples of a
  name, labels with escaped values and a number. The reader knows nothing of the counters; what it
  finds are the events that were recorded.
\<close>

section \<open>A reader of the text format\<close>

text \<open>Labels up to the closing brace; \<open>fuel\<close> bounds their number, the length of the line is enough.\<close>

fun read_labels :: "nat \<Rightarrow> rstr \<Rightarrow> ((rstr \<times> rstr) list \<times> rstr) option" where
  "read_labels 0 s = None"
| "read_labels (Suc fuel) s =
     (let name = takeWhile (\<lambda>c. c \<noteq> 61) s; r = dropWhile (\<lambda>c. c \<noteq> 61) s
      in if take 2 r \<noteq> [61, 34] then None
         else (case read_label (drop 2 r) of
             None \<Rightarrow> None
           | Some (v, rest) \<Rightarrow>
               if take 1 rest = [125] then Some ([(name, v)], drop 1 rest)
               else if take 1 rest = [44]
               then map_option (\<lambda>(ls, t). ((name, v) # ls, t)) (read_labels fuel (drop 1 rest))
               else None))"

definition read_sample :: "rstr \<Rightarrow> (rstr \<times> (rstr \<times> rstr) list \<times> rstr) option" where
  "read_sample l =
     (let name = takeWhile (\<lambda>c. c \<noteq> 123 \<and> c \<noteq> 32) l;
          r = dropWhile (\<lambda>c. c \<noteq> 123 \<and> c \<noteq> 32) l
      in if take 1 r = [123]
         then Option.bind (read_labels (length l) (drop 1 r)) (\<lambda>(ls, t).
           if take 1 t = [32] then Some (name, ls, drop 1 t) else None)
         else if take 1 r = [32] then Some (name, [], drop 1 r) else None)"

text \<open>The samples of a text: its lines but the comments, each ended by a line feed.\<close>

definition read_exposition :: "rstr \<Rightarrow> (rstr \<times> (rstr \<times> rstr) list \<times> rstr) option list" where
  "read_exposition t = map read_sample (filter (\<lambda>l. take 1 l \<noteq> [35]) (butlast (split_on 10 t)))"

section \<open>A sample on its line\<close>

fun labels_text :: "(rstr \<times> rstr) list \<Rightarrow> rstr" where
  "labels_text [] = []"
| "labels_text [(name, v)] = name @ 61 # 34 # escape v @ [34]"
| "labels_text ((name, v) # l # ls) = name @ 61 # 34 # escape v @ 34 # 44 # labels_text (l # ls)"

definition sample_text :: "rstr \<times> (rstr \<times> rstr) list \<times> rstr \<Rightarrow> rstr" where
  "sample_text s = (case s of (name, ls, v) \<Rightarrow>
     name @ (if ls = [] then [] else 123 # labels_text ls @ [125]) @ 32 # v)"

definition plain :: "rstr \<Rightarrow> bool" where
  "plain = list_all (\<lambda>c. c \<notin> {10, 32, 34, 35, 61, 92, 123, 125})"

definition sample_ok :: "rstr \<times> (rstr \<times> rstr) list \<times> rstr \<Rightarrow> bool" where
  "sample_ok s = (case s of (name, ls, v) \<Rightarrow>
     name \<noteq> [] \<and> plain name \<and> list_all (\<lambda>(n, _). plain n) ls \<and> plain v)"

lemma plain_simps [simp]:
  "plain []" "plain (a @ b) \<longleftrightarrow> plain a \<and> plain b"
  "plain (c # a) \<longleftrightarrow> c \<notin> {10, 32, 34, 35, 61, 92, 123, 125} \<and> plain a"
  by (simp_all add: plain_def)

lemma plain_not_in: "plain s \<Longrightarrow> c \<in> {10, 32, 34, 35, 61, 92, 123, 125} \<Longrightarrow> c \<notin> set s"
  by (auto simp: plain_def list_all_iff)

lemma plain_show_nat [simp]: "plain (show_nat n)"
  using show_nat_digits [of n] by (auto simp: plain_def list_all_iff is_ascii_digit_def)

lemma takeWhile_stops:
  "list_all P s \<Longrightarrow> \<not> P c \<Longrightarrow> takeWhile P (s @ c # t) = s"
  "list_all P s \<Longrightarrow> \<not> P c \<Longrightarrow> dropWhile P (s @ c # t) = c # t"
  by (induction s) auto

lemma plain_all:
  "plain s \<Longrightarrow> list_all (\<lambda>c. c \<noteq> 61) s"
  "plain s \<Longrightarrow> list_all (\<lambda>c. c \<noteq> 123 \<and> c \<noteq> 32) s"
  by (auto simp: plain_def list_all_iff)

lemma read_labels_text:
  "ls \<noteq> [] \<Longrightarrow> list_all (\<lambda>(n, _). plain n) ls \<Longrightarrow> length ls \<le> fuel \<Longrightarrow>
   read_labels fuel (labels_text ls @ 125 # rest) = Some (ls, rest)"
proof (induction ls arbitrary: fuel rule: labels_text.induct)
  case 1
  then show ?case by simp
next
  case (2 name v)
  then obtain f where "fuel = Suc f" by (cases fuel) auto
  with 2 show ?case by (simp add: takeWhile_stops plain_all read_label_escape Let_def)
next
  case (3 name v l ls)
  then obtain f where f: "fuel = Suc f" by (cases fuel) auto
  with 3 have "read_labels f (labels_text (l # ls) @ 125 # rest) = Some (l # ls, rest)" by simp
  with 3 f show ?case by (simp add: takeWhile_stops plain_all read_label_escape Let_def)
qed

lemma length_labels_text: "length ls \<le> length (labels_text ls)"
  by (induction ls rule: labels_text.induct) auto

lemma read_sample_text:
  assumes "sample_ok s"
  shows "read_sample (sample_text s) = Some s"
proof -
  obtain name ls v where s: "s = (name, ls, v)" by (cases s)
  show ?thesis
  proof (cases "ls = []")
    case True
    with assms s show ?thesis
      by (simp add: read_sample_def sample_text_def sample_ok_def takeWhile_stops plain_all)
  next
    case False
    moreover have "length ls \<le> length (sample_text s)"
      using length_labels_text [of ls] False by (simp add: s sample_text_def)
    ultimately show ?thesis
      using assms s
      by (simp add: read_sample_def sample_text_def sample_ok_def takeWhile_stops plain_all
          read_labels_text del: read_labels.simps)
  qed
qed

lemma labels_text_one_line:
  "list_all (\<lambda>(n, _). plain n) ls \<Longrightarrow> 10 \<notin> set (labels_text ls)"
  by (induction ls rule: labels_text.induct) (auto simp: escape_no_newline dest: plain_not_in)

lemma sample_text_one_line: "sample_ok s \<Longrightarrow> 10 \<notin> set (sample_text s)"
  by (cases s) (auto simp: sample_ok_def sample_text_def dest: plain_not_in labels_text_one_line)

lemma sample_text_no_comment: "sample_ok s \<Longrightarrow> take 1 (sample_text s) \<noteq> [35]"
  by (cases s; cases "fst s") (auto simp: sample_ok_def sample_text_def)

section \<open>The whole text\<close>

text \<open>A family is its two comments and its samples.\<close>

type_synonym family = "string \<times> string \<times> string \<times> (rstr \<times> (rstr \<times> rstr) list \<times> rstr) list"

definition family_lines :: "family \<Rightarrow> rstr list" where
  "family_lines f = (case f of (name, help, typ, samples) \<Rightarrow>
     [str ''# HELP '' @ str name @ str '' '' @ str help, str ''# TYPE '' @ str name @ str '' '' @ str typ]
     @ map sample_text samples)"

definition families :: "rstr \<Rightarrow> nat \<Rightarrow> metrics \<Rightarrow> family list" where
  "families version n m =
     [(''uvp_build_info'', ''Version of the running proxy.'', ''gauge'',
       [(str ''uvp_build_info'', [(str ''version'', version)], str ''1'')]),
      (''uvp_tokens_configured'', ''Number of client tokens in the active config.'', ''gauge'',
       [(str ''uvp_tokens_configured'', [], show_nat n)]),
      (''uvp_requests_total'', ''Requests by token, action and outcome.'', ''counter'',
       map (\<lambda>((token, action, outcome), c). (str ''uvp_requests_total'',
         [(str ''token'', token), (str ''action'', action), (str ''outcome'', outcome)], show_nat (unat c)))
       (requests m)),
      (''uvp_vouchers_created_total'', ''Vouchers issued through the proxy.'', ''counter'',
       map (\<lambda>(token, c). (str ''uvp_vouchers_created_total'', [(str ''token'', token)], show_nat (unat c)))
       (vouchers_created m)),
      (''uvp_upstream_seconds_total'', ''Time spent waiting on the controller.'', ''counter'',
       [(str ''uvp_upstream_seconds_total'', [], show_seconds (upstream_latency_ms_total m))]),
      (''uvp_upstream_calls_total'', ''Calls made to the controller.'', ''counter'',
       [(str ''uvp_upstream_calls_total'', [], show_nat (unat (upstream_calls m)))]),
      (''uvp_config_reloads_total'', ''Successful SIGHUP reloads.'', ''counter'',
       [(str ''uvp_config_reloads_total'', [], show_nat (unat (reloads m)))]),
      (''uvp_config_reload_failures_total'', ''Reloads rejected for a bad config.'', ''counter'',
       [(str ''uvp_config_reload_failures_total'', [], show_nat (unat (reload_failures m)))])]"

definition exposed :: "rstr \<Rightarrow> nat \<Rightarrow> metrics \<Rightarrow> (rstr \<times> (rstr \<times> rstr) list \<times> rstr) list" where
  "exposed version n m = concat (map (\<lambda>(_, _, _, samples). samples) (families version n m))"

lemma request_sample_line:
  "request_sample ((t, a, oc), c) = line (sample_text (str ''uvp_requests_total'',
     [(str ''token'', t), (str ''action'', a), (str ''outcome'', oc)], show_nat (unat c)))"
  by (simp add: request_sample_def sample_text_def line_def quoted_def str_def)

lemma vouchers_sample_line:
  "vouchers_sample (t, c) = line (sample_text (str ''uvp_vouchers_created_total'',
     [(str ''token'', t)], show_nat (unat c)))"
  by (simp add: vouchers_sample_def sample_text_def line_def quoted_def str_def)

lemma escape_id: "34 \<notin> set v \<Longrightarrow> 92 \<notin> set v \<Longrightarrow> 10 \<notin> set v \<Longrightarrow> escape v = v"
  by (induction v) (simp_all add: escape_Cons)

lemma str_space: "str '' '' = [32]"
  by (simp add: str_def)

lemma render_lines:
  assumes "34 \<notin> set version" "92 \<notin> set version" "10 \<notin> set version"
  shows "render version n m = concat (map line (concat (map family_lines (families version n m))))"
proof -
  have "concat (map request_sample (requests m)) = concat (map (line \<circ> sample_text)
      (map (\<lambda>((token, action, outcome), c). (str ''uvp_requests_total'',
         [(str ''token'', token), (str ''action'', action), (str ''outcome'', outcome)], show_nat (unat c)))
       (requests m)))"
    by (rule arg_cong [where f = concat]) (auto simp: request_sample_line)
  moreover have "concat (map vouchers_sample (vouchers_created m)) = concat (map (line \<circ> sample_text)
      (map (\<lambda>(token, c). (str ''uvp_vouchers_created_total'', [(str ''token'', token)], show_nat (unat c)))
       (vouchers_created m)))"
    by (rule arg_cong [where f = concat]) (auto simp: vouchers_sample_line)
  moreover have "line (str ''uvp_build_info'' @ [123] @ str ''version='' @ quoted version @ [125] @ str '' 1'')
      = line (sample_text (str ''uvp_build_info'', [(str ''version'', version)], str ''1''))"
    using assms by (simp add: sample_text_def quoted_def escape_id str_def)
  moreover have "line (str ''uvp_tokens_configured '' @ v) = line (sample_text (str ''uvp_tokens_configured'', [], v))"
    "line (str ''uvp_upstream_seconds_total '' @ v) = line (sample_text (str ''uvp_upstream_seconds_total'', [], v))"
    "line (str ''uvp_upstream_calls_total '' @ v) = line (sample_text (str ''uvp_upstream_calls_total'', [], v))"
    "line (str ''uvp_config_reloads_total '' @ v) = line (sample_text (str ''uvp_config_reloads_total'', [], v))"
    "line (str ''uvp_config_reload_failures_total '' @ v)
      = line (sample_text (str ''uvp_config_reload_failures_total'', [], v))" for v
    by (simp_all add: sample_text_def str_def)
  ultimately show ?thesis
    by (simp only: render_def families_def family_lines_def family_header_def list.map concat.simps
        case_prod_conv map_append concat_append append_assoc append_Nil2 append_Nil append_Cons map_map comp_assoc)
qed

section \<open>Reading it back\<close>

definition family_ok :: "family \<Rightarrow> bool" where
  "family_ok f = (case f of (name, help, typ, samples) \<Rightarrow>
     CHR 0x0A \<notin> set name \<and> CHR 0x0A \<notin> set help \<and> CHR 0x0A \<notin> set typ \<and> list_all sample_ok samples)"

lemma newline_str [simp]: "10 \<in> set (str s) \<longleftrightarrow> CHR 0x0A \<in> set s"
proof -
  have "10 = (of_char (CHR 0x0A) :: nat)" by simp
  then show ?thesis unfolding str_def set_map by (metis (no_types) image_iff of_char_eq_iff)
qed

lemma split_on_line: "10 \<notin> set l \<Longrightarrow> split_on 10 (l @ 10 # rest) = l # split_on 10 rest"
  by (induction l) auto

lemma split_on_lines_of: "list_all (\<lambda>l. 10 \<notin> set l) ls \<Longrightarrow> split_on 10 (concat (map line ls)) = ls @ [[]]"
  by (induction ls) (simp_all add: line_def split_on_line)

lemma family_lines_one_line: "family_ok f \<Longrightarrow> list_all (\<lambda>l. 10 \<notin> set l) (family_lines f)"
  by (cases f) (auto simp: family_ok_def family_lines_def list_all_iff sample_text_one_line)

lemma filter_family_lines:
  "family_ok f \<Longrightarrow> filter (\<lambda>l. take 1 l \<noteq> [35]) (family_lines f) = map sample_text (snd (snd (snd f)))"
  by (cases f) (auto simp: family_ok_def family_lines_def str_def list_all_iff filter_id_conv
      sample_text_no_comment [unfolded One_nat_def])

lemma read_family_lines:
  "family_ok f \<Longrightarrow> map read_sample (map sample_text (snd (snd (snd f)))) = map Some (snd (snd (snd f)))"
  by (cases f) (auto simp: family_ok_def list_all_iff read_sample_text)

lemma read_exposition_families:
  assumes "list_all family_ok fs"
  shows "read_exposition (concat (map line (concat (map family_lines fs))))
    = map Some (concat (map (\<lambda>(_, _, _, samples). samples) fs))"
proof -
  have "list_all (\<lambda>l. 10 \<notin> set l) (concat (map family_lines fs))"
    using assms family_lines_one_line by (auto simp: list_all_iff)
  then have "read_exposition (concat (map line (concat (map family_lines fs))))
      = map read_sample (filter (\<lambda>l. take 1 l \<noteq> [35]) (concat (map family_lines fs)))"
    by (simp add: read_exposition_def split_on_lines_of)
  also have "\<dots> = map Some (concat (map (\<lambda>(_, _, _, samples). samples) fs))"
    using assms
  proof (induction fs)
    case Nil
    then show ?case by simp
  next
    case (Cons f fs)
    then show ?case
      using read_family_lines [of f]
      by (simp add: filter_family_lines case_prod_unfold del: One_nat_def)
  qed
  finally show ?thesis .
qed

lemma plain_replicate [simp]: "plain (replicate n 48)"
  by (simp add: plain_def list_all_iff)

lemma plain_show_seconds [simp]: "plain (show_seconds ms)"
  by (simp add: show_seconds_def pad_zero_def str_def)

lemma families_ok: "list_all family_ok (families version n m)"
  by (auto simp: families_def family_ok_def sample_ok_def list_all_iff str_def)

lemma read_render:
  "34 \<notin> set version \<Longrightarrow> 92 \<notin> set version \<Longrightarrow> 10 \<notin> set version \<Longrightarrow>
   read_exposition (render version n m) = map Some (exposed version n m)"
  by (simp add: render_lines read_exposition_families [OF families_ok] exposed_def)

section \<open>What the samples say\<close>

lemma distinct_map_inj: "distinct (map f xs) \<Longrightarrow> inj g \<Longrightarrow> distinct (map (\<lambda>x. g (f x)) xs)"
  using distinct_map [of g "map f xs"] by (simp add: inj_on_def inj_def comp_def)

lemma exposed_distinct:
  assumes "wf_metrics m"
  shows "distinct (map (\<lambda>(name, ls, _). (name, ls)) (exposed version n m))"
proof -
  have "distinct (map fst (requests m))" "distinct (map fst (vouchers_created m))"
    using assms by (simp_all add: wf_metrics_def bt_sorted_distinct)
  then have "distinct (map (\<lambda>s. case fst s of (t, a, oc) \<Rightarrow> (str ''uvp_requests_total'',
        [(str ''token'', t), (str ''action'', a), (str ''outcome'', oc)])) (requests m))"
    and "distinct (map (\<lambda>s. (str ''uvp_vouchers_created_total'', [(str ''token'', fst s)])) (vouchers_created m))"
    by (auto intro!: distinct_map_inj [where f = fst] simp: inj_def)
  then show ?thesis
    by (auto simp: exposed_def families_def case_prod_unfold comp_def)
qed

lemma requests_exposed:
  "(str ''uvp_requests_total'', [(str ''token'', t), (str ''action'', a), (str ''outcome'', oc)], v)
     \<in> set (exposed version n m) \<longleftrightarrow> (\<exists>c. ((t, a, oc), c) \<in> set (requests m) \<and> v = show_nat (unat c))"
  by (auto simp: exposed_def families_def image_iff Bex_def)

lemma vouchers_exposed:
  "(str ''uvp_vouchers_created_total'', [(str ''token'', t)], v) \<in> set (exposed version n m)
     \<longleftrightarrow> (\<exists>c. (t, c) \<in> set (vouchers_created m) \<and> v = show_nat (unat c))"
  by (auto simp: exposed_def families_def image_iff Bex_def)

lemma totals_exposed:
  "(str ''uvp_tokens_configured'', [], v) \<in> set (exposed version n m) \<longleftrightarrow> v = show_nat n"
  "(str ''uvp_upstream_seconds_total'', [], v) \<in> set (exposed version n m)
     \<longleftrightarrow> v = show_seconds (upstream_latency_ms_total m)"
  "(str ''uvp_upstream_calls_total'', [], v) \<in> set (exposed version n m)
     \<longleftrightarrow> v = show_nat (unat (upstream_calls m))"
  "(str ''uvp_config_reloads_total'', [], v) \<in> set (exposed version n m)
     \<longleftrightarrow> v = show_nat (unat (reloads m))"
  "(str ''uvp_config_reload_failures_total'', [], v) \<in> set (exposed version n m)
     \<longleftrightarrow> v = show_nat (unat (reload_failures m))"
  by (auto simp: exposed_def families_def)

section \<open>The events behind the counters\<close>

definition calls_in :: "metric_event list \<Rightarrow> nat" where
  "calls_in evs = length (filter (\<lambda>e. case e of EvUpstream _ \<Rightarrow> True | _ \<Rightarrow> False) evs)"

definition latency_in :: "metric_event list \<Rightarrow> nat" where
  "latency_in evs = sum_list (map (\<lambda>e. case e of EvUpstream ms \<Rightarrow> unat ms | _ \<Rightarrow> 0) evs)"

definition reloads_in :: "bool \<Rightarrow> metric_event list \<Rightarrow> nat" where
  "reloads_in ok evs = length (filter (\<lambda>e. e = EvReload ok) evs)"

lemma totals_fold:
  "upstream_calls (fold metric_step evs m) = upstream_calls m + of_nat (calls_in evs)"
  "upstream_latency_ms_total (fold metric_step evs m) = upstream_latency_ms_total m + of_nat (latency_in evs)"
  "reloads (fold metric_step evs m) = reloads m + of_nat (reloads_in True evs)"
  "reload_failures (fold metric_step evs m) = reload_failures m + of_nat (reloads_in False evs)"
proof (induction evs arbitrary: m)
  case Nil
  { case 1 then show ?case by (simp add: calls_in_def) }
  { case 2 then show ?case by (simp add: latency_in_def) }
  { case 3 then show ?case by (simp add: reloads_in_def) }
  { case 4 then show ?case by (simp add: reloads_in_def) }
next
  case (Cons e evs)
  note step = calls_in_def latency_in_def reloads_in_def record_request_def record_vouchers_created_def
    record_upstream_def record_reload_def
  { case 1 then show ?case using Cons by (cases e) (simp_all add: step) }
  { case 2 then show ?case using Cons by (cases e) (simp_all add: step) }
  { case 3 then show ?case using Cons by (cases e) (simp_all add: step) }
  { case 4 then show ?case using Cons by (cases e) (simp_all add: step) }
qed

lemma totals_run:
  "upstream_calls (metric_run evs) = of_nat (calls_in evs)"
  "upstream_latency_ms_total (metric_run evs) = of_nat (latency_in evs)"
  "reloads (metric_run evs) = of_nat (reloads_in True evs)"
  "reload_failures (metric_run evs) = of_nat (reloads_in False evs)"
  by (simp_all add: metric_run_def totals_fold) (simp_all add: metrics_default_def)

lemma keys_fold:
  "fst ` set (requests (fold metric_step evs m)) = {(t, a, oc). EvRequest t a oc \<in> set evs} \<union> fst ` set (requests m)"
  "fst ` set (vouchers_created (fold metric_step evs m)) =
     {t. \<exists>n. EvVouchers t n \<in> set evs} \<union> fst ` set (vouchers_created m)"
proof (induction evs arbitrary: m)
  case Nil
  { case 1 then show ?case by simp }
  { case 2 then show ?case by simp }
next
  case (Cons e evs)
  note step = record_request_def record_vouchers_created_def record_upstream_def record_reload_def
  { case 1 then show ?case using Cons by (cases e) (auto simp: step) }
  { case 2 then show ?case using Cons by (cases e) (auto simp: step) }
qed

lemma wf_metric_run [simp]: "wf_metrics (metric_run evs)"
proof -
  have "wf_metrics m \<Longrightarrow> wf_metrics (fold metric_step evs m)" for m
    by (induction evs arbitrary: m) simp_all
  then show ?thesis by (simp add: metric_run_def)
qed

lemma sorted_entry: "bt_sorted m \<Longrightarrow> (k, c) \<in> set m \<longleftrightarrow> k \<in> fst ` set m \<and> c = unwrap_or (bt_get m k) z"
  by (auto simp: bt_get_def bt_sorted_distinct intro: rev_image_eqI)

lemma request_entries_run:
  "((t, a, oc), c) \<in> set (requests (metric_run evs)) \<longleftrightarrow>
     EvRequest t a oc \<in> set evs \<and> c = of_nat (length (filter (is_request (t, a, oc)) evs))"
proof -
  have "bt_sorted (requests (metric_run evs))"
    using wf_metric_run [of evs] by (simp add: wf_metrics_def del: wf_metric_run)
  moreover have "requests_total (metric_run evs) (t, a, oc) = of_nat (length (filter (is_request (t, a, oc)) evs))"
    using requests_total_fold [of metrics_default evs]
    by (simp add: metric_run_def) (simp add: requests_total_def metrics_default_def)
  ultimately show ?thesis
    using keys_fold(1) [of evs metrics_default]
    by (simp add: sorted_entry [where z = 0] requests_total_def metric_run_def)
       (simp add: metrics_default_def)
qed

lemma vouchers_entries_run:
  "(t, c) \<in> set (vouchers_created (metric_run evs)) \<longleftrightarrow>
     (\<exists>n. EvVouchers t n \<in> set evs) \<and> c = of_nat (vouchers_in t evs)"
proof -
  have "bt_sorted (vouchers_created (metric_run evs))"
    using wf_metric_run [of evs] by (simp add: wf_metrics_def del: wf_metric_run)
  moreover have "vouchers_total (metric_run evs) t = of_nat (vouchers_in t evs)"
    using vouchers_total_fold [of metrics_default evs]
    by (simp add: metric_run_def) (simp add: vouchers_total_def metrics_default_def)
  ultimately show ?thesis
    using keys_fold(2) [of evs metrics_default]
    by (simp add: sorted_entry [where z = 0] vouchers_total_def metric_run_def)
       (simp add: metrics_default_def)
qed

lemma exposed_run:
  "(str ''uvp_requests_total'', [(str ''token'', t), (str ''action'', a), (str ''outcome'', oc)], v)
     \<in> set (exposed version n (metric_run evs)) \<longleftrightarrow>
     EvRequest t a oc \<in> set evs \<and> v = show_nat (length (filter (is_request (t, a, oc)) evs) mod 2 ^ 64)"
  "(str ''uvp_vouchers_created_total'', [(str ''token'', t)], v) \<in> set (exposed version n (metric_run evs))
     \<longleftrightarrow> (\<exists>k. EvVouchers t k \<in> set evs) \<and> v = show_nat (vouchers_in t evs mod 2 ^ 64)"
  by (auto simp: requests_exposed vouchers_exposed request_entries_run vouchers_entries_run unat_of_nat
      simp del: power_numeral)

section \<open>The property\<close>

text \<open>
  C40. The metrics text tells a scraper exactly what was recorded. After any sequence of events, a
  reader of the exposition format can read every line of the text; no name with its labels occurs
  twice; there is a sample for a token, an action and an outcome exactly when such a request was
  recorded, whatever characters they hold, and its value is the number of those requests, modulo the
  width of the counter; likewise for the vouchers of a token, the controller calls and their latency,
  the reloads and their failures.
\<close>

theorem exposition_tells_the_events:
  assumes "34 \<notin> set version" and "92 \<notin> set version" and "10 \<notin> set version"
  shows "\<exists>samples. read_exposition (render version n (metric_run evs)) = map Some samples \<and>
    distinct (map (\<lambda>(name, ls, _). (name, ls)) samples) \<and>
    (\<forall>t a oc v. (str ''uvp_requests_total'',
         [(str ''token'', t), (str ''action'', a), (str ''outcome'', oc)], v) \<in> set samples \<longleftrightarrow>
       EvRequest t a oc \<in> set evs \<and> v = show_nat (length (filter (is_request (t, a, oc)) evs) mod 2 ^ 64)) \<and>
    (\<forall>t v. (str ''uvp_vouchers_created_total'', [(str ''token'', t)], v) \<in> set samples \<longleftrightarrow>
       (\<exists>k. EvVouchers t k \<in> set evs) \<and> v = show_nat (vouchers_in t evs mod 2 ^ 64)) \<and>
    (\<forall>v. (str ''uvp_tokens_configured'', [], v) \<in> set samples \<longleftrightarrow> v = show_nat n) \<and>
    (\<forall>v. (str ''uvp_upstream_calls_total'', [], v) \<in> set samples \<longleftrightarrow>
       v = show_nat (calls_in evs mod 2 ^ 64)) \<and>
    (\<forall>v. (str ''uvp_upstream_seconds_total'', [], v) \<in> set samples \<longleftrightarrow>
       v = show_seconds (of_nat (latency_in evs))) \<and>
    (\<forall>v. (str ''uvp_config_reloads_total'', [], v) \<in> set samples \<longleftrightarrow>
       v = show_nat (reloads_in True evs mod 2 ^ 64)) \<and>
    (\<forall>v. (str ''uvp_config_reload_failures_total'', [], v) \<in> set samples \<longleftrightarrow>
       v = show_nat (reloads_in False evs mod 2 ^ 64))"
proof (intro exI conjI)
  show "read_exposition (render version n (metric_run evs)) = map Some (exposed version n (metric_run evs))"
    by (rule read_render [OF assms])
  show "distinct (map (\<lambda>(name, ls, _). (name, ls)) (exposed version n (metric_run evs)))"
    by (rule exposed_distinct) simp
qed (simp_all add: exposed_run totals_exposed totals_run unat_of_nat del: power_numeral)

theorem exposition_tells_the_events_witness:
  "\<exists>samples. read_exposition (render (str ''0.1.1'') 2 (metric_run
       [EvRequest [34, 92, 10] (str ''sites:list'') (str ''ok''), EvReload False])) = map Some samples \<and>
     (\<forall>v. (str ''uvp_requests_total'', [(str ''token'', [34, 92, 10]),
         (str ''action'', str ''sites:list''), (str ''outcome'', str ''ok'')], v) \<in> set samples \<longleftrightarrow>
       v = show_nat 1)"
proof -
  let ?evs = "[EvRequest [34, 92, 10] (str ''sites:list'') (str ''ok''), EvReload False]"
  have "34 \<notin> set (str ''0.1.1'')" "92 \<notin> set (str ''0.1.1'')" "10 \<notin> set (str ''0.1.1'')"
    by (simp_all add: str_def)
  from exposition_tells_the_events [OF this, of 2 ?evs]
  obtain samples where s: "read_exposition (render (str ''0.1.1'') 2 (metric_run ?evs)) = map Some samples"
    and *: "\<forall>t a oc v. (str ''uvp_requests_total'',
         [(str ''token'', t), (str ''action'', a), (str ''outcome'', oc)], v) \<in> set samples \<longleftrightarrow>
       EvRequest t a oc \<in> set ?evs \<and> v = show_nat (length (filter (is_request (t, a, oc)) ?evs) mod 2 ^ 64)"
    by (elim exE conjE) (rule that)
  have one: "length (filter (is_request ([34, 92, 10], str ''sites:list'', str ''ok'')) ?evs) mod 2 ^ 64 = 1"
    by simp
  have "(str ''uvp_requests_total'', [(str ''token'', [34, 92, 10]),
         (str ''action'', str ''sites:list''), (str ''outcome'', str ''ok'')], v) \<in> set samples \<longleftrightarrow>
       v = show_nat 1" for v
    by (subst * [rule_format], subst one) simp
  with s show ?thesis by (intro exI [where x = samples] conjI allI)
qed

end
