(* ===== verification/Tests_Data.thy ===== *)
theory Tests_Data
  imports Pinning Controller_Client Voucher_Model Voucher_Policy Audit_Log "HOL-Library.Code_Target_Nat"
begin

text \<open>
  The unit tests in the sources of the components without state, transcribed: a definition per test
  function, by its name, true when its assertions hold of the model. They pass for every wording of
  \<open>serde\<close>'s errors and every printer of JSON that prints as documented.
\<close>

section \<open>Assertions\<close>

text \<open>\<open>x.unwrap()\<close>, \<open>x.unwrap_err()\<close> and \<open>body[k]\<close>; a panic fails the test.\<close>

definition unwraps :: "('a, 'e) result \<Rightarrow> ('a \<Rightarrow> bool) \<Rightarrow> bool" where
  "unwraps r P = (case r of Ok x \<Rightarrow> P x | Err e \<Rightarrow> False)"

definition unwraps_err :: "('a, 'e) result \<Rightarrow> ('e \<Rightarrow> bool) \<Rightarrow> bool" where
  "unwraps_err r P = (case r of Ok x \<Rightarrow> False | Err e \<Rightarrow> P e)"

definition is_some_and :: "'a option \<Rightarrow> ('a \<Rightarrow> bool) \<Rightarrow> bool" where
  "is_some_and v P = (case v of Some x \<Rightarrow> P x | None \<Rightarrow> False)"

definition value_at :: "json \<Rightarrow> rstr \<Rightarrow> json" where
  "value_at v k = unwrap_or (get v k) JNull"

text \<open>\<open>body[k] = x\<close>\<close>

definition with_field :: "json \<Rightarrow> rstr \<Rightarrow> json \<Rightarrow> json" where
  "with_field v k x = (case v of JObject fs \<Rightarrow> JObject (bt_insert k x fs) | _ \<Rightarrow> v)"

definition number :: "u64 \<Rightarrow> json" where
  "number n = JNumber (PosInt n)"

definition text_value :: "string \<Rightarrow> json" where
  "text_value s = JString (str s)"

text \<open>How \<open>serde_json\<close> prints an object of plain texts and unsigned numbers.\<close>

definition plain_text :: "rstr \<Rightarrow> bool" where
  "plain_text s \<longleftrightarrow> list_all (\<lambda>c. 32 \<le> c \<and> c < 127 \<and> c \<noteq> 34 \<and> c \<noteq> 92) s"

definition in_quotes :: "rstr \<Rightarrow> rstr" where
  "in_quotes s = [34] @ s @ [34]"

definition compact_printer :: "(json \<Rightarrow> rstr) \<Rightarrow> bool" where
  "compact_printer shown \<longleftrightarrow>
     (\<forall>s. plain_text s \<longrightarrow> shown (JString s) = in_quotes s) \<and>
     (\<forall>n. shown (JNumber (PosInt n)) = show_nat (unat n)) \<and>
     (\<forall>fs. list_all (\<lambda>(k, v). plain_text k) fs \<longrightarrow>
        shown (JObject fs) =
          [123] @ join [44] (map (\<lambda>(k, v). in_quotes k @ [58] @ shown v) fs) @ [125])"

section \<open>error.rs\<close>

definition all_variants :: "proxy_error list" where
  "all_variants =
     [Unauthorized, TokenExpired (str ''2026-01-01T00:00:00Z''), Forbidden (str ''nope''), NotAllowed,
      BadRequest (str ''bad''), RateLimited, Upstream 409 (str ''conflict''),
      UpstreamUnreachable (str ''timed out''), Internal [str ''config path /etc/secrets'']]"

definition every_variant_maps_to_a_status_and_a_kind :: bool where
  "every_variant_maps_to_a_status_and_a_kind =
     (let expected = [(401, ''unauthorized''), (401, ''token_expired''), (403, ''forbidden''),
        (403, ''not_allowed''), (400, ''bad_request''), (429, ''rate_limited''),
        (409, ''upstream_error''), (502, ''upstream_unreachable''), (500, ''internal'')]
      in list_all (\<lambda>(err, st, k). status err = st \<and> kind err = str k) (zip all_variants expected))"

definition errors_render_in_the_envelope_unifi_clients_already_parse :: bool where
  "errors_render_in_the_envelope_unifi_clients_already_parse =
     (case into_response (Forbidden (str ''token may not do that'')) of (lines, st, body) \<Rightarrow>
        st = 403 \<and> value_at body (str ''message'') = text_value ''token may not do that'')"

definition internal_errors_do_not_tell_the_client_what_went_wrong :: "(json \<Rightarrow> rstr) \<Rightarrow> bool" where
  "internal_errors_do_not_tell_the_client_what_went_wrong shown =
     (case into_response (Internal [str ''api_key=hunter2 at /etc/secrets'']) of (lines, st, body) \<Rightarrow>
        st = 500 \<and> contains (shown body) (str ''internal proxy error'') \<and>
        \<not> contains (shown body) (str ''hunter2'') \<and> \<not> contains (shown body) (str ''/etc/secrets''))"

definition an_anyhow_error_converts_into_the_internal_variant :: bool where
  "an_anyhow_error_converts_into_the_internal_variant = (kind (Internal [str ''boom'']) = str ''internal'')"

section \<open>secret.rs\<close>

definition never_renders_the_inner_value :: bool where
  "never_renders_the_inner_value =
     (let s = Secret (str ''super-secret-api-key'')
      in secret_debug s = str ''Secret(***)'' \<and> secret_display s = str ''***'' \<and>
         \<not> contains (secret_debug s @ str '' '' @ secret_display s) (str ''super-secret'') \<and>
         expose s = str ''super-secret-api-key'')"

section \<open>audit.rs\<close>

text \<open>The test asserts that nothing panics; these are the lines it emits.\<close>

definition emits_records_with_and_without_optional_fields :: "audit_line list" where
  "emits_records_with_and_without_optional_fields =
     [emit \<lparr>au_token = str ''phone'', au_action = str ''vouchers:create'', au_site = Some (str ''default''),
        au_target = Some (str ''v1''), au_count = Some 3, au_status = 200, au_outcome = str ''ok'',
        au_elapsed = 12\<rparr>,
      emit \<lparr>au_token = str ''phone'', au_action = str ''sites:list'', au_site = None,
        au_target = None, au_count = None, au_status = 403, au_outcome = str ''forbidden'',
        au_elapsed = 0\<rparr>,
      rejected (str ''/some/path'') (str ''unknown_token'') 401]"

section \<open>model.rs\<close>

definition reads_sites_in_every_shape_the_api_uses :: bool where
  "reads_sites_in_every_shape_the_api_uses =
     (let body = json_object [(str ''data'', JArray [
          json_object [(str ''id'', text_value ''a''), (str ''name'', text_value ''Default'')],
          json_object [(str ''_id'', text_value ''b''), (str ''desc'', text_value ''Branch'')],
          json_object [(str ''id'', text_value ''c'')]])];
          sites = site_list body
      in length sites = 3 \<and> site_id (sites ! 1) = str ''b'' \<and> site_name (sites ! 1) = str ''Branch'' \<and>
         site_name (sites ! 2) = str ''c'')"

definition reads_vouchers_from_both_envelopes :: bool where
  "reads_vouchers_from_both_envelopes =
     (let paged = json_object [(str ''data'', JArray [json_object
            [(str ''id'', text_value ''v1''), (str ''code'', text_value ''1234567890'')]])];
          created = json_object [(str ''vouchers'', JArray [json_object
            [(str ''id'', text_value ''v2''), (str ''code'', text_value ''0987654321'')]])]
      in map v_id (take 1 (voucher_list paged)) = [str ''v1''] \<and>
         map v_id (take 1 (voucher_list created)) = [str ''v2''])"

definition tolerates_missing_usage_fields :: bool where
  "tolerates_missing_usage_fields =
     is_some_and (voucher_from_json (json_object [(str ''id'', text_value ''v1''), (str ''code'', text_value ''1'')]))
       (\<lambda>v. v_authorized_guest_count v = None \<and> \<not> v_expired v)"

definition skips_entries_without_an_id_instead_of_failing_the_response :: bool where
  "skips_entries_without_an_id_instead_of_failing_the_response =
     (let body = json_object [(str ''data'', JArray [json_object [(str ''code'', text_value ''orphan'')],
            json_object [(str ''id'', text_value ''ok''), (str ''code'', text_value ''1'')]])];
          vouchers = voucher_list body
      in length vouchers = 1 \<and> v_id (vouchers ! 0) = str ''ok'')"

definition accepts_a_bare_array_as_well_as_an_envelope :: bool where
  "accepts_a_bare_array_as_well_as_an_envelope =
     (let bare = JArray [json_object [(str ''id'', text_value ''v1''), (str ''code'', text_value ''1'')]]
      in length (voucher_list bare) = 1)"

definition falls_back_to_the_first_list_valued_field :: bool where
  "falls_back_to_the_first_list_valued_field =
     (let odd = json_object [(str ''meta'', json_object [(str ''rc'', text_value ''ok'')]),
            (str ''someOtherKey'', JArray [json_object [(str ''id'', text_value ''v1'')]])]
      in length (voucher_list odd) = 1)"

definition returns_nothing_for_shapes_that_hold_no_list :: bool where
  "returns_nothing_for_shapes_that_hold_no_list =
     (voucher_list (text_value ''just a string'') = [] \<and>
      voucher_list (json_object [(str ''meta'', json_object [(str ''rc'', text_value ''ok'')])]) = [] \<and>
      voucher_list JNull = [])"

definition reads_numeric_ids :: bool where
  "reads_numeric_ids =
     is_some_and (voucher_from_json (json_object [(str ''id'', number 42), (str ''code'', number 12345)]))
       (\<lambda>v. v_id v = str ''42'' \<and> v_code v = str ''12345'')"

definition treats_an_empty_string_as_absent :: bool where
  "treats_an_empty_string_as_absent =
     is_some_and (voucher_from_json (json_object [(str ''id'', text_value ''v''), (str ''name'', text_value [])]))
       (\<lambda>v. v_name v = None)"

definition skips_sites_without_an_id :: bool where
  "skips_sites_without_an_id =
     (site_from_json (json_object [(str ''name'', text_value ''nameless'')]) = None)"

definition accepts_numeric_strings_for_int_fields :: bool where
  "accepts_numeric_strings_for_int_fields =
     is_some_and (voucher_from_json (json_object
         [(str ''id'', text_value ''v''), (str ''timeLimitMinutes'', text_value ''480'')]))
       (\<lambda>v. v_time_limit_minutes v = Some 480)"

section \<open>policy.rs\<close>

text \<open>\<open>why\<close> is the wording of a \<open>serde\<close> error.\<close>

definition test_ceilings :: ceilings where
  "test_ceilings = \<lparr>max_vouchers = 10, max_validity = 1440\<rparr>"

definition valid_body :: json where
  "valid_body = json_object [(str ''name'', text_value ''Guest''), (str ''count'', number 2),
     (str ''timeLimitMinutes'', number 480), (str ''authorizedGuestLimit'', number 1)]"

definition accepts_a_normal_request :: "(json \<Rightarrow> rstr) \<Rightarrow> bool" where
  "accepts_a_normal_request why =
     unwraps (parse (deserialize_request why) valid_body) (\<lambda>req.
     unwraps (enforce req test_ceilings) (\<lambda>_.
     unwraps (to_upstream_body serialize_request req) (\<lambda>body.
       value_at body (str ''name'') = text_value ''Guest'' \<and>
       value_at body (str ''count'') = number 2 \<and>
       value_at body (str ''timeLimitMinutes'') = number 480 \<and>
       get body (str ''rxRateLimitKbps'') = None)))"

definition rejects_unknown_fields :: "(json \<Rightarrow> rstr) \<Rightarrow> bool" where
  "rejects_unknown_fields why =
     (let body = with_field valid_body (str ''somethingElse'') (text_value ''nope'')
      in \<not> is_ok (parse (deserialize_request why) body))"

definition enforces_the_count_ceiling :: "(json \<Rightarrow> rstr) \<Rightarrow> bool" where
  "enforces_the_count_ceiling why =
     (let body = with_field valid_body (str ''count'') (number 50)
      in unwraps (parse (deserialize_request why) body) (\<lambda>req.
         unwraps_err (enforce req test_ceilings) (\<lambda>err. status err = 403)))"

definition enforces_the_validity_ceiling :: "(json \<Rightarrow> rstr) \<Rightarrow> bool" where
  "enforces_the_validity_ceiling why =
     (let body = with_field valid_body (str ''timeLimitMinutes'') (number 100000)
      in unwraps (parse (deserialize_request why) body) (\<lambda>req. \<not> is_ok (enforce req test_ceilings)))"

definition rejects_an_overlong_name :: "(json \<Rightarrow> rstr) \<Rightarrow> bool" where
  "rejects_an_overlong_name why =
     (let body = with_field valid_body (str ''name'') (JString (replicate 200 120))
      in unwraps (parse (deserialize_request why) body) (\<lambda>req. \<not> is_ok (enforce req test_ceilings)))"

definition caps_validity_at_the_api_maximum_even_when_configured_higher :: "(json \<Rightarrow> rstr) \<Rightarrow> bool" where
  "caps_validity_at_the_api_maximum_even_when_configured_higher why =
     (let generous = \<lparr>max_vouchers = 10, max_validity = - 1\<rparr>;
          body = with_field valid_body (str ''timeLimitMinutes'') (number 2000000)
      in unwraps (parse (deserialize_request why) body) (\<lambda>req.
         unwraps_err (enforce req generous) (\<lambda>err. contains (error_message err) (str ''1000000''))))"

definition carries_optional_rate_limits_through :: "(json \<Rightarrow> rstr) \<Rightarrow> bool" where
  "carries_optional_rate_limits_through why =
     (let body = json_object [(str ''name'', text_value ''Guest''), (str ''count'', number 1),
            (str ''timeLimitMinutes'', number 60), (str ''dataUsageLimitMBytes'', number 500),
            (str ''rxRateLimitKbps'', number 1000), (str ''txRateLimitKbps'', number 2000)]
      in unwraps (parse (deserialize_request why) body) (\<lambda>req.
         unwraps (enforce req test_ceilings) (\<lambda>_.
         unwraps (to_upstream_body serialize_request req) (\<lambda>out.
           value_at out (str ''dataUsageLimitMBytes'') = number 500 \<and>
           value_at out (str ''rxRateLimitKbps'') = number 1000 \<and>
           value_at out (str ''txRateLimitKbps'') = number 2000))))"

definition rejects_an_absurd_guest_limit :: "(json \<Rightarrow> rstr) \<Rightarrow> bool" where
  "rejects_an_absurd_guest_limit why =
     (let body = with_field valid_body (str ''authorizedGuestLimit'') (number 999999)
      in unwraps (parse (deserialize_request why) body) (\<lambda>req. \<not> is_ok (enforce req test_ceilings)))"

definition rejects_degenerate_values :: "(json \<Rightarrow> rstr) \<Rightarrow> bool" where
  "rejects_degenerate_values why =
     list_all (\<lambda>(field, value).
        let body = with_field valid_body (str field) value
        in unwraps (parse (deserialize_request why) body) (\<lambda>req. \<not> is_ok (enforce req test_ceilings)))
       [(''count'', number 0), (''timeLimitMinutes'', number 0), (''authorizedGuestLimit'', number 0),
        (''name'', text_value ''   '')]"

section \<open>tls.rs\<close>

definition normalizes_the_common_fingerprint_spellings :: bool where
  "normalizes_the_common_fingerprint_spellings =
     (let want = replicate 64 97;
          upper = replicate 64 65;
          colonized = join [58] (map (\<lambda>i. take 2 (drop (2 * i) want)) [0..<32])
      in normalize_fingerprint upper = Ok want \<and>
         normalize_fingerprint (str ''sha256:'' @ want) = Ok want \<and>
         normalize_fingerprint colonized = Ok want)"

definition rejects_things_that_are_not_fingerprints :: bool where
  "rejects_things_that_are_not_fingerprints =
     (\<not> is_ok (normalize_fingerprint (str ''deadbeef'')) \<and>
      \<not> is_ok (normalize_fingerprint (replicate 64 122)) \<and>
      \<not> is_ok (normalize_fingerprint []))"

section \<open>upstream.rs\<close>

definition normalizes_hosts :: bool where
  "normalizes_hosts =
     (normalize_host (str ''192.168.1.1'') = str ''https://192.168.1.1'' \<and>
      normalize_host (str ''https://10.0.0.1/'') = str ''https://10.0.0.1'' \<and>
      normalize_host (str ''  unifi.lan:8443 '') = str ''https://unifi.lan:8443'' \<and>
      normalize_host (str ''http://10.0.0.1'') = str ''http://10.0.0.1'')"

definition rejects_path_traversal_in_ids :: bool where
  "rejects_path_traversal_in_ids =
     (\<not> is_ok (validate_id (str ''../../../api/self'') (str ''site id'')) \<and>
      \<not> is_ok (validate_id (str ''abc/def'') (str ''site id'')) \<and>
      \<not> is_ok (validate_id (str ''abc?limit=1'') (str ''site id'')) \<and>
      \<not> is_ok (validate_id [] (str ''site id'')) \<and>
      \<not> is_ok (validate_id (replicate 200 97) (str ''site id'')) \<and>
      is_ok (validate_id (str ''default'') (str ''site id'')) \<and>
      is_ok (validate_id (str ''66c2f1e9-4b3a-4f21-9d0e-1a2b3c4d5e6f'') (str ''site id'')))"

section \<open>They pass\<close>

lemma error_tests:
  "every_variant_maps_to_a_status_and_a_kind" "errors_render_in_the_envelope_unifi_clients_already_parse"
  "an_anyhow_error_converts_into_the_internal_variant" "never_renders_the_inner_value"
  by code_simp+

lemma internal_error_test: "compact_printer shown \<Longrightarrow> internal_errors_do_not_tell_the_client_what_went_wrong shown"
proof -
  assume "compact_printer shown"
  moreover have "plain_text (str ''message'')" "plain_text (str ''internal proxy error'')" by code_simp+
  ultimately have "shown (json_object [(str ''message'', JString (str ''internal proxy error''))]) =
      [123] @ in_quotes (str ''message'') @ [58] @ in_quotes (str ''internal proxy error'') @ [125]"
    by (simp add: compact_printer_def json_object_def)
  moreover have "(let t = [123] @ in_quotes (str ''message'') @ [58] @ in_quotes (str ''internal proxy error'') @ [125]
      in contains t (str ''internal proxy error'') \<and> \<not> contains t (str ''hunter2'') \<and>
         \<not> contains t (str ''/etc/secrets''))"
    by code_simp
  ultimately show ?thesis by (simp add: internal_errors_do_not_tell_the_client_what_went_wrong_def into_response_eq Let_def)
qed

lemma audit_test:
  "emits_records_with_and_without_optional_fields =
     [RequestLine (str ''phone'') (str ''vouchers:create'') (str ''default'') (str ''v1'') 3 200 (str ''ok'') 12,
      RequestLine (str ''phone'') (str ''sites:list'') (str ''-'') (str ''-'') 0 403 (str ''forbidden'') 0,
      RejectedLine (str ''-'') (str ''/some/path'') (str ''unknown_token'') 401]"
  by (simp add: emits_records_with_and_without_optional_fields_def emit_def rejected_def)

lemma model_tests:
  "reads_sites_in_every_shape_the_api_uses" "reads_vouchers_from_both_envelopes" "tolerates_missing_usage_fields"
  "skips_entries_without_an_id_instead_of_failing_the_response" "accepts_a_bare_array_as_well_as_an_envelope" "falls_back_to_the_first_list_valued_field"
  "returns_nothing_for_shapes_that_hold_no_list" "reads_numeric_ids" "treats_an_empty_string_as_absent"
  "skips_sites_without_an_id" "accepts_numeric_strings_for_int_fields"
  by code_simp+

lemma policy_tests:
  "accepts_a_normal_request why" "rejects_unknown_fields why" "enforces_the_count_ceiling why"
  "enforces_the_validity_ceiling why" "rejects_an_overlong_name why"
  "caps_validity_at_the_api_maximum_even_when_configured_higher why" "carries_optional_rate_limits_through why"
  "rejects_an_absurd_guest_limit why" "rejects_degenerate_values why"
  by code_simp+

lemma tls_tests:
  "normalizes_the_common_fingerprint_spellings" "rejects_things_that_are_not_fingerprints"
  by code_simp+

lemma upstream_tests: "normalizes_hosts" "rejects_path_traversal_in_ids"
  by code_simp+

end
