(* ===== verification/Tests_Auth.thy ===== *)
theory Tests_Auth
  imports Tests_Data Client_Auth
begin

text \<open>
  The unit tests of \<open>auth.rs\<close>. A test that mints keys or hashes them takes the crates behind a key
  as an argument, and passes when they do what they document for the keys of the test.
\<close>

section \<open>auth.rs\<close>

text \<open>
  The crates behind a key: Argon2 (\<open>kc_hash\<close> under a salt, \<open>kc_phc\<close>, \<open>kc_verify\<close>), base64, SHA-256
  and the formatting of a float.
\<close>

record key_crates =
  kc_hash :: "rstr \<Rightarrow> rstr \<Rightarrow> (rstr, rstr) result"
  kc_phc :: "rstr \<Rightarrow> (rstr, rstr) result"
  kc_verify :: "rstr \<Rightarrow> rstr \<Rightarrow> bool"
  kc_base64 :: "nat list \<Rightarrow> rstr"
  kc_sha256 :: "rstr \<Rightarrow> digest"
  kc_bits :: "nat \<Rightarrow> nat \<Rightarrow> rstr"

text \<open>
  What they document, for the salts \<open>S\<close> and the keys \<open>K\<close> of a run of the tests: Argon2 hashes a key to a
  PHC string it parses, which verifies that key and no other one of \<open>K\<close>; a PHC string starts with a dollar
  sign; 32 bytes are 43 characters of unpadded base64; no two keys of \<open>K\<close> have the same digest.
\<close>

definition kc_ok :: "key_crates \<Rightarrow> rstr set \<Rightarrow> rstr set \<Rightarrow> bool" where
  "kc_ok kc S K \<longleftrightarrow>
     (\<forall>salt \<in> S. \<forall>key \<in> K. \<exists>h. kc_hash kc salt key = Ok h \<and> kc_phc kc h = Ok h \<and>
        (\<forall>k \<in> K. kc_verify kc k h \<longleftrightarrow> k = key)) \<and>
     (\<forall>s. is_ok (kc_phc kc s) \<longrightarrow> prefix [36] s) \<and>
     (\<forall>bytes. length bytes = 32 \<longrightarrow> length (kc_base64 kc bytes) = 43) \<and>
     inj_on (kc_sha256 kc) K"

text \<open>Random bytes: 32 of them, so varied that the key has eight different characters.\<close>

definition random_draw :: "key_crates \<Rightarrow> nat list \<Rightarrow> bool" where
  "random_draw kc bytes \<longleftrightarrow> length bytes = 32 \<and> 8 \<le> card (set (kc_base64 kc bytes))"

definition minted :: "key_crates \<Rightarrow> rstr \<Rightarrow> nat list \<Rightarrow> (rstr \<times> rstr, anyhow) result" where
  "minted kc salt bytes = generate_token (kc_hash kc) (kc_base64 kc) salt bytes"

definition test_token_config :: "rstr \<Rightarrow> rstr \<Rightarrow> token_config" where
  "test_token_config name hash = \<lparr>tok_name = name, tok_hash = hash, tok_sites = [str ''*''],
     tok_scopes = [VouchersRead], tok_max_vouchers = None, tok_max_validity = None,
     tok_rate_limit = None, tok_expires_at = None\<rparr>"

text \<open>\<open>auth.authenticate(key)\<close>, and the authenticator after it.\<close>

definition attempt :: "key_crates \<Rightarrow> rstr \<Rightarrow> authenticator \<Rightarrow> rstr option \<times> authenticator" where
  "attempt kc key a = (case authenticate (kc_sha256 kc) (kc_verify kc) a key of (t, a', calls) \<Rightarrow>
     (map_option tok_name t, a'))"

definition generated_tokens_verify_against_their_hash :: "key_crates \<Rightarrow> rstr \<Rightarrow> nat list \<Rightarrow> bool" where
  "generated_tokens_verify_against_their_hash kc salt bytes =
     unwraps (minted kc salt bytes) (\<lambda>(token, hash).
       starts_with token TOKEN_PREFIX \<and>
       verify_pair (kc_phc kc) (kc_verify kc) token hash = Ok True \<and>
       verify_pair (kc_phc kc) (kc_verify kc) (str ''uvp_wrong'') hash = Ok False)"

definition authenticates_known_tokens_and_rejects_others :: "key_crates \<Rightarrow> rstr \<times> rstr
    \<Rightarrow> nat list \<Rightarrow> nat list \<Rightarrow> bool" where
  "authenticates_known_tokens_and_rejects_others kc salts bytes1 bytes2 =
     unwraps (minted kc (fst salts) bytes1) (\<lambda>(alpha, alpha_hash).
     unwraps (minted kc (snd salts) bytes2) (\<lambda>(beta, beta_hash).
     unwraps (authenticator_new (kc_phc kc) [test_token_config (str ''alpha'') alpha_hash,
         test_token_config (str ''beta'') beta_hash]) (\<lambda>a0.
       (let (r1, a1) = attempt kc alpha a0; (r2, a2) = attempt kc beta a1; (r3, a3) = attempt kc alpha a2;
            (r4, a4) = attempt kc (str ''uvp_nope'') a3; (r5, a5) = attempt kc [] a4
        in r1 = Some (str ''alpha'') \<and> r2 = Some (str ''beta'') \<and> r3 = Some (str ''alpha'') \<and>
           r4 = None \<and> r5 = None))))"

definition failed_lookups_do_not_grow_the_cache :: "key_crates \<Rightarrow> rstr \<Rightarrow> nat list \<Rightarrow> bool" where
  "failed_lookups_do_not_grow_the_cache kc salt bytes =
     unwraps (minted kc salt bytes) (\<lambda>(token, hash).
     unwraps (authenticator_new (kc_phc kc) [test_token_config (str ''only'') hash]) (\<lambda>a0.
       (let (rs, a1) = foldl (\<lambda>(rs, a) i. let (r, a') = attempt kc (str ''uvp_bogus'' @ show_nat i) a
              in (rs @ [r], a')) ([], a0) [0..<20];
            (r, a2) = attempt kc token a1
        in list_all (\<lambda>r. r = None) rs \<and> card (dom (auth_cache a1)) = 0 \<and>
           r \<noteq> None \<and> card (dom (auth_cache a2)) = 1)))"

definition accepts_a_reasonable_custom_key :: "key_crates \<Rightarrow> rstr \<Rightarrow> nat list \<Rightarrow> bool" where
  "accepts_a_reasonable_custom_key kc salt bytes =
     (is_ok (assess_strength (kc_bits kc) (str ''Kj8#mQp2vN9xL4wR7tZ'')) \<and>
      is_ok (assess_strength (kc_bits kc) (str ''correct-horse-battery-staple-42'')) \<and>
      unwraps (minted kc salt bytes) (\<lambda>(token, hash). is_ok (assess_strength (kc_bits kc) token)))"

definition refuses_keys_that_are_not_worth_having :: "key_crates \<Rightarrow> bool" where
  "refuses_keys_that_are_not_worth_having kc =
     list_all (\<lambda>weak. \<not> is_ok (assess_strength (kc_bits kc) (str weak)))
       [''short'', ''letmein123'', ''aaaaaaaaaaaaaaaaaaaaaaaaaa'', ''abababababababababab'',
        ''passwordpassword'']"

definition custom_keys_hash_and_authenticate_like_generated_ones :: "key_crates \<Rightarrow> rstr \<Rightarrow> bool" where
  "custom_keys_hash_and_authenticate_like_generated_ones kc salt =
     (let custom = str ''Kj8#mQp2vN9xL4wR7tZ''
      in unwraps (hash_token (kc_hash kc) salt custom) (\<lambda>hash.
         unwraps (authenticator_new (kc_phc kc) [test_token_config (str ''custom'') hash]) (\<lambda>a0.
           (let (r1, a1) = attempt kc custom a0; (r2, a2) = attempt kc (str ''Kj8#mQp2vN9xL4wR7tY'') a1
            in r1 = Some (str ''custom'') \<and> r2 = None))))"

definition refuses_a_key_with_enough_variety_but_too_little_length :: "key_crates \<Rightarrow> bool" where
  "refuses_a_key_with_enough_variety_but_too_little_length kc =
     unwraps_err (assess_strength (kc_bits kc) (str ''abcdefghijklmnop''))
       (\<lambda>err. contains err (str ''bits of entropy''))"

definition the_authenticator_does_not_print_its_tokens :: "key_crates \<Rightarrow> rstr \<Rightarrow> nat list \<Rightarrow> bool" where
  "the_authenticator_does_not_print_its_tokens kc salt bytes =
     unwraps (minted kc salt bytes) (\<lambda>(token, hash).
     unwraps (authenticator_new (kc_phc kc) [test_token_config (str ''secretive'') hash]) (\<lambda>a.
       (let rendered = authenticator_debug a
        in contains rendered (str ''Authenticator'') \<and> contains rendered (str ''1'') \<and>
           \<not> contains rendered (str ''secretive'') \<and> \<not> contains rendered (str ''argon2''))))"

definition a_malformed_hash_fails_at_construction_not_at_request_time :: "key_crates \<Rightarrow> bool" where
  "a_malformed_hash_fails_at_construction_not_at_request_time kc =
     unwraps_err (authenticator_new (kc_phc kc) [test_token_config (str ''broken'') (str ''not-a-hash'')])
       (\<lambda>err. contains (hd err) (str ''unparsable hash''))"

definition load_hash_check_accepts_real_hashes_and_rejects_the_rest :: "key_crates \<Rightarrow> rstr \<Rightarrow> nat list \<Rightarrow> bool" where
  "load_hash_check_accepts_real_hashes_and_rejects_the_rest kc salt bytes =
     unwraps (minted kc salt bytes) (\<lambda>(token, hash).
       is_ok (load_hash_check (kc_phc kc) hash) \<and>
       \<not> is_ok (load_hash_check (kc_phc kc) (str ''uvp_raw_token'')))"

definition verify_pair_reports_a_bad_hash_rather_than_a_bad_match :: "key_crates \<Rightarrow> bool" where
  "verify_pair_reports_a_bad_hash_rather_than_a_bad_match kc =
     (\<not> is_ok (verify_pair (kc_phc kc) (kc_verify kc) (str ''anything'') (str ''not-a-phc-string'')))"

definition an_empty_x_api_key_falls_through_to_the_bearer_header :: bool where
  "an_empty_x_api_key_falls_through_to_the_bearer_header =
     (token_from_headers [(str ''x-api-key'', []), (str ''authorization'', str ''Bearer fallback'')] =
        Some (str ''fallback'') \<and>
      token_from_headers [(str ''authorization'', str ''Bearer '')] = None \<and>
      token_from_headers [(str ''authorization'', str ''Basic abc'')] = None)"

definition reads_both_header_styles :: bool where
  "reads_both_header_styles =
     (token_from_headers [(str ''x-api-key'', str ''abc'')] = Some (str ''abc'') \<and>
      token_from_headers [(str ''authorization'', str ''Bearer xyz'')] = Some (str ''xyz'') \<and>
      token_from_headers [] = None)"

subsection \<open>They pass\<close>

text \<open>The keys the tests make up, and the one a draw mints.\<close>

definition made_up_keys :: "rstr list" where
  "made_up_keys = [str ''uvp_wrong'', str ''uvp_nope'', str ''Kj8#mQp2vN9xL4wR7tZ'', str ''Kj8#mQp2vN9xL4wR7tY'']
     @ map (\<lambda>i. str ''uvp_bogus'' @ show_nat i) [0..<20]"

definition minted_token :: "key_crates \<Rightarrow> nat list \<Rightarrow> rstr" where
  "minted_token kc bytes = TOKEN_PREFIX @ kc_base64 kc bytes"

lemma sublist_mid: "s = a @ p @ c \<Longrightarrow> sublist p s"
  by (auto simp: sublist_def)

lemma made_up_length: "k \<in> set made_up_keys \<Longrightarrow> length k \<noteq> 47 \<and> k \<noteq> []"
proof -
  have "list_all (\<lambda>k. length k \<noteq> 47 \<and> k \<noteq> []) made_up_keys" by code_simp
  then show "k \<in> set made_up_keys \<Longrightarrow> length k \<noteq> 47 \<and> k \<noteq> []" by (simp add: list_all_iff)
qed

lemma made_up_members [simp]:
  "str ''uvp_wrong'' \<in> set made_up_keys" "str ''uvp_nope'' \<in> set made_up_keys"
  "str ''Kj8#mQp2vN9xL4wR7tZ'' \<in> set made_up_keys" "str ''Kj8#mQp2vN9xL4wR7tY'' \<in> set made_up_keys"
  "i < 20 \<Longrightarrow> str ''uvp_bogus'' @ show_nat i \<in> set made_up_keys"
  by (simp_all add: made_up_keys_def)

lemma kc_hashes:
  "kc_ok kc S K \<Longrightarrow> salt \<in> S \<Longrightarrow> key \<in> K \<Longrightarrow>
     \<exists>h. kc_hash kc salt key = Ok h \<and> kc_phc kc h = Ok h \<and> (\<forall>k \<in> K. kc_verify kc k h \<longleftrightarrow> k = key)"
  by (simp add: kc_ok_def)

lemma kc_refuses: "kc_ok kc S K \<Longrightarrow> \<not> prefix [36] s \<Longrightarrow> \<exists>e. kc_phc kc s = Err e"
  by (cases "kc_phc kc s") (auto simp: kc_ok_def is_ok_iff)

lemma kc_digests: "kc_ok kc S K \<Longrightarrow> p \<in> K \<Longrightarrow> q \<in> K \<Longrightarrow> p \<noteq> q \<Longrightarrow> kc_sha256 kc p \<noteq> kc_sha256 kc q"
  by (auto simp: kc_ok_def dest: inj_onD)

lemma minted_token_length: "kc_ok kc S K \<Longrightarrow> length bytes = 32 \<Longrightarrow> length (minted_token kc bytes) = 47"
  by (simp add: kc_ok_def minted_token_def TOKEN_PREFIX_def)

text \<open>A minted key is longer than any key a test makes up.\<close>

lemma minted_not_made_up:
  "kc_ok kc S K \<Longrightarrow> length bytes = 32 \<Longrightarrow> k \<in> set made_up_keys \<Longrightarrow> k \<noteq> minted_token kc bytes"
  using made_up_length minted_token_length by metis

lemma minted_key:
  assumes "kc_ok kc S K" "salt \<in> S" "minted_token kc bytes \<in> K"
  shows "\<exists>h. minted kc salt bytes = Ok (minted_token kc bytes, h) \<and>
    kc_phc kc h = Ok h \<and> (\<forall>k \<in> K. kc_verify kc k h \<longleftrightarrow> k = minted_token kc bytes)"
proof -
  from kc_hashes [OF assms] obtain h where "kc_hash kc salt (minted_token kc bytes) = Ok h"
    "kc_phc kc h = Ok h" "\<forall>k \<in> K. kc_verify kc k h \<longleftrightarrow> k = minted_token kc bytes" by blast
  then show ?thesis
    by (simp add: minted_def generate_token_def hash_token_def flip: minted_token_def)
qed

lemma new_authenticator:
  "list_all (\<lambda>t. kc_phc kc (tok_hash t) = Ok (tok_hash t)) ts \<Longrightarrow>
     authenticator_new (kc_phc kc) ts = Ok \<lparr>auth_tokens = map (\<lambda>t. (t, tok_hash t)) ts, auth_cache = Map.empty\<rparr>"
proof -
  assume "list_all (\<lambda>t. kc_phc kc (tok_hash t) = Ok (tok_hash t)) ts"
  then have "try_collect (\<lambda>t. and_then (map_err (\<lambda>e. [str ''token '' @ [39] @ tok_name t @ [39]
        @ str '' has an unparsable hash: '' @ e]) (kc_phc kc (tok_hash t))) (\<lambda>hash. Ok (t, hash))) ts =
      Ok (map (\<lambda>t. (t, tok_hash t)) ts)"
    by (induction ts) simp_all
  then show ?thesis by (simp add: authenticator_new_def)
qed

text \<open>\<open>new_auth ts\<close>: the authenticator of these tokens, and how it answers.\<close>

definition new_auth :: "token_config list \<Rightarrow> authenticator" where
  "new_auth ts = \<lparr>auth_tokens = map (\<lambda>t. (t, tok_hash t)) ts, auth_cache = Map.empty\<rparr>"

lemma attempt_refused:
  "auth_cache a (kc_sha256 kc k) = None \<Longrightarrow> list_all (\<lambda>(t, h). \<not> kc_verify kc k h) (auth_tokens a) \<Longrightarrow>
     attempt kc k a = (None, a)"
proof -
  assume a: "auth_cache a (kc_sha256 kc k) = None" "list_all (\<lambda>(t, h). \<not> kc_verify kc k h) (auth_tokens a)"
  have "first_index (\<lambda>(t, h). kc_verify kc k h) i ts = None"
    if "list_all (\<lambda>(t, h). \<not> kc_verify kc k h) ts" for i and ts :: "(token_config \<times> rstr) list"
    using that by (induction ts arbitrary: i) auto
  with a show ?thesis by (simp add: attempt_def authenticate_unfold)
qed

lemma attempts_refused:
  "list_all (\<lambda>i. attempt kc (f i) a = (None, a)) is \<Longrightarrow>
     foldl (\<lambda>(rs, a) i. case attempt kc (f i) a of (r, a') \<Rightarrow> (rs @ [r], a')) (rs, a) is =
       (rs @ replicate (length is) None, a)"
  by (induction "is" arbitrary: rs) (simp_all add: replicate_append_same)

lemma minted_tests:
  assumes kc: "kc_ok kc S K" and K: "set made_up_keys \<subseteq> K" "minted_token kc bytes \<in> K" "salt \<in> S"
    and draw: "random_draw kc bytes"
  shows "generated_tokens_verify_against_their_hash kc salt bytes"
    and "the_authenticator_does_not_print_its_tokens kc salt bytes"
    and "load_hash_check_accepts_real_hashes_and_rejects_the_rest kc salt bytes"
    and "failed_lookups_do_not_grow_the_cache kc salt bytes"
    and "accepts_a_reasonable_custom_key kc salt bytes"
proof -
  let ?key = "minted_token kc bytes"
  from draw have len: "length bytes = 32" by (simp add: random_draw_def)
  obtain h where m: "minted kc salt bytes = Ok (?key, h)" and phc: "kc_phc kc h = Ok h"
    and ver: "\<And>k. k \<in> K \<Longrightarrow> kc_verify kc k h \<longleftrightarrow> k = ?key"
    using minted_key [OF kc K(3,2)] by blast
  have other: "k \<in> K \<and> k \<noteq> ?key" if "k \<in> set made_up_keys" for k
    using that K(1) minted_not_made_up [OF kc len] by blast
  have "starts_with ?key TOKEN_PREFIX" by (simp add: minted_token_def starts_with_def)
  moreover have "kc_verify kc ?key h" "\<not> kc_verify kc (str ''uvp_wrong'') h"
    using ver other [OF made_up_members(1)] K(2) by simp_all
  ultimately show "generated_tokens_verify_against_their_hash kc salt bytes"
    by (simp add: generated_tokens_verify_against_their_hash_def m unwraps_def verify_pair_def phc)
  obtain e where e: "kc_phc kc (str ''uvp_raw_token'') = Err e"
    using kc_refuses [OF kc, of "str ''uvp_raw_token''"] by (auto simp: str_def)
  show "load_hash_check_accepts_real_hashes_and_rejects_the_rest kc salt bytes"
    by (simp add: load_hash_check_accepts_real_hashes_and_rejects_the_rest_def m unwraps_def
        load_hash_check_def phc e with_context_def)
  have "(let rendered = str ''Authenticator { tokens: '' @ show_nat 1 @ str '', .. }''
      in contains rendered (str ''Authenticator'') \<and> contains rendered (str ''1'') \<and>
         \<not> contains rendered (str ''secretive'') \<and> \<not> contains rendered (str ''argon2''))"
    by code_simp
  then show "the_authenticator_does_not_print_its_tokens kc salt bytes"
    by (simp add: the_authenticator_does_not_print_its_tokens_def m unwraps_def new_authenticator phc
        test_token_config_def authenticator_debug_def Let_def)
  let ?a = "new_auth [test_token_config (str ''only'') h]"
  have "list_all (\<lambda>i. attempt kc (str ''uvp_bogus'' @ show_nat i) ?a = (None, ?a)) [0..<20]"
    using ver other by (auto simp: list_all_iff new_auth_def test_token_config_def intro!: attempt_refused)
  from attempts_refused [OF this, of "[]"]
  have run: "foldl (\<lambda>(rs, a) i. case attempt kc (str ''uvp_bogus'' @ show_nat i) a of (r, a') \<Rightarrow> (rs @ [r], a'))
      ([], ?a) [0..<20] = (replicate 20 None, ?a)" by simp
  have hit: "attempt kc ?key ?a = (Some (str ''only''), ?a\<lparr>auth_cache := [kc_sha256 kc ?key \<mapsto> 0]\<rparr>)"
    using ver [OF K(2)]
    by (simp add: attempt_def authenticate_unfold new_auth_def test_token_config_def nth_opt_def
        minted_token_def TOKEN_PREFIX_def)
  have "authenticator_new (kc_phc kc) [test_token_config (str ''only'') h] = Ok ?a"
    by (simp add: new_authenticator new_auth_def phc test_token_config_def)
  then show "failed_lookups_do_not_grow_the_cache kc salt bytes"
    by (simp add: failed_lookups_do_not_grow_the_cache_def m unwraps_def run hit Let_def)
       (simp add: new_auth_def list_all_iff)
  have "8 \<le> card (set ?key)"
    using draw card_mono [of "set ?key" "set (kc_base64 kc bytes)"]
    by (auto simp: random_draw_def minted_token_def intro: order.trans)
  moreover have "59 \<le> char_pool ?key"
  proof -
    have "list_ex is_ascii_lowercase TOKEN_PREFIX \<and> list_ex (\<lambda>c. \<not> is_ascii_alphanumeric c) TOKEN_PREFIX"
      by code_simp
    then show ?thesis by (simp add: char_pool_def minted_token_def)
  qed
  then have "(59 :: nat) ^ 47 \<le> char_pool ?key ^ 47" by (rule power_mono) simp
  then have "\<not> char_pool ?key ^ 47 < 2 ^ MIN_ENTROPY_BITS" by (simp add: MIN_ENTROPY_BITS_def)
  ultimately have "is_ok (assess_strength (kc_bits kc) ?key)"
    using minted_token_length [OF kc len] by (simp add: assess_strength_def Let_def)
  moreover have "is_ok (assess_strength (kc_bits kc) (str ''Kj8#mQp2vN9xL4wR7tZ''))"
    "is_ok (assess_strength (kc_bits kc) (str ''correct-horse-battery-staple-42''))"
    by code_simp+
  ultimately show "accepts_a_reasonable_custom_key kc salt bytes"
    by (simp add: accepts_a_reasonable_custom_key_def m unwraps_def)
qed

lemma known_tokens_test:
  assumes kc: "kc_ok kc S K" and K: "set made_up_keys \<subseteq> K" "minted_token kc bytes1 \<in> K" "minted_token kc bytes2 \<in> K"
    and S: "fst salts \<in> S" "snd salts \<in> S" and len: "length bytes1 = 32" "length bytes2 = 32"
    and other: "minted_token kc bytes1 \<noteq> minted_token kc bytes2"
  shows "authenticates_known_tokens_and_rejects_others kc salts bytes1 bytes2"
proof -
  let ?alpha = "minted_token kc bytes1" and ?beta = "minted_token kc bytes2" and ?nope = "str ''uvp_nope''"
  obtain h1 where m1: "minted kc (fst salts) bytes1 = Ok (?alpha, h1)" "kc_phc kc h1 = Ok h1"
    and v1: "\<And>k. k \<in> K \<Longrightarrow> kc_verify kc k h1 \<longleftrightarrow> k = ?alpha"
    using minted_key [OF kc S(1) K(2)] by blast
  obtain h2 where m2: "minted kc (snd salts) bytes2 = Ok (?beta, h2)" "kc_phc kc h2 = Ok h2"
    and v2: "\<And>k. k \<in> K \<Longrightarrow> kc_verify kc k h2 \<longleftrightarrow> k = ?beta"
    using minted_key [OF kc S(2) K(3)] by blast
  have nope: "?nope \<in> K" "?nope \<noteq> ?alpha" "?nope \<noteq> ?beta"
    using K(1) minted_not_made_up [OF kc] len made_up_members(2) by (blast+)
  have sha: "kc_sha256 kc ?beta \<noteq> kc_sha256 kc ?alpha" "kc_sha256 kc ?nope \<noteq> kc_sha256 kc ?alpha"
    "kc_sha256 kc ?nope \<noteq> kc_sha256 kc ?beta"
    by (rule kc_digests [OF kc]; use K nope other in simp)+
  have ne: "?alpha \<noteq> []" "?beta \<noteq> []" by (simp_all add: minted_token_def TOKEN_PREFIX_def)
  show ?thesis
    using sha [symmetric]
    by (simp add: authenticates_known_tokens_and_rejects_others_def m1 m2 unwraps_def new_authenticator
        test_token_config_def attempt_def authenticate_unfold v1 v2 K nope other other [symmetric]
        sha ne nth_opt_def Let_def)
qed

lemma custom_key_tests:
  assumes kc: "kc_ok kc S K" and K: "set made_up_keys \<subseteq> K" and S: "salt \<in> S"
  shows "custom_keys_hash_and_authenticate_like_generated_ones kc salt"
    and "a_malformed_hash_fails_at_construction_not_at_request_time kc"
    and "verify_pair_reports_a_bad_hash_rather_than_a_bad_match kc"
proof -
  let ?key = "str ''Kj8#mQp2vN9xL4wR7tZ''" and ?other = "str ''Kj8#mQp2vN9xL4wR7tY''"
  have k: "?key \<in> K" "?other \<in> K" using K made_up_members(3,4) by blast+
  obtain h where h: "kc_hash kc salt ?key = Ok h" "kc_phc kc h = Ok h"
    and ver: "\<And>k. k \<in> K \<Longrightarrow> kc_verify kc k h \<longleftrightarrow> k = ?key"
    using kc_hashes [OF kc S k(1)] by blast
  have ne: "?other \<noteq> ?key" "?key \<noteq> []" by code_simp+
  have sha: "kc_sha256 kc ?other \<noteq> kc_sha256 kc ?key" by (rule kc_digests [OF kc k(2,1) ne(1)])
  show "custom_keys_hash_and_authenticate_like_generated_ones kc salt"
    using ne sha ver [OF k(1)] ver [OF k(2)]
    by (simp add: custom_keys_hash_and_authenticate_like_generated_ones_def hash_token_def h unwraps_def
        new_authenticator test_token_config_def attempt_def authenticate_unfold nth_opt_def Let_def)
  obtain e where e: "kc_phc kc (str ''not-a-hash'') = Err e"
    using kc_refuses [OF kc, of "str ''not-a-hash''"] by (auto simp: str_def)
  have "contains (str ''token '' @ [39] @ str ''broken'' @ [39] @ str '' has an unparsable hash: '' @ e)
      (str ''unparsable hash'')"
    unfolding contains_def by (rule sublist_mid [where a = "str ''token '' @ [39] @ str ''broken'' @ [39] @ str '' has an ''" and c = "str '': '' @ e"]) (simp add: str_def)
  then show "a_malformed_hash_fails_at_construction_not_at_request_time kc"
    by (simp add: a_malformed_hash_fails_at_construction_not_at_request_time_def unwraps_err_def
        authenticator_new_def test_token_config_def e)
  obtain e' where "kc_phc kc (str ''not-a-phc-string'') = Err e'"
    using kc_refuses [OF kc, of "str ''not-a-phc-string''"] by (auto simp: str_def)
  then show "verify_pair_reports_a_bad_hash_rather_than_a_bad_match kc"
    by (simp add: verify_pair_reports_a_bad_hash_rather_than_a_bad_match_def verify_pair_def)
qed

lemma weak_key_tests:
  "refuses_keys_that_are_not_worth_having kc"
  "refuses_a_key_with_enough_variety_but_too_little_length kc"
proof -
  show "refuses_keys_that_are_not_worth_having kc" by code_simp
  have "length (str ''abcdefghijklmnop'') = 16" "card (set (str ''abcdefghijklmnop'')) = 16"
    "char_pool (str ''abcdefghijklmnop'') = 26"
    by code_simp+
  moreover have "contains (str ''roughly '' @ b @ str '' bits of entropy, '' @ r) (str ''bits of entropy'')" for b r
    unfolding contains_def
    by (rule sublist_mid [where a = "str ''roughly '' @ b @ str '' ''" and c = "str '', '' @ r"]) (simp add: str_def)
  ultimately show "refuses_a_key_with_enough_variety_but_too_little_length kc"
    by (simp add: refuses_a_key_with_enough_variety_but_too_little_length_def unwraps_err_def
        assess_strength_def MIN_ENTROPY_BITS_def)
qed

lemma header_tests: "an_empty_x_api_key_falls_through_to_the_bearer_header" "reads_both_header_styles"
  by code_simp+

end
