(* ===== verification/Tests_Service.thy ===== *)
theory Tests_Service
  imports Tests_Data Rate_Limits Metrics_Counters Gql_Surface
begin

text \<open>
  The unit tests of \<open>ratelimit.rs\<close>, \<open>metrics.rs\<close> and \<open>graphql.rs\<close>. Those of the limits take
  \<open>governor\<close> and the instant at which they run, and pass under the crate's documented burst, of a
  direct limiter and of a keyed one.
\<close>

section \<open>ratelimit.rs\<close>

definition test_rate_config :: "u32 \<Rightarrow> u32 option \<Rightarrow> config" where
  "test_rate_config global per_token =
     \<lparr>cfg_server = default_server,
      cfg_controller = \<lparr>host = str ''https://10.0.0.1'', api_key = Secret (str ''k''), tls = default_tls\<rparr>,
      cfg_limits = default_limits\<lparr>rate_limit_per_minute := global, rate_limit_per_ip_per_minute := 0\<rparr>,
      cfg_tokens = [\<lparr>tok_name = str ''phone'',
        tok_hash = str ''$argon2id$v=19$m=1,t=1,p=1$c2FsdA$aGFzaA'', tok_sites = [str ''*''],
        tok_scopes = [VouchersRead], tok_max_vouchers = None, tok_max_validity = None,
        tok_rate_limit = per_token, tok_expires_at = None\<rparr>]\<rparr>"

definition with_ip_limit :: "u32 \<Rightarrow> config \<Rightarrow> config" where
  "with_ip_limit n cfg = cfg\<lparr>cfg_limits := (cfg_limits cfg)\<lparr>rate_limit_per_ip_per_minute := n\<rparr>\<rparr>"

definition test_ip :: "nat \<Rightarrow> ip_addr" where
  "test_ip i = V4 (of_nat (127 * 2 ^ 24 + i))"

text \<open>The answers to a sequence of calls, all at one instant.\<close>

fun ip_checks :: "('l, 'k) governor \<Rightarrow> nat \<Rightarrow> ip_addr list \<Rightarrow> ('l, 'k) rate_limits \<Rightarrow> bool list" where
  "ip_checks gov now [] r = []"
| "ip_checks gov now (ip # ips) r =
     fst (check_ip gov now ip r) # ip_checks gov now ips (snd (check_ip gov now ip r))"

definition stops_a_caller_that_burns_its_quota :: "('l, 'k) governor \<Rightarrow> nat \<Rightarrow> bool" where
  "stops_a_caller_that_burns_its_quota gov now =
     (let cfg = test_rate_config 2 None; token = hd (cfg_tokens cfg)
      in checks gov now (tok_name token) 3 (rates_from_config gov now cfg) = [True, True, False])"

definition a_token_may_tighten_but_not_widen_the_global_quota :: "('l, 'k) governor \<Rightarrow> nat \<Rightarrow> bool" where
  "a_token_may_tighten_but_not_widen_the_global_quota gov now =
     (let cfg = test_rate_config 10 (Some 1); token = hd (cfg_tokens cfg)
      in checks gov now (tok_name token) 2 (rates_from_config gov now cfg) = [True, False])"

definition a_source_address_gets_its_own_pre_auth_budget :: "('l, 'k) governor \<Rightarrow> nat \<Rightarrow> bool" where
  "a_source_address_gets_its_own_pre_auth_budget gov now =
     (let cfg = with_ip_limit 2 (test_rate_config 0 None)
      in ip_checks gov now [test_ip 1, test_ip 1, test_ip 1, test_ip 2] (rates_from_config gov now cfg) =
           [True, True, False, True])"

definition a_pre_auth_budget_of_zero_is_unlimited :: "('l, 'k) governor \<Rightarrow> nat \<Rightarrow> bool" where
  "a_pre_auth_budget_of_zero_is_unlimited gov now =
     (let cfg = test_rate_config 0 None
      in rate_limit_per_ip_per_minute (cfg_limits cfg) = 0 \<and>
         list_all (\<lambda>b. b) (ip_checks gov now (replicate 2000 (test_ip 1)) (rates_from_config gov now cfg)))"

text \<open>The test of the sweep asserts that nothing panics; this is the state it ends in.\<close>

definition the_keyed_store_is_swept_so_it_cannot_grow_without_bound ::
    "('l, 'k) governor \<Rightarrow> nat \<Rightarrow> ('l, 'k) rate_limits" where
  "the_keyed_store_is_swept_so_it_cannot_grow_without_bound gov now =
     (let cfg = with_ip_limit 60 (test_rate_config 0 None)
      in ip_run gov (map (\<lambda>i. (now, V4 (of_nat (10 * 2 ^ 24 + (i div 256) * 2 ^ 8 + i mod 256))))
           [0..<unat SWEEP_EVERY + 8]) (rates_from_config gov now cfg))"

definition zero_means_unlimited :: "('l, 'k) governor \<Rightarrow> nat \<Rightarrow> bool" where
  "zero_means_unlimited gov now =
     (let cfg = test_rate_config 0 None; token = hd (cfg_tokens cfg)
      in list_all (\<lambda>b. b) (checks gov now (tok_name token) 1000 (rates_from_config gov now cfg)))"

text \<open>
  The burst of a keyed limiter: an address has \<open>left\<close> calls left at an instant, all of the quota at
  first; a call is admitted exactly when some are left, and spends one of its own address only.
\<close>

definition keyed_burst_law :: "('l, 'k) governor \<Rightarrow> bool" where
  "keyed_burst_law gov \<longleftrightarrow>
     (\<exists>left :: nat \<Rightarrow> 'k \<Rightarrow> ip_addr \<Rightarrow> nat.
        (\<forall>n now ip. n \<noteq> 0 \<longrightarrow> left now (gov_keyed gov n now) ip = unat n) \<and>
        (\<forall>now k ip. fst (gov_check_key gov k ip now) = (0 < left now k ip) \<and>
           left now (snd (gov_check_key gov k ip now)) = (left now k)(ip := left now k ip - 1)))"

subsection \<open>They pass\<close>

lemma test_token [simp]:
  "tok_name (hd (cfg_tokens (test_rate_config g p))) = str ''phone''"
  "map tok_name (cfg_tokens (test_rate_config g p)) = [str ''phone'']"
  by (simp_all add: test_rate_config_def)

lemma test_limiter:
  "limiters (rates_from_config gov now (test_rate_config g p)) (str ''phone'') =
     map_option (\<lambda>n. gov_direct gov n now)
       (non_zero (effective_rate_limit (hd (cfg_tokens (test_rate_config g p))) (cfg_limits (test_rate_config g p))))"
  by (simp add: rates_from_config_def test_rate_config_def split: option.split)

lemma test_rate:
  "effective_rate_limit (hd (cfg_tokens (test_rate_config g None))) (cfg_limits (test_rate_config g None)) = g"
  "effective_rate_limit (hd (cfg_tokens (test_rate_config 10 (Some 1)))) (cfg_limits (test_rate_config 10 (Some 1))) = 1"
  by (simp_all add: test_rate_config_def effective_rate_limit_def min_def word_le_nat_alt)

lemma drain_fresh:
  assumes "burst_law gov"
  shows "drain gov now 3 (gov_direct gov 2 now) = [True, True, False]"
    and "drain gov now 2 (gov_direct gov 1 now) = [True, False]"
proof -
  have law: "drain gov now (m + 1) (gov_direct gov n now) = replicate m True @ [False]"
    if "n \<noteq> 0" "unat n = m" for n m
    using assms that unfolding burst_law_def by (metis replicate_0 replicate_Suc One_nat_def)
  have "replicate 2 True = [True, True]" by (simp add: numeral_2_eq_2)
  then show "drain gov now 3 (gov_direct gov 2 now) = [True, True, False]"
    using law [of 2 2] by (simp del: drain.simps)
  have "replicate 1 True = [True]" by simp
  then show "drain gov now 2 (gov_direct gov 1 now) = [True, False]"
    using law [of 1 1] by (simp add: numeral_2_eq_2 del: drain.simps)
qed

lemma token_limit_tests:
  assumes "burst_law gov"
  shows "stops_a_caller_that_burns_its_quota gov now"
    and "a_token_may_tighten_but_not_widen_the_global_quota gov now"
    and "zero_means_unlimited gov now"
proof -
  have limited: "checks gov now (str ''phone'') i (rates_from_config gov now (test_rate_config g p)) =
      drain gov now i (gov_direct gov r now)"
    if "effective_rate_limit (hd (cfg_tokens (test_rate_config g p))) (cfg_limits (test_rate_config g p)) = r"
      and "r \<noteq> 0" for i g p r
    by (rule checks_limited) (simp add: test_limiter that non_zero_def)
  show "stops_a_caller_that_burns_its_quota gov now"
    unfolding stops_a_caller_that_burns_its_quota_def Let_def test_token
    by (subst limited [OF test_rate(1)]) (simp_all add: drain_fresh [OF assms] del: drain.simps)
  show "a_token_may_tighten_but_not_widen_the_global_quota gov now"
    unfolding a_token_may_tighten_but_not_widen_the_global_quota_def Let_def test_token
    by (subst limited [OF test_rate(2)]) (simp_all add: drain_fresh [OF assms] del: drain.simps)
  have "checks gov now (str ''phone'') i (rates_from_config gov now (test_rate_config 0 None)) =
      replicate i True" for i
    by (rule checks_unlimited) (simp add: test_limiter test_rate non_zero_def)
  then have "list_all (\<lambda>b. b) (checks gov now (str ''phone'') i (rates_from_config gov now (test_rate_config 0 None)))" for i
    by (simp add: list_all_iff)
  then show "zero_means_unlimited gov now"
    unfolding zero_means_unlimited_def Let_def test_token .
qed

lemma ip_checks_unlimited: "per_ip r = None \<Longrightarrow> ip_checks gov now ips r = replicate (length ips) True"
  by (induction ips) (simp_all add: check_ip_def)

text \<open>Below the threshold of the sweep, a check is the keyed limiter's.\<close>

lemma check_ip_keyed:
  "per_ip r = Some k \<Longrightarrow> sweep r < 1023 \<Longrightarrow>
     check_ip gov now ip r = (fst (gov_check_key gov k ip now),
       r\<lparr>per_ip := Some (snd (gov_check_key gov k ip now)), sweep := sweep r + 1\<rparr>)"
proof -
  assume "per_ip r = Some k" and "sweep r < 1023"
  moreover from this(2) have "sweep r mod SWEEP_EVERY \<noteq> SWEEP_EVERY - 1"
    by (auto simp: SWEEP_EVERY_def word_less_nat_alt word_unat_eq_iff unat_mod_distrib)
  ultimately show ?thesis by (simp add: check_ip_def split: prod.split)
qed

lemma ip_limit_tests:
  assumes "keyed_burst_law gov"
  shows "a_source_address_gets_its_own_pre_auth_budget gov now"
    and "a_pre_auth_budget_of_zero_is_unlimited gov now"
proof -
  from assms obtain left :: "nat \<Rightarrow> 'b \<Rightarrow> ip_addr \<Rightarrow> nat" where
    fresh: "\<And>n ip. n \<noteq> 0 \<Longrightarrow> left now (gov_keyed gov n now) ip = unat n" and
    call: "\<And>k ip. fst (gov_check_key gov k ip now) = (0 < left now k ip)"
      "\<And>k ip. left now (snd (gov_check_key gov k ip now)) = (left now k)(ip := left now k ip - 1)"
    unfolding keyed_burst_law_def by blast
  have "test_ip 1 \<noteq> test_ip 2" by (simp add: test_ip_def)
  then show "a_source_address_gets_its_own_pre_auth_budget gov now"
    by (simp add: a_source_address_gets_its_own_pre_auth_budget_def with_ip_limit_def test_rate_config_def
        rates_from_config_def non_zero_def check_ip_keyed call fresh)
  have "list_all (\<lambda>b. b) (ip_checks gov now ips (rates_from_config gov now (test_rate_config 0 None)))" for ips
    by (subst ip_checks_unlimited)
       (simp_all add: test_rate_config_def rates_from_config_def non_zero_def list_all_iff)
  moreover have "rate_limit_per_ip_per_minute (cfg_limits (test_rate_config 0 None)) = 0"
    by (simp add: test_rate_config_def)
  ultimately show "a_pre_auth_budget_of_zero_is_unlimited gov now"
    unfolding a_pre_auth_budget_of_zero_is_unlimited_def Let_def by blast
qed

lemma sweep_test:
  "sweep (the_keyed_store_is_swept_so_it_cannot_grow_without_bound gov now) = 1032 \<and>
   per_ip (the_keyed_store_is_swept_so_it_cannot_grow_without_bound gov now) \<noteq> None"
proof -
  let ?r = "rates_from_config gov now (with_ip_limit 60 (test_rate_config 0 None))"
  have "per_ip ?r \<noteq> None" "sweep ?r = 0"
    by (simp_all add: with_ip_limit_def test_rate_config_def rates_from_config_def non_zero_def)
  with ip_run_sweep [of ?r gov] show ?thesis
    by (simp add: the_keyed_store_is_swept_so_it_cannot_grow_without_bound_def SWEEP_EVERY_def)
qed

section \<open>metrics.rs\<close>

definition counts_requests_per_label_set :: bool where
  "counts_requests_per_label_set =
     (let m = fold (\<lambda>(token, action, outcome). record_request (str token) (str action) (str outcome))
            [(''phone'', ''vouchers:create'', ''ok''), (''phone'', ''vouchers:create'', ''ok''),
             (''phone'', ''vouchers:create'', ''forbidden''), (''display'', ''vouchers:list'', ''ok'')]
            metrics_default;
          out = render (str ''1.2.3'') 2 m;
          sample = (\<lambda>token action outcome n. str ''uvp_requests_total{token='' @ in_quotes (str token)
            @ str '',action='' @ in_quotes (str action) @ str '',outcome='' @ in_quotes (str outcome)
            @ str n)
      in contains out (sample ''phone'' ''vouchers:create'' ''ok'' ''} 2'') \<and>
         contains out (sample ''phone'' ''vouchers:create'' ''forbidden'' ''} 1'') \<and>
         contains out (sample ''display'' ''vouchers:list'' ''ok'' ''} 1''))"

definition sums_vouchers_rather_than_counting_calls :: bool where
  "sums_vouchers_rather_than_counting_calls =
     (let m = record_vouchers_created (str ''phone'') 2
            (record_vouchers_created (str ''phone'') 5 metrics_default)
      in contains (render (str ''v'') 1 m)
           (str ''uvp_vouchers_created_total{token='' @ in_quotes (str ''phone'') @ str ''} 7''))"

definition reports_build_info_and_token_count :: bool where
  "reports_build_info_and_token_count =
     (let out = render (str ''9.9.9'') 3 metrics_default
      in contains out (str ''uvp_build_info{version='' @ in_quotes (str ''9.9.9'') @ str ''} 1'') \<and>
         contains out (str ''uvp_tokens_configured 3''))"

definition converts_upstream_latency_to_seconds :: bool where
  "converts_upstream_latency_to_seconds =
     (let out = render (str ''v'') 0 (record_upstream 500 (record_upstream 1500 metrics_default))
      in contains out (str ''uvp_upstream_seconds_total 2.000'') \<and>
         contains out (str ''uvp_upstream_calls_total 2''))"

definition counts_reloads_and_their_failures_separately :: bool where
  "counts_reloads_and_their_failures_separately =
     (let out = render (str ''v'') 0 (fold record_reload [True, False, True] metrics_default)
      in contains out (str ''uvp_config_reloads_total 2'') \<and>
         contains out (str ''uvp_config_reload_failures_total 1''))"

definition escapes_label_values_so_a_token_name_cannot_break_the_format :: bool where
  "escapes_label_values_so_a_token_name_cannot_break_the_format =
     (let name = str ''we'' @ [34] @ str ''ird'' @ [92] @ str ''name'';
          out = render (str ''v'') 1 (record_request name (str ''a'') (str ''ok'') metrics_default)
      in contains out (str ''token='' @ in_quotes (str ''we'' @ [92, 34] @ str ''ird'' @ [92, 92] @ str ''name'')))"

text \<open>\<open>str::lines\<close>: a carriage return before a line feed belongs to the line's end.\<close>

definition strip_cr :: "rstr \<Rightarrow> rstr" where
  "strip_cr s = (if s \<noteq> [] \<and> last s = 13 then butlast s else s)"

fun lines_from :: "rstr \<Rightarrow> rstr \<Rightarrow> rstr list" where
  "lines_from acc [] = (if acc = [] then [] else [acc])"
| "lines_from acc (c # s) =
     (if c = 10 then strip_cr acc # lines_from [] s else lines_from (acc @ [c]) s)"

text \<open>\<open>parse::<f64>().is_ok()\<close>: a sign, then a name or digits with a point and an exponent.\<close>

definition all_digits :: "rstr \<Rightarrow> bool" where
  "all_digits s = list_all is_ascii_digit s"

definition unsigned_part :: "rstr \<Rightarrow> rstr" where
  "unsigned_part s = (if s \<noteq> [] \<and> (hd s = 43 \<or> hd s = 45) then tl s else s)"

definition parses_as_f64 :: "rstr \<Rightarrow> bool" where
  "parses_as_f64 s =
     (let t = map to_ascii_lower (unsigned_part s);
          mantissa = takeWhile (\<lambda>c. c \<noteq> 101) t; expo = dropWhile (\<lambda>c. c \<noteq> 101) t;
          whole = takeWhile (\<lambda>c. c \<noteq> 46) mantissa; frac = dropWhile (\<lambda>c. c \<noteq> 46) mantissa
      in t \<in> set [str ''inf'', str ''infinity'', str ''nan''] \<or>
         all_digits whole \<and> all_digits (tl frac) \<and> whole @ tl frac \<noteq> [] \<and>
         (expo = [] \<or> unsigned_part (tl expo) \<noteq> [] \<and> all_digits (unsigned_part (tl expo))))"

definition last_word :: "rstr \<Rightarrow> rstr" where
  "last_word s = rev (takeWhile (\<lambda>c. c \<noteq> 32) (rev s))"

definition exposition_line :: "rstr \<Rightarrow> bool" where
  "exposition_line l =
     (if starts_with l (str ''#'')
      then starts_with l (str ''# HELP '') \<or> starts_with l (str ''# TYPE '')
      else parses_as_f64 (last_word l))"

definition renders_valid_exposition_syntax :: bool where
  "renders_valid_exposition_syntax =
     (let m = record_request (str ''phone'') (str ''sites:list'') (str ''ok'') metrics_default
      in list_all exposition_line (lines_from [] (render (str ''1.0.0'') 1 m)))"

subsection \<open>They pass\<close>

lemma contains_concat: "x \<in> set xs \<Longrightarrow> contains x p \<Longrightarrow> contains (concat xs) p"
proof (induction xs)
  case (Cons y xs)
  then show ?case by (auto simp: contains_def sublist_append)
qed simp

text \<open>The rendering in pieces: a text is in it when it is in one of its samples.\<close>

definition render_pieces :: "rstr \<Rightarrow> nat \<Rightarrow> metrics \<Rightarrow> rstr list" where
  "render_pieces v n m =
     [family_header (str ''uvp_build_info'') (str ''Version of the running proxy.'') (str ''gauge''),
      line (str ''uvp_build_info'' @ [123] @ str ''version='' @ quoted v @ [125] @ str '' 1''),
      family_header (str ''uvp_tokens_configured'')
        (str ''Number of client tokens in the active config.'') (str ''gauge''),
      line (str ''uvp_tokens_configured '' @ show_nat n),
      family_header (str ''uvp_requests_total'') (str ''Requests by token, action and outcome.'') (str ''counter''),
      concat (map request_sample (requests m)),
      family_header (str ''uvp_vouchers_created_total'') (str ''Vouchers issued through the proxy.'') (str ''counter''),
      concat (map vouchers_sample (vouchers_created m)),
      family_header (str ''uvp_upstream_seconds_total'') (str ''Time spent waiting on the controller.'') (str ''counter''),
      line (str ''uvp_upstream_seconds_total '' @ show_seconds (upstream_latency_ms_total m)),
      family_header (str ''uvp_upstream_calls_total'') (str ''Calls made to the controller.'') (str ''counter''),
      line (str ''uvp_upstream_calls_total '' @ show_nat (unat (upstream_calls m))),
      family_header (str ''uvp_config_reloads_total'') (str ''Successful SIGHUP reloads.'') (str ''counter''),
      line (str ''uvp_config_reloads_total '' @ show_nat (unat (reloads m))),
      family_header (str ''uvp_config_reload_failures_total'') (str ''Reloads rejected for a bad config.'') (str ''counter''),
      line (str ''uvp_config_reload_failures_total '' @ show_nat (unat (reload_failures m)))]"

lemma render_concat: "render v n m = concat (render_pieces v n m)"
  by (simp add: render_def render_pieces_def)

lemma render_has: "x \<in> set (render_pieces v n m) \<Longrightarrow> contains x p \<Longrightarrow> contains (render v n m) p"
  unfolding render_concat by (rule contains_concat)

text \<open>The samples, and what is in them.\<close>

lemma sample_contains:
  "contains (concat (map request_sample (requests m))) p \<Longrightarrow> contains (render v n m) p"
  "contains (concat (map vouchers_sample (vouchers_created m))) p \<Longrightarrow> contains (render v n m) p"
  "contains (line (str ''uvp_build_info'' @ [123] @ str ''version='' @ quoted v @ [125] @ str '' 1'')) p \<Longrightarrow>
     contains (render v n m) p"
  "contains (line (str ''uvp_tokens_configured '' @ show_nat n)) p \<Longrightarrow> contains (render v n m) p"
  "contains (line (str ''uvp_upstream_seconds_total '' @ show_seconds (upstream_latency_ms_total m))) p \<Longrightarrow>
     contains (render v n m) p"
  "contains (line (str ''uvp_upstream_calls_total '' @ show_nat (unat (upstream_calls m)))) p \<Longrightarrow>
     contains (render v n m) p"
  "contains (line (str ''uvp_config_reloads_total '' @ show_nat (unat (reloads m)))) p \<Longrightarrow>
     contains (render v n m) p"
  "contains (line (str ''uvp_config_reload_failures_total '' @ show_nat (unat (reload_failures m)))) p \<Longrightarrow>
     contains (render v n m) p"
  by (erule render_has [rotated], simp only: render_pieces_def list.set insert_iff simp_thms)+

lemma voucher_sum_test: "sums_vouchers_rather_than_counting_calls"
  unfolding sums_vouchers_rather_than_counting_calls_def Let_def
  by (rule sample_contains(2)) code_simp

lemma build_info_test: "reports_build_info_and_token_count"
  unfolding reports_build_info_and_token_count_def Let_def
  by (rule conjI [OF sample_contains(3) sample_contains(4)]; code_simp)

lemma latency_test: "converts_upstream_latency_to_seconds"
  unfolding converts_upstream_latency_to_seconds_def Let_def
  by (rule conjI [OF sample_contains(5) sample_contains(6)]; code_simp)

lemma reload_test: "counts_reloads_and_their_failures_separately"
  unfolding counts_reloads_and_their_failures_separately_def Let_def
  by (rule conjI [OF sample_contains(7) sample_contains(8)]; code_simp)

lemma escape_test: "escapes_label_values_so_a_token_name_cannot_break_the_format"
  unfolding escapes_label_values_so_a_token_name_cannot_break_the_format_def Let_def
  by (rule sample_contains(1)) code_simp

lemma label_sets_test: "counts_requests_per_label_set"
  unfolding counts_requests_per_label_set_def Let_def
  by (intro conjI; rule sample_contains(1), code_simp)

text \<open>The lines of the rendering, when no piece has a line end in it.\<close>

definition one_line :: "rstr \<Rightarrow> bool" where
  "one_line l \<longleftrightarrow> list_all (\<lambda>c. c \<noteq> 10 \<and> c \<noteq> 13) l"

definition family_lines :: "rstr \<Rightarrow> rstr \<Rightarrow> rstr \<Rightarrow> rstr list" where
  "family_lines name help knd =
     [str ''# HELP '' @ name @ str '' '' @ help, str ''# TYPE '' @ name @ str '' '' @ knd]"

lemma family_header_lines: "family_header name help knd = concat (map line (family_lines name help knd))"
  by (simp add: family_header_def family_lines_def)

lemma lines_from_line: "list_all (\<lambda>c. c \<noteq> 10) s \<Longrightarrow> lines_from acc (s @ 10 # rest) = strip_cr (acc @ s) # lines_from [] rest"
  by (induction s arbitrary: acc) simp_all

lemma strip_cr_one_line: "one_line l \<Longrightarrow> strip_cr l = l"
  by (auto simp: strip_cr_def one_line_def list_all_iff dest: last_in_set)

lemma lines_from_lines: "list_all one_line ls \<Longrightarrow> lines_from [] (concat (map line ls)) = ls"
proof (induction ls)
  case (Cons l ls)
  then have "list_all (\<lambda>c. c \<noteq> 10) l" by (simp add: one_line_def list_all_iff)
  with Cons show ?case by (simp add: line_def lines_from_line strip_cr_one_line)
qed simp

definition sample_lines :: "rstr list" where
  "sample_lines =
     [str ''uvp_build_info'' @ [123] @ str ''version='' @ quoted (str ''1.0.0'') @ [125] @ str '' 1'',
      str ''uvp_tokens_configured '' @ show_nat 1,
      str ''uvp_requests_total'' @ [123] @ str ''token='' @ quoted (escape (str ''phone''))
        @ str '',action='' @ quoted (escape (str ''sites:list''))
        @ str '',outcome='' @ quoted (escape (str ''ok'')) @ [125] @ str '' '' @ show_nat (unat (1 :: u64)),
      str ''uvp_upstream_seconds_total '' @ show_seconds 0,
      str ''uvp_upstream_calls_total '' @ show_nat (unat (0 :: u64)),
      str ''uvp_config_reloads_total '' @ show_nat (unat (0 :: u64)),
      str ''uvp_config_reload_failures_total '' @ show_nat (unat (0 :: u64))]"

definition rendered_lines :: "rstr list" where
  "rendered_lines =
     family_lines (str ''uvp_build_info'') (str ''Version of the running proxy.'') (str ''gauge'')
     @ [sample_lines ! 0]
     @ family_lines (str ''uvp_tokens_configured'')
         (str ''Number of client tokens in the active config.'') (str ''gauge'')
     @ [sample_lines ! 1]
     @ family_lines (str ''uvp_requests_total'') (str ''Requests by token, action and outcome.'') (str ''counter'')
     @ [sample_lines ! 2]
     @ family_lines (str ''uvp_vouchers_created_total'') (str ''Vouchers issued through the proxy.'') (str ''counter'')
     @ family_lines (str ''uvp_upstream_seconds_total'') (str ''Time spent waiting on the controller.'') (str ''counter'')
     @ [sample_lines ! 3]
     @ family_lines (str ''uvp_upstream_calls_total'') (str ''Calls made to the controller.'') (str ''counter'')
     @ [sample_lines ! 4]
     @ family_lines (str ''uvp_config_reloads_total'') (str ''Successful SIGHUP reloads.'') (str ''counter'')
     @ [sample_lines ! 5]
     @ family_lines (str ''uvp_config_reload_failures_total'') (str ''Reloads rejected for a bad config.'') (str ''counter'')
     @ [sample_lines ! 6]"

lemma syntax_test: "renders_valid_exposition_syntax"
proof -
  let ?m = "record_request (str ''phone'') (str ''sites:list'') (str ''ok'') metrics_default"
  have m: "requests ?m = [((str ''phone'', str ''sites:list'', str ''ok''), 1)]" "vouchers_created ?m = []"
    "upstream_latency_ms_total ?m = 0" "upstream_calls ?m = 0" "reloads ?m = 0" "reload_failures ?m = 0"
    by (simp_all add: record_request_def metrics_default_def bt_entry_def)
  have "render (str ''1.0.0'') 1 ?m = concat (map line rendered_lines)"
    unfolding render_def m rendered_lines_def sample_lines_def family_header_lines
    by (simp add: request_sample_def line_def del: str_def)
  moreover have "list_all (\<lambda>l. one_line l \<and> exposition_line l) rendered_lines" by code_simp
  ultimately show ?thesis
    by (simp add: renders_valid_exposition_syntax_def lines_from_lines list_all_iff)
qed

section \<open>graphql.rs\<close>

text \<open>
  \<open>debug\<close> is the \<open>Debug\<close> of a GraphQL value holding a text, \<open>json_text\<close> the printer of JSON. The
  round trip through \<open>InputType\<close> and the SDL test derived code and the engine.
\<close>

definition code_of :: "(rstr \<Rightarrow> rstr) \<Rightarrow> gql_error \<Rightarrow> rstr" where
  "code_of debug err = debug (ge_code err)"

definition proxy_errors_carry_their_code_and_status_into_graphql_extensions :: "(rstr \<Rightarrow> rstr) \<Rightarrow> bool" where
  "proxy_errors_carry_their_code_and_status_into_graphql_extensions debug =
     (let err = snd (to_gql (Forbidden (str ''no'')))
      in ge_message err = str ''no'' \<and> contains (code_of debug err) (str ''forbidden''))"

definition internal_errors_stay_opaque_in_graphql_too :: "(rstr \<Rightarrow> rstr) \<Rightarrow> bool" where
  "internal_errors_stay_opaque_in_graphql_too debug =
     (let err = snd (to_gql (Internal [str ''secret detail'']))
      in ge_message err = str ''internal proxy error'' \<and>
         \<not> contains (ge_message err) (str ''secret detail'') \<and>
         contains (code_of debug err) (str ''internal''))"

definition graphql_input_maps_onto_the_same_request_type_rest_uses :: bool where
  "graphql_input_maps_onto_the_same_request_type_rest_uses =
     (let req = request_of_input \<lparr>ci_name = str ''Guest'', ci_count = 3, ci_time_limit_minutes = 480,
        ci_authorized_guest_limit = 2, ci_data_usage_limit_m_bytes = Some 1024,
        ci_rx_rate_limit_kbps = Some 500, ci_tx_rate_limit_kbps = Some 600\<rparr>
      in cv_name req = str ''Guest'' \<and> cv_count req = 3 \<and>
         cv_data_usage_limit_m_bytes req = Some 1024 \<and> cv_tx_rate_limit_kbps req = Some 600)"

definition describes_documents_without_recording_them :: "(json \<Rightarrow> rstr) \<Rightarrow> bool" where
  "describes_documents_without_recording_them json_text =
     (let q = describe json_text (str ''query { info { name } }'');
          m = describe json_text (str ''  mutation { createVouchers(input: {name: '' @ [34]
                @ str ''Alice Smith'' @ [34] @ str ''}) { id } }'')
      in contains q (str ''query'') \<and> contains m (str ''mutation'') \<and> \<not> contains m (str ''Alice''))"

subsection \<open>They pass\<close>

definition debug_shows :: "(rstr \<Rightarrow> rstr) \<Rightarrow> bool" where
  "debug_shows debug \<longleftrightarrow> (\<forall>s. plain_text s \<longrightarrow> contains (debug s) s)"

lemma gql_error_tests:
  assumes "debug_shows debug"
  shows "proxy_errors_carry_their_code_and_status_into_graphql_extensions debug"
    and "internal_errors_stay_opaque_in_graphql_too debug"
proof -
  have "plain_text (str ''forbidden'')" "plain_text (str ''internal'')" by code_simp+
  with assms have "contains (debug (str ''forbidden'')) (str ''forbidden'')"
    "contains (debug (str ''internal'')) (str ''internal'')"
    by (simp_all add: debug_shows_def)
  moreover have "\<not> contains (str ''internal proxy error'') (str ''secret detail'')" by code_simp
  ultimately show "proxy_errors_carry_their_code_and_status_into_graphql_extensions debug"
    "internal_errors_stay_opaque_in_graphql_too debug"
    by (simp_all add: proxy_errors_carry_their_code_and_status_into_graphql_extensions_def
        internal_errors_stay_opaque_in_graphql_too_def to_gql_eq code_of_def)
qed

lemma gql_input_test: "graphql_input_maps_onto_the_same_request_type_rest_uses"
  by (simp add: graphql_input_maps_onto_the_same_request_type_rest_uses_def request_of_input_def)

lemma describe_prints:
  assumes "compact_printer json_text" "plain_text knd"
  shows "json_text (json_object [(str ''kind'', JString knd), (str ''bytes'', JNumber (PosInt n))]) =
    [123] @ in_quotes (str ''bytes'') @ [58] @ show_nat (unat n) @ [44] @ in_quotes (str ''kind'') @ [58]
      @ in_quotes knd @ [125]"
proof -
  have "json_object [(str ''kind'', JString knd), (str ''bytes'', JNumber (PosInt n))] =
      JObject [(str ''bytes'', JNumber (PosInt n)), (str ''kind'', JString knd)]"
    by code_simp
  moreover have "plain_text (str ''bytes'')" "plain_text (str ''kind'')" by code_simp+
  ultimately show ?thesis using assms by (simp add: compact_printer_def)
qed

lemma describe_test: "compact_printer json_text \<Longrightarrow> describes_documents_without_recording_them json_text"
proof -
  assume printer: "compact_printer json_text"
  have plain: "plain_text (str ''query'')" "plain_text (str ''mutation'')" by code_simp+
  let ?q = "str ''query { info { name } }''" and ?m = "str ''  mutation { createVouchers(input: {name: '' @ [34]
    @ str ''Alice Smith'' @ [34] @ str ''}) { id } }''"
  let ?out = "\<lambda>n knd. [123] @ in_quotes (str ''bytes'') @ [58] @ show_nat n @ [44] @ in_quotes (str ''kind'') @ [58]
      @ in_quotes knd @ [125]"
  have k: "\<not> starts_with (trim_start ?q) (str ''mutation'')" "starts_with (trim_start ?m) (str ''mutation'')"
    by code_simp+
  have n: "byte_len ?q = 23" "byte_len ?m = 66" by code_simp+
  have "describe json_text ?q = ?out 23 (str ''query'')" "describe json_text ?m = ?out 66 (str ''mutation'')"
    unfolding describe_def Let_def by (simp_all only: k n if_True if_False describe_prints [OF printer] plain) simp_all
  moreover have "contains (?out 23 (str ''query'')) (str ''query'')"
    "contains (?out 66 (str ''mutation'')) (str ''mutation'')"
    "\<not> contains (?out 66 (str ''mutation'')) (str ''Alice'')"
    by code_simp+
  ultimately show ?thesis by (simp add: describes_documents_without_recording_them_def Let_def)
qed

end
