(* ===== verification/Test_Suite.thy ===== *)
theory Test_Suite
  imports Tests_Auth Tests_Service
begin

text \<open>
  The unit tests of the sources together: a suite per file, and that they pass. The crates a test goes
  through are arguments, under what they document. Two tests assert only that nothing panics: what they
  leave behind is in \<open>audit_test\<close> and \<open>sweep_test\<close>. The two tests of the derived GraphQL input type and
  of the SDL exercise generated code and are left out.
\<close>

section \<open>Suites\<close>

definition error_suite :: "(json \<Rightarrow> rstr) \<Rightarrow> bool" where
  "error_suite shown \<longleftrightarrow>
     every_variant_maps_to_a_status_and_a_kind \<and>
     errors_render_in_the_envelope_unifi_clients_already_parse \<and>
     internal_errors_do_not_tell_the_client_what_went_wrong shown \<and>
     an_anyhow_error_converts_into_the_internal_variant \<and>
     never_renders_the_inner_value"

definition model_suite :: bool where
  "model_suite \<longleftrightarrow>
     reads_sites_in_every_shape_the_api_uses \<and> reads_vouchers_from_both_envelopes \<and>
     tolerates_missing_usage_fields \<and> skips_entries_without_an_id_instead_of_failing_the_response \<and>
     accepts_a_bare_array_as_well_as_an_envelope \<and> falls_back_to_the_first_list_valued_field \<and>
     returns_nothing_for_shapes_that_hold_no_list \<and> reads_numeric_ids \<and>
     treats_an_empty_string_as_absent \<and> skips_sites_without_an_id \<and>
     accepts_numeric_strings_for_int_fields"

definition policy_suite :: "(json \<Rightarrow> rstr) \<Rightarrow> bool" where
  "policy_suite why \<longleftrightarrow>
     accepts_a_normal_request why \<and> rejects_unknown_fields why \<and> enforces_the_count_ceiling why \<and>
     enforces_the_validity_ceiling why \<and> rejects_an_overlong_name why \<and>
     caps_validity_at_the_api_maximum_even_when_configured_higher why \<and>
     carries_optional_rate_limits_through why \<and> rejects_an_absurd_guest_limit why \<and>
     rejects_degenerate_values why"

definition link_suite :: bool where
  "link_suite \<longleftrightarrow>
     normalizes_the_common_fingerprint_spellings \<and> rejects_things_that_are_not_fingerprints \<and>
     normalizes_hosts \<and> rejects_path_traversal_in_ids"

definition auth_suite :: "key_crates \<Rightarrow> rstr \<times> rstr \<Rightarrow> nat list \<Rightarrow> nat list \<Rightarrow> bool" where
  "auth_suite kc salts bytes1 bytes2 \<longleftrightarrow>
     generated_tokens_verify_against_their_hash kc (fst salts) bytes1 \<and>
     authenticates_known_tokens_and_rejects_others kc salts bytes1 bytes2 \<and>
     failed_lookups_do_not_grow_the_cache kc (fst salts) bytes1 \<and>
     accepts_a_reasonable_custom_key kc (fst salts) bytes1 \<and>
     refuses_keys_that_are_not_worth_having kc \<and>
     custom_keys_hash_and_authenticate_like_generated_ones kc (fst salts) \<and>
     refuses_a_key_with_enough_variety_but_too_little_length kc \<and>
     the_authenticator_does_not_print_its_tokens kc (fst salts) bytes1 \<and>
     a_malformed_hash_fails_at_construction_not_at_request_time kc \<and>
     load_hash_check_accepts_real_hashes_and_rejects_the_rest kc (fst salts) bytes1 \<and>
     verify_pair_reports_a_bad_hash_rather_than_a_bad_match kc \<and>
     an_empty_x_api_key_falls_through_to_the_bearer_header \<and> reads_both_header_styles"

definition ratelimit_suite :: "('l, 'k) governor \<Rightarrow> nat \<Rightarrow> bool" where
  "ratelimit_suite gov now \<longleftrightarrow>
     stops_a_caller_that_burns_its_quota gov now \<and>
     a_token_may_tighten_but_not_widen_the_global_quota gov now \<and>
     a_source_address_gets_its_own_pre_auth_budget gov now \<and>
     a_pre_auth_budget_of_zero_is_unlimited gov now \<and> zero_means_unlimited gov now"

definition metrics_suite :: bool where
  "metrics_suite \<longleftrightarrow>
     counts_requests_per_label_set \<and> sums_vouchers_rather_than_counting_calls \<and>
     reports_build_info_and_token_count \<and> converts_upstream_latency_to_seconds \<and>
     counts_reloads_and_their_failures_separately \<and>
     escapes_label_values_so_a_token_name_cannot_break_the_format \<and> renders_valid_exposition_syntax"

definition graphql_suite :: "(rstr \<Rightarrow> rstr) \<Rightarrow> (json \<Rightarrow> rstr) \<Rightarrow> bool" where
  "graphql_suite debug shown \<longleftrightarrow>
     proxy_errors_carry_their_code_and_status_into_graphql_extensions debug \<and>
     internal_errors_stay_opaque_in_graphql_too debug \<and>
     graphql_input_maps_onto_the_same_request_type_rest_uses \<and>
     describes_documents_without_recording_them shown"

section \<open>Stand-ins for the crates\<close>

text \<open>A printer of JSON.\<close>

fun print_json :: "json \<Rightarrow> rstr" and print_list :: "json list \<Rightarrow> rstr"
  and print_fields :: "(rstr \<times> json) list \<Rightarrow> rstr" where
  "print_json JNull = str ''null''"
| "print_json (JBool b) = (if b then str ''true'' else str ''false'')"
| "print_json (JNumber n) =
     (case n of PosInt w \<Rightarrow> show_nat (unat w) | NegInt i \<Rightarrow> show_int i | Float s \<Rightarrow> s)"
| "print_json (JString s) = in_quotes (escape s)"
| "print_json (JArray xs) = [91] @ print_list xs @ [93]"
| "print_json (JObject fs) = [123] @ print_fields fs @ [125]"
| "print_list [] = []"
| "print_list (x # xs) = print_json x @ (if xs = [] then [] else 44 # print_list xs)"
| "print_fields [] = []"
| "print_fields ((k, v) # fs) =
     in_quotes (escape k) @ 58 # print_json v @ (if fs = [] then [] else 44 # print_fields fs)"

lemma escape_plain: "plain_text s \<Longrightarrow> escape s = s"
  by (induction s) (auto simp: plain_text_def escape_Cons)

lemma print_fields_join:
  "list_all (\<lambda>(k, v). plain_text k) fs \<Longrightarrow>
     print_fields fs = join [44] (map (\<lambda>(k, v). in_quotes k @ [58] @ print_json v) fs)"
proof (induction fs)
  case (Cons f fs)
  then show ?case by (cases f; cases fs) (simp_all add: escape_plain)
qed simp

lemma compact_printer_print: "compact_printer print_json"
  by (simp add: compact_printer_def escape_plain print_fields_join)

text \<open>A Debug, key crates without secrecy, and the keyed burst of the governor that never refills.\<close>

definition quoting_debug :: "rstr \<Rightarrow> rstr" where
  "quoting_debug s = str ''String('' @ in_quotes s @ str '')''"

lemma debug_shows_quoting: "debug_shows quoting_debug"
  by (auto simp: debug_shows_def contains_def quoting_debug_def in_quotes_def
      intro: sublist_mid [where a = "str ''String('' @ [34]"])

definition toy_crates :: key_crates where
  "toy_crates =
     \<lparr>kc_hash = (\<lambda>salt key. Ok (36 # key)),
      kc_phc = (\<lambda>s. if prefix [36] s then Ok s else Err (str ''password hash string invalid'')),
      kc_verify = (\<lambda>k h. h = 36 # k), kc_base64 = (\<lambda>bytes. bytes @ replicate 11 65),
      kc_sha256 = (\<lambda>s. s), kc_bits = (\<lambda>len pool. show_nat len)\<rparr>"

lemma kc_ok_toy: "kc_ok toy_crates S K"
  by (auto simp: kc_ok_def toy_crates_def is_ok_iff split: if_splits)

lemma keyed_burst_law_tick: "keyed_burst_law tick_governor"
  unfolding keyed_burst_law_def
  by (rule exI [where x = "\<lambda>now k. k"]) (simp add: tick_governor_def)

section \<open>All suites pass\<close>

text \<open>
  A check of the model against the sources, on the inputs their authors chose: the transcribed tests
  of \<open>error.rs\<close>, \<open>secret.rs\<close>, \<open>model.rs\<close>, \<open>policy.rs\<close>, \<open>tls.rs\<close>, \<open>upstream.rs\<close>, \<open>auth.rs\<close>,
  \<open>ratelimit.rs\<close>, \<open>metrics.rs\<close> and \<open>graphql.rs\<close> hold of the definitions, whatever serde's errors say,
  provided the key crates work for the keys of the run, two draws mint different keys, the JSON printer
  and Debug show what they are given, and a fresh limiter admits its quota.
\<close>

theorem unit_tests_pass:
  assumes "kc_ok kc {fst salts, snd salts}
      (set made_up_keys \<union> {minted_token kc bytes1, minted_token kc bytes2})"
    and "random_draw kc bytes1" "random_draw kc bytes2" "minted_token kc bytes1 \<noteq> minted_token kc bytes2"
    and "compact_printer shown" "debug_shows debug" "burst_law gov" "keyed_burst_law gov"
  shows "error_suite shown \<and> model_suite \<and> policy_suite why \<and> link_suite \<and>
    auth_suite kc salts bytes1 bytes2 \<and> ratelimit_suite gov now \<and> metrics_suite \<and>
    graphql_suite debug shown"
proof (intro conjI)
  show "error_suite shown"
    by (simp add: error_suite_def error_tests internal_error_test assms)
  show model_suite by (simp add: model_suite_def model_tests)
  show "policy_suite why" by (simp add: policy_suite_def policy_tests)
  show link_suite by (simp add: link_suite_def tls_tests upstream_tests)
  show "auth_suite kc salts bytes1 bytes2"
  proof -
    let ?K = "set made_up_keys \<union> {minted_token kc bytes1, minted_token kc bytes2}"
    have K: "set made_up_keys \<subseteq> ?K" "minted_token kc bytes1 \<in> ?K" "minted_token kc bytes2 \<in> ?K"
      and S: "fst salts \<in> {fst salts, snd salts}" "snd salts \<in> {fst salts, snd salts}" by auto
    have len: "length bytes1 = 32" "length bytes2 = 32" using assms(2,3) by (simp_all add: random_draw_def)
    show ?thesis
      unfolding auth_suite_def
      by (intro conjI minted_tests [OF assms(1) K(1,2) S(1) assms(2)]
          known_tokens_test [OF assms(1) K S len assms(4)] custom_key_tests [OF assms(1) K(1) S(1)]
          weak_key_tests header_tests)
  qed
  show "ratelimit_suite gov now"
    by (simp add: ratelimit_suite_def token_limit_tests ip_limit_tests assms)
  show metrics_suite
    by (simp add: metrics_suite_def label_sets_test voucher_sum_test build_info_test latency_test
        reload_test escape_test syntax_test)
  show "graphql_suite debug shown"
    by (simp add: graphql_suite_def gql_error_tests gql_input_test describe_test assms)
qed

theorem unit_tests_pass_witness:
  "error_suite print_json \<and> model_suite \<and> policy_suite (\<lambda>v. []) \<and> link_suite \<and>
    auth_suite toy_crates (str ''salt'', str ''pepper'') [97..<129] [98..<130] \<and>
    ratelimit_suite tick_governor 0 \<and> metrics_suite \<and> graphql_suite quoting_debug print_json"
proof (rule unit_tests_pass [OF kc_ok_toy])
  have "set (kc_base64 toy_crates [a..<a + 32]) \<supseteq> {a..<a + 32}" for a by (auto simp: toy_crates_def)
  then have "8 \<le> card (set (kc_base64 toy_crates [a..<a + 32]))" for a
    using card_mono [of "set (kc_base64 toy_crates [a..<a + 32])" "{a..<a + 32}"] by fastforce
  from this [of 97] this [of 98]
  show "random_draw toy_crates [97..<129]" "random_draw toy_crates [98..<130]"
    by (simp_all add: random_draw_def del: upt_rec_numeral)
  have "hd (kc_base64 toy_crates [a..<a + 32]) = a" for a
    by (simp add: toy_crates_def upt_conv_Cons)
  from this [of 97] this [of 98]
  show "minted_token toy_crates [97..<129] \<noteq> minted_token toy_crates [98..<130]"
    by (auto simp: minted_token_def simp del: upt_rec_numeral)
qed (rule compact_printer_print debug_shows_quoting burst_law_tick keyed_burst_law_tick)+

end
