(* ===== verification/Spec2Isabelle.thy ===== *)
theory Spec2Isabelle
  imports Demo_Witnesses Exposition Test_Suite
begin

text \<open>
  A model of unifi-voucher-proxy, the Rust program under \<open>src/src\<close>, and the theorems that make it
  correct.

  \<^bold>\<open>The program.\<close> The proxy holds a UniFi console's full-control API key and lets clients with
  tokens of their own do four things to the hotspot vouchers of the sites they are allowed: list
  sites, list, create and revoke vouchers. A request is extracted into a \<open>Caller\<close> (address budget,
  key, Argon2 with a memo, expiry), then a REST handler or a GraphQL resolver checks scope and site,
  spends quota, judges the body and makes at most one call to the controller, and audit log and
  metrics record what happened. \<open>SIGHUP\<close> replaces the configuration under the running requests.

  \<^bold>\<open>The theories, in the order of the code's layers.\<close>

  \<^item> Prelude, \<open>Rust_Text\<close>, \<open>Btree_Map\<close>, \<open>Json_Value\<close>: what the source uses of the language and its
    standard library. Errors are the left of a sum (\<open>result\<close>), an \<open>anyhow\<close> error is its chain of
    messages, a \<open>String\<close> is a list of code points, \<open>u32\<close> and \<open>u64\<close> are words that wrap, a \<open>BTreeMap\<close> is
    a sorted association list (locale \<open>keyed_store\<close>), a JSON object a list of fields.
  \<^item> \<open>Proxy_Error\<close>: \<open>error.rs\<close> and \<open>secret.rs\<close>. The locale \<open>error_surface\<close> is what a surface owes an
    error; REST interprets it there and GraphQL in \<open>Gql_Surface\<close>.
  \<^item> \<open>Fingerprint\<close>, \<open>Pinning\<close>: \<open>tls.rs\<close>; a handshake completes when the verifier of the mode takes the
    certificate and then the signature. \<open>Proxy_Config\<close>: \<open>config.rs\<close>; \<open>Config_Decode\<close>: its derived
    \<open>Deserialize\<close>, from the table figment extracts, and the round trip of a written file.
  \<^item> \<open>Controller_Client\<close>, \<open>Controller_Laws\<close>: \<open>upstream.rs\<close>; the laws show that an operation is one
    request in the voucher namespace whatever its ids hold, where the key goes, and what \<open>send\<close> tells the
    client and the operator of a failure.
  \<^item> \<open>Voucher_Model\<close>: \<open>model.rs\<close>. \<open>Voucher_Policy\<close>: \<open>policy.rs\<close>, with the behaviour of the derived
    serde code as a concrete codec.
  \<^item> \<open>Client_Auth\<close>: \<open>auth.rs\<close>. \<open>authenticate\<close> also returns the hashes Argon2 ran on; the memo is
    shown invisible.
  \<^item> \<open>Rate_Limits\<close>: \<open>ratelimit.rs\<close>, over an abstract governor; the locale \<open>budgets\<close> is the isolation
    of keyed budgets, interpreted on \<open>check\<close>.
  \<^item> \<open>Metrics_Counters\<close>: \<open>metrics.rs\<close>; \<open>Exposition\<close> reads its text back as a scraper does. \<open>Audit_Log\<close>: \<open>audit.rs\<close>.
  \<^item> \<open>App_State\<close>, \<open>State_Laws\<close>: \<open>state.rs\<close>. The record \<open>world\<close> is all the state there is: the
    controller and what was sent to it, every \<open>Live\<close> ever built with the index of the current one
    (that is \<open>ArcSwap\<close>: a guard is an index and keeps naming its \<open>Live\<close>), counters, audit log, clocks,
    and two history variables, \<open>charged\<close> and \<open>argon\<close>. Third-party code is the record \<open>lib\<close>.
    \<open>wf_world\<close> is the state invariant, \<open>grows\<close> the order every step respects.
  \<^item> \<open>Guarded_Operation\<close>: the abstract specification of an operation (scope, site, quota, data, call)
    and the locale \<open>guarded_surface\<close>, the contract from which accounting follows once for both
    surfaces.
  \<^item> \<open>Gql_Surface\<close>, \<open>Gql_Laws\<close>: \<open>graphql.rs\<close>. \<open>Rest_Routes\<close>, \<open>Rest_Laws\<close>: \<open>routes.rs\<close>. Each handler is
    transcribed with its guards and early returns and then proved to refine \<open>guarded_op\<close>; both
    surfaces interpret \<open>guarded_surface\<close> (\<open>gql\<close>, \<open>restapi\<close>).
  \<^item> \<open>Request_Phases\<close>, \<open>Service_Tasks\<close>, \<open>Service_Runs\<close>: the running process. A request is extracted, and
    its handler is a task that advances from await to await (\<open>advance\<close>); any number of requests,
    stretches, reloads, disconnects and ticks may come in any order. Run without interruption a task
    is the handler (\<open>uninterrupted_handler\<close>); \<open>service_inv\<close> is an invariant of every reachable state.
    \<open>Metric_Labels\<close> bounds the metrics map over the same runs, \<open>Request_Laws\<close> states what one whole
    request does, \<open>Key_Secrecy\<close> that no output depends on the API key, and \<open>Service_Progress\<close> that
    waiting tasks are well-formed and every request gets answered: \<open>work\<close> bounds the stretches left.
  \<^item> \<open>Command_Line\<close>: the subcommands of \<open>main.rs\<close>, \<open>serve\<close> up to the bound sockets.
  \<^item> \<open>Fake_Console\<close>, \<open>Console_Startup\<close>: \<open>bin/fake_controller.rs\<close>, its store, route table, handlers and
    delay, and its \<open>main\<close>, whose printed values are read as text, not through a shell. \<open>Console_Link\<close>:
    the proxy in front of it. The locale \<open>console_link\<close> is what joins the two programs: an exchange is the
    console's when the client can connect, trusts the certificate and gets its answer before the timeout,
    and an error of the client's otherwise; JSON survives the wire, URLs and templates match. From it a
    proxied operation is the console's own operation behind the proxy's guards, pin and timeout.
  \<^item> \<open>Demo_Console\<close>, \<open>Demo_Instance\<close>, \<open>Demo_Witnesses\<close>: every parameter made concrete, with a JSON
    codec and its round trip, a router and the stand-in console as the controller (interpretation
    \<open>link\<close>), so that the model runs and hypotheses are seen to hold.
  \<^item> \<open>Tests_Data\<close>, \<open>Tests_Auth\<close>, \<open>Tests_Service\<close>: the unit tests in the sources, a definition per test
    function under its name, true when its assertions hold of the model. \<open>Test_Suite\<close> collects them
    and shows that they pass, a check of the model on the inputs its authors chose; no property rests on it.

  \<^bold>\<open>Parameters.\<close> Not under \<open>src\<close> and therefore arguments: reqwest with the controller behind it
  (\<open>lib_transport\<close>), serde\_json's parser and printer, Argon2, SHA-256, base64, governor, figment and
  the file system (arguments of \<open>load\<close>), the readers of addresses, durations and timestamps
  (\<open>formats\<close>), the provider's signature algorithms (\<open>crypto_provider\<close>), the binding of a socket and
  a generated certificate (arguments of \<open>serve_command\<close> and \<open>fake_main\<close>), and, in the record \<open>web\<close>, axum's path matching, extractors
  and body limit and async-graphql's parsing, validation and choice of the next field. Hypotheses
  about them are named where used: an injective digest (\<open>extraction_decides\<close>), the burst law of a
  fresh limiter (\<open>fresh_budget\<close>), Argon2 verifying what it hashed (\<open>minted_keys_work\<close>), 64 hex digits
  of a digest (\<open>fetched_pin_connects\<close>, \<open>printed_settings_connect\<close>), printers whose text the readers
  take back (\<open>written_config_loads_back\<close>), a controller that does not look at the key
  (\<open>api_key_never_shows\<close>) and the locale \<open>console_link\<close>. The transcribed unit tests take the key crates,
  the JSON printer, Debug and governor under \<open>kc_ok\<close>, \<open>random_draw\<close>, \<open>compact_printer\<close>, \<open>debug_shows\<close>
  and \<open>keyed_burst_law\<close>.

  \<^bold>\<open>Bounds.\<close> The only fuel is \<open>MAX_COMPLEXITY\<close>, 256, in the run of a GraphQL document: async-graphql
  refuses a document of higher complexity before it resolves a field, and each field costs at least
  one, so no admissible document is cut short. The JSON reader of the demo, \<open>demo_dec\<close>,
  takes one unit of fuel per character, and every node it reads consumes one.

  The handlers stated as one function (\<open>serve\<close>, \<open>handle\<close>) are what a task does in at most 770
  stretches, three per field.

  \<^bold>\<open>Atomicity.\<close> A stretch between two awaits is one step, and so is extraction, which awaits nothing
  that touches the state. A handler awaits before its call goes out and again before the answer
  comes back; other requests, reloads, time and a disconnect may come at both points, and the
  controller may change meanwhile. The fields of one document may be in flight together: the engine
  says when the next one starts (at once in a query, after the previous one in a mutation), the
  scheduler which one continues (\<open>gql_turn\<close>), and a failure that ends the document drops the rest.
  \<open>graphql_handler\<close> is the schedule that finishes each field before the next. Limiters, counters and
  the audit log are thread-safe and each is touched by one call at a time.

  \<^bold>\<open>Not modelled.\<close> tracing's formatting, clap's parsing, signal delivery, axum's graceful
  shutdown, the shell and figment's reading of an environment variable, HTTP framing, the merge of
  TOML and environment (figment), the generation of the stand-in console's certificate, and the
  GraphQL type system (introspection, SDL text), with the two unit tests that exercise the derived
  input type and the SDL. The integration tests under \<open>src/tests\<close> drive the whole process over sockets and
  are not transcribed. They are I/O or other people's code, and no theorem depends on them.
\<close>

section \<open>Runs of the service\<close>

text \<open>
  C1. Every request that reaches the controller was permitted and paid for. In any run from a
  fresh start, with any interleaving of requests, stretches of handlers, disconnects, reloads and
  time, the requests sent so far have distinct units of quota, charged to the tokens they were made
  for; each was made for a caller some configuration entitled, carries an operation that caller's
  scopes and sites permit, with well-formed ids and, for a creation, an admissible body in the
  proxy's own encoding, and goes to the address and with the key of some configuration.
\<close>

theorem every_request_paid_and_permitted:
  assumes "with_path lib config path c now today = Ok w0"
    and "reachable web lib cfg (w0, []) (w, pool)"
  shows "\<exists>owners. mset owners \<subseteq># mset (charged w) \<and>
    list_all2 (\<lambda>owner r. \<exists>i j cl op. caller_of w i cl \<and> caller_name cl = owner \<and>
      j < length (lives w) \<and> op_valid op \<and> permitted cl (op_scope op) (op_site op) \<and>
      body_ok lib cl op \<and> r = op_request (lv_upstream (live_at w j)) op) owners (sent w)"
proof -
  have "booked lib w pool"
    using service_inv_reachable [OF assms(2) service_inv_start [OF assms(1)]]
    by (simp add: service_inv_def)
  then obtain owners where o: "list_all2 (paid_for lib w) owners (sent w)"
    and "mset owners + mset (concat (map held pool)) \<subseteq># mset (charged w)"
    by (auto simp: booked_def)
  then have cover: "mset owners \<subseteq># mset (charged w)"
    by (blast intro: subset_mset.order_trans [OF mset_subset_eq_add_left])
  from o have "list_all2 (\<lambda>owner r. \<exists>i j cl op. caller_of w i cl \<and> caller_name cl = owner \<and>
      j < length (lives w) \<and> op_valid op \<and> permitted cl (op_scope op) (op_site op) \<and>
      body_ok lib cl op \<and> r = op_request (lv_upstream (live_at w j)) op) owners (sent w)"
    by (rule list_all2_mono) (auto simp: paid_for_def justified_def allowed_op_def)
  with cover show ?thesis by blast
qed

theorem every_request_paid_and_permitted_witness:
  "length (sent demo_created) = 1 \<and> (\<exists>owners. mset owners \<subseteq># mset (charged demo_created) \<and>
     length owners = length (sent demo_created))"
  using every_request_paid_and_permitted [OF demo_starts demo_created_runs] demo_created_effects(1)
  by (blast dest: list_all2_lengthD)

end
